theory Spec2Isabelle
  imports Main "HOL-Library.Word"
begin

section \<open>Data model (thread.h, queue.h, scheduler.h)\<close>

text \<open>
  A pointer to a thread object is an address or NULL: \<open>Some a\<close> or \<open>None\<close>.
  The program has one scheduler object; a pointer to it is \<open>Some ()\<close>, NULL is \<open>None\<close>.
\<close>

type_synonym tptr = "nat option"
type_synonym sptr = "unit option"

datatype lwt_state =
    LWT_STATE_NEW
  | LWT_STATE_READY
  | LWT_STATE_RUNNING
  | LWT_STATE_BLOCKED
  | LWT_STATE_FINISHED

text \<open>
  The saved execution context of a thread (\<open>ucontext_t\<close>), reduced to the fields
  \<open>lwt_thread_init\<close> writes: the stack it runs on, the successor context and whether
  \<open>makecontext\<close> has installed the entry trampoline.
\<close>

record ucontext =
  uc_stack_sp :: "nat option"
  uc_stack_size :: nat
  uc_link :: "unit option"
  uc_entry :: bool

text \<open>
  \<open>struct lwt_thread\<close>. The field \<open>next\<close> is \<open>next_thr\<close> and \<open>id\<close> is \<open>tid\<close> here
  (both names are taken in Isabelle); \<open>context\<close> is \<open>ctx\<close>. The C \<open>int\<close> fields that
  the program increments (\<open>id\<close>, \<open>next_thread_id\<close>, \<open>count\<close>) are 32-bit words; those it
  only assigns and compares (\<open>num_workers\<close>, \<open>running_flag\<close>, worker ids) are \<open>int\<close>.
\<close>

record lwt_thread =
  ctx :: ucontext
  stack :: "nat option"
  stack_size :: nat
  state :: lwt_state
  func :: "nat option"
  arg :: nat
  next_thr :: tptr
  waiting :: tptr
  scheduler :: sptr
  tid :: "32 word"

type_synonym thread_heap = "nat \<Rightarrow> lwt_thread"

text \<open>
  \<open>lwt_thread_queue_t\<close>. Its \<open>pthread_mutex_t\<close> is an operating-system resource and is
  accounted for in the resource ledger of the world state below. The field \<open>count\<close> is
  a C \<open>int\<close>: a 32-bit word, read as a signed number with \<open>sint\<close>. \<open>count++\<close> at
  \<open>INT_MAX\<close> gives \<open>INT_MIN\<close> here, which is what the two's-complement machines the
  library is built for compute (the C standard leaves signed overflow undefined).
\<close>

record lwt_thread_queue =
  head :: tptr
  tail :: tptr
  count :: "32 word"

definition INT_MAX :: int where
  "INT_MAX = 2147483647"

definition INT_MIN :: int where
  "INT_MIN = - 2147483648"

datatype lwt_error = EINVAL | ENOMEM | EFAIL

section \<open>The ready queue (queue.c)\<close>

text \<open>
  \<open>lwt_queue_push_locked\<close>: the queue is intrusive, the links live in the thread
  objects, so the function changes the heap and the queue header.
  Note the aliasing when \<open>thread\<close> is the current tail: the second store then writes the
  \<open>next\<close> field that the first store has just cleared.
\<close>

definition lwt_queue_push_locked ::
  "thread_heap \<Rightarrow> lwt_thread_queue \<Rightarrow> nat \<Rightarrow> thread_heap \<times> lwt_thread_queue" where
  "lwt_queue_push_locked h queue thread =
     (let h1 = h(thread := (h thread)\<lparr>next_thr := None\<rparr>) in
      case tail queue of
        None \<Rightarrow>
          (h1, queue\<lparr>head := Some thread, tail := Some thread, count := count queue + 1\<rparr>)
      | Some t \<Rightarrow>
          (h1(t := (h1 t)\<lparr>next_thr := Some thread\<rparr>),
           queue\<lparr>tail := Some thread, count := count queue + 1\<rparr>))"

text \<open>\<open>lwt_queue_pop_locked\<close>: the result is the popped thread, or NULL.\<close>

definition lwt_queue_pop_locked ::
  "thread_heap \<Rightarrow> lwt_thread_queue \<Rightarrow> tptr \<times> thread_heap \<times> lwt_thread_queue" where
  "lwt_queue_pop_locked h queue =
     (case head queue of
        None \<Rightarrow> (None, h, queue)
      | Some thread \<Rightarrow>
          (let q1 = queue\<lparr>head := next_thr (h thread)\<rparr>;
               q2 = (if head q1 = None then q1\<lparr>tail := None\<rparr> else q1);
               h1 = h(thread := (h thread)\<lparr>next_thr := None\<rparr>)
           in (Some thread, h1, q2\<lparr>count := count q2 - 1\<rparr>)))"

text \<open>
  The locking entry points check their pointer arguments, take the queue's own mutex
  around the locked variant and release it; in a sequential run the mutex changes
  nothing, so only the checks and the call remain.
\<close>

definition lwt_queue_push ::
  "thread_heap \<Rightarrow> lwt_thread_queue option \<Rightarrow> tptr
     \<Rightarrow> (lwt_error + unit) \<times> thread_heap \<times> lwt_thread_queue option" where
  "lwt_queue_push h queue thread =
     (case (queue, thread) of
        (Some q, Some t) \<Rightarrow>
          (let (h', q') = lwt_queue_push_locked h q t in (Inr (), h', Some q'))
      | _ \<Rightarrow> (Inl EINVAL, h, queue))"

definition lwt_queue_pop ::
  "thread_heap \<Rightarrow> lwt_thread_queue option
     \<Rightarrow> (lwt_error + tptr) \<times> thread_heap \<times> lwt_thread_queue option" where
  "lwt_queue_pop h queue =
     (case queue of
        None \<Rightarrow> (Inl EINVAL, h, queue)
      | Some q \<Rightarrow>
          (let (thread, h', q') = lwt_queue_pop_locked h q in (Inr thread, h', Some q')))"

definition lwt_queue_empty :: "lwt_thread_queue option \<Rightarrow> int" where
  "lwt_queue_empty queue =
     (case queue of None \<Rightarrow> 1 | Some q \<Rightarrow> (if head q = None then 1 else 0))"

definition lwt_queue_size :: "lwt_thread_queue option \<Rightarrow> 32 word" where
  "lwt_queue_size queue = (case queue of None \<Rightarrow> 0 | Some q \<Rightarrow> count q)"

text \<open>The queue header as \<open>lwt_queue_init\<close> leaves it.\<close>

definition queue_zero :: lwt_thread_queue where
  "queue_zero = \<lparr>head = None, tail = None, count = 0\<rparr>"

subsection \<open>Reading the queue off the heap\<close>

text \<open>
  \<open>chain h n p\<close> follows the \<open>next\<close> links from \<open>p\<close> and lists the threads met, at most
  \<open>n\<close> of them. A queue holds exactly \<open>c\<close> threads when \<open>chain h n (head q)\<close> has
  \<open>min n c\<close> elements for every \<open>n\<close>.
\<close>

fun chain :: "thread_heap \<Rightarrow> nat \<Rightarrow> tptr \<Rightarrow> nat list" where
  "chain h 0 p = []"
| "chain h (Suc n) None = []"
| "chain h (Suc n) (Some a) = a # chain h n (next_thr (h a))"

text \<open>
  \<open>is_queue h q xs\<close>: the links from the head run through exactly the threads \<open>xs\<close>, in
  this order, and end with NULL; no thread occurs twice and the tail pointer designates
  the last of them. \<open>is_counted_queue h q xs\<close> says in addition that the count field,
  read as a C \<open>int\<close>, is the number of these threads.
\<close>

fun is_chain :: "thread_heap \<Rightarrow> tptr \<Rightarrow> nat list \<Rightarrow> bool" where
  "is_chain h p [] = (p = None)"
| "is_chain h p (x # xs) = (p = Some x \<and> is_chain h (next_thr (h x)) xs)"

definition is_queue :: "thread_heap \<Rightarrow> lwt_thread_queue \<Rightarrow> nat list \<Rightarrow> bool" where
  "is_queue h q xs =
     (is_chain h (head q) xs \<and> distinct xs \<and>
      tail q = (if xs = [] then None else Some (last xs)))"

definition is_counted_queue :: "thread_heap \<Rightarrow> lwt_thread_queue \<Rightarrow> nat list \<Rightarrow> bool" where
  "is_counted_queue h q xs = (is_queue h q xs \<and> sint (count q) = int (length xs))"

text \<open>Sequences of queue operations, run from a given heap and queue.\<close>

datatype qop = Push nat | Pop

fun run_qop :: "thread_heap \<times> lwt_thread_queue \<Rightarrow> qop \<Rightarrow> thread_heap \<times> lwt_thread_queue" where
  "run_qop (h, q) (Push t) = lwt_queue_push_locked h q t"
| "run_qop (h, q) Pop = snd (lwt_queue_pop_locked h q)"

definition run_qops ::
  "thread_heap \<times> lwt_thread_queue \<Rightarrow> qop list \<Rightarrow> thread_heap \<times> lwt_thread_queue" where
  "run_qops = foldl run_qop"

text \<open>
  \<open>pop_n h q n\<close>: the results of \<open>n\<close> successive calls of \<open>lwt_queue_pop_locked\<close>.
\<close>

fun pop_n :: "thread_heap \<times> lwt_thread_queue \<Rightarrow> nat \<Rightarrow> tptr list" where
  "pop_n hq 0 = []"
| "pop_n (h, q) (Suc n) =
     (let (r, h', q') = lwt_queue_pop_locked h q in r # pop_n (h', q') n)"

text \<open>
  The callers' obligation (spec 4.1: a task must not appear twice in the queue):
  \<open>fresh_pushes xs ops\<close> says that, starting from a queue that holds \<open>xs\<close>, no operation
  of \<open>ops\<close> pushes a thread that is in the queue at that moment. \<open>queue_after xs ops\<close> is
  the content the operations leave.
\<close>

fun queue_after :: "nat list \<Rightarrow> qop list \<Rightarrow> nat list" where
  "queue_after xs [] = xs"
| "queue_after xs (Push t # ops) = queue_after (xs @ [t]) ops"
| "queue_after xs (Pop # ops) = queue_after (tl xs) ops"

fun fresh_pushes :: "nat list \<Rightarrow> qop list \<Rightarrow> bool" where
  "fresh_pushes xs [] = True"
| "fresh_pushes xs (Push t # ops) = (t \<notin> set xs \<and> fresh_pushes (xs @ [t]) ops)"
| "fresh_pushes xs (Pop # ops) = fresh_pushes (tl xs) ops"


text \<open>
  \<open>within_capacity xs ops\<close>: starting from a queue that holds \<open>xs\<close>, every push of
  \<open>ops\<close> finds fewer than \<open>INT_MAX\<close> threads in the queue, so that the queue never holds
  more threads than a C \<open>int\<close> can count.
\<close>

fun within_capacity :: "nat list \<Rightarrow> qop list \<Rightarrow> bool" where
  "within_capacity xs [] = True"
| "within_capacity xs (Push t # ops) =
     (int (length xs) < INT_MAX \<and> within_capacity (xs @ [t]) ops)"
| "within_capacity xs (Pop # ops) = within_capacity (tl xs) ops"

section \<open>Scheduler object and world state\<close>

definition LWT_MAX_WORKERS :: int where
  "LWT_MAX_WORKERS = 64"

definition LWT_DEFAULT_STACK_SIZE :: nat where
  "LWT_DEFAULT_STACK_SIZE = 64 * 1024"

text \<open>
  \<open>struct lwt_scheduler\<close>. The arrays have \<open>LWT_MAX_WORKERS\<close> entries. The handles
  \<open>workers[]\<close>, the mutex and the condition variable are operating-system resources
  and live in the ledger; \<open>main_contexts[]\<close> holds saved registers only and is
  represented by the control location of each OS thread.
\<close>

record lwt_scheduler =
  ready_queue :: lwt_thread_queue
  worker_ids :: "int list"
  num_workers :: int
  running :: "tptr list"
  running_flag :: int
  next_thread_id :: "32 word"

text \<open>Operating-system resources a run can hold.\<close>

datatype resource =
    SchedMem
  | ThreadMem nat
  | StackMem nat
  | QueueMutex
  | SchedMutex
  | SchedCond
  | WorkerThread nat

text \<open>
  OS threads: application threads and the scheduler's worker threads (by slot in
  \<open>workers[]\<close>). The two \<open>__thread\<close> variables of the source, \<open>current_thread\<close> and
  \<open>current_worker_id\<close>, exist once per OS thread.
\<close>

datatype os_thread = App nat | Worker nat

text \<open>
  Where an OS thread is executing: outside the runtime, in the loop of
  \<open>lwt_worker_function\<close>, in the code of a task, or ended.
\<close>

datatype control = Outside | AtLoop | AtTask | Exited

text \<open>
  What a run does that is visible beyond the data: each entry of the trace is logged
  with whether \<open>scheduler->mutex\<close> was held at that moment.
\<close>

datatype event =
    EvLock
  | EvUnlock
  | EvSignal
  | EvBroadcast
  | EvCondWait
  | EvSetState nat lwt_state
  | EvSetWaiting nat tptr
  | EvSetRunning int tptr
  | EvSetFlag int
  | EvPush nat
  | EvPop tptr
  | EvNanosleep nat nat
  | EvOsSleep nat
  | EvSwapToMain nat int
  | EvSwapToThread int nat

text \<open>
  The world: the memory of the program (thread objects, the scheduler object), the
  resource ledger, the thread-local variables and control location of every OS thread,
  the trace, and two facts about time: \<open>clock\<close> is the reading of \<open>CLOCK_REALTIME\<close> in
  nanoseconds, and \<open>hung\<close> says that the calling OS thread is blocked in a call that
  does not return (what follows the call in the source is then not run).
\<close>

record world =
  heap :: thread_heap
  sched :: lwt_scheduler
  live :: "resource set"
  fault :: bool
  mutex_held :: bool
  current_thread :: "os_thread \<Rightarrow> tptr"
  current_worker_id :: "os_thread \<Rightarrow> int"
  ctl :: "os_thread \<Rightarrow> control"
  trace :: "(event \<times> bool) list"
  clock :: nat
  hung :: bool

text \<open>All-zero objects, as \<open>memset\<close> leaves them.\<close>

definition context_zero :: ucontext where
  "context_zero = \<lparr>uc_stack_sp = None, uc_stack_size = 0, uc_link = None, uc_entry = False\<rparr>"

definition thread_zero :: lwt_thread where
  "thread_zero =
     \<lparr>ctx = context_zero, stack = None, stack_size = 0, state = LWT_STATE_NEW,
      func = None, arg = 0, next_thr = None, waiting = None, scheduler = None, tid = 0\<rparr>"

definition scheduler_zero :: lwt_scheduler where
  "scheduler_zero =
     \<lparr>ready_queue = queue_zero, worker_ids = replicate 64 0, num_workers = 0,
      running = replicate 64 None, running_flag = 0, next_thread_id = 0\<rparr>"

definition heap_zero :: thread_heap where
  "heap_zero = (\<lambda>_. thread_zero)"

text \<open>The world before the program has created anything.\<close>

definition boot :: world where
  "boot =
     \<lparr>heap = heap_zero, sched = scheduler_zero, live = {}, fault = False,
      mutex_held = False, current_thread = (\<lambda>_. None), current_worker_id = (\<lambda>_. - 1),
      ctl = (\<lambda>_. Outside), trace = [], clock = 0, hung = False\<rparr>"

subsection \<open>Primitive actions\<close>

definition emit :: "event \<Rightarrow> world \<Rightarrow> world" where
  "emit e w = w\<lparr>trace := trace w @ [(e, mutex_held w)]\<rparr>"

definition pthread_mutex_lock :: "world \<Rightarrow> world" where
  "pthread_mutex_lock w = emit EvLock (w\<lparr>mutex_held := True\<rparr>)"

definition pthread_mutex_unlock :: "world \<Rightarrow> world" where
  "pthread_mutex_unlock w = emit EvUnlock (w\<lparr>mutex_held := False\<rparr>)"

definition pthread_cond_signal :: "world \<Rightarrow> world" where
  "pthread_cond_signal w = emit EvSignal w"

definition pthread_cond_broadcast :: "world \<Rightarrow> world" where
  "pthread_cond_broadcast w = emit EvBroadcast w"

text \<open>
  Taking and giving back a resource. Giving back one that is not held (a double
  \<open>free\<close>, destroying a mutex that was never initialised, joining an OS thread that was
  never created) is undefined behaviour in C: the world records a fault.
\<close>

definition acquire :: "resource \<Rightarrow> world \<Rightarrow> world" where
  "acquire r w = w\<lparr>live := insert r (live w)\<rparr>"

definition release :: "resource \<Rightarrow> world \<Rightarrow> world" where
  "release r w = (if r \<in> live w then w\<lparr>live := live w - {r}\<rparr> else w\<lparr>fault := True\<rparr>)"

text \<open>Stores to the fields that the scheduler mutex protects.\<close>

definition set_state :: "nat \<Rightarrow> lwt_state \<Rightarrow> world \<Rightarrow> world" where
  "set_state t st w =
     emit (EvSetState t st) (w\<lparr>heap := (heap w)(t := (heap w t)\<lparr>state := st\<rparr>)\<rparr>)"

definition set_waiting :: "nat \<Rightarrow> tptr \<Rightarrow> world \<Rightarrow> world" where
  "set_waiting t j w =
     emit (EvSetWaiting t j) (w\<lparr>heap := (heap w)(t := (heap w t)\<lparr>waiting := j\<rparr>)\<rparr>)"

text \<open>
  \<open>scheduler->running[i] = v\<close>. An index outside the array is undefined behaviour.
\<close>

definition set_running :: "int \<Rightarrow> tptr \<Rightarrow> world \<Rightarrow> world" where
  "set_running i v w =
     (if 0 \<le> i \<and> i < LWT_MAX_WORKERS
      then emit (EvSetRunning i v)
             (w\<lparr>sched := (sched w)\<lparr>running := (running (sched w))[nat i := v]\<rparr>\<rparr>)
      else w\<lparr>fault := True\<rparr>)"

definition set_running_flag :: "int \<Rightarrow> world \<Rightarrow> world" where
  "set_running_flag v w = emit (EvSetFlag v) (w\<lparr>sched := (sched w)\<lparr>running_flag := v\<rparr>\<rparr>)"

text \<open>The two locked queue operations on \<open>scheduler->ready_queue\<close>.\<close>

definition ready_push :: "nat \<Rightarrow> world \<Rightarrow> world" where
  "ready_push t w =
     (let (h', q') = lwt_queue_push_locked (heap w) (ready_queue (sched w)) t
      in emit (EvPush t) (w\<lparr>heap := h', sched := (sched w)\<lparr>ready_queue := q'\<rparr>\<rparr>))"

definition ready_pop :: "world \<Rightarrow> tptr \<times> world" where
  "ready_pop w =
     (let (r, h', q') = lwt_queue_pop_locked (heap w) (ready_queue (sched w))
      in (r, emit (EvPop r) (w\<lparr>heap := h', sched := (sched w)\<lparr>ready_queue := q'\<rparr>\<rparr>)))"

text \<open>
  \<open>swapcontext\<close> from a task to the dispatch context of worker \<open>worker_id\<close>, and from the
  dispatch loop into a task: the OS thread \<open>me\<close> continues in the other context.
\<close>

definition swap_to_main :: "os_thread \<Rightarrow> nat \<Rightarrow> int \<Rightarrow> world \<Rightarrow> world" where
  "swap_to_main me thread worker_id w =
     emit (EvSwapToMain thread worker_id) (w\<lparr>ctl := (ctl w)(me := AtLoop)\<rparr>)"

definition swap_to_thread :: "os_thread \<Rightarrow> int \<Rightarrow> nat \<Rightarrow> world \<Rightarrow> world" where
  "swap_to_thread me worker_id thread w =
     emit (EvSwapToThread worker_id thread) (w\<lparr>ctl := (ctl w)(me := AtTask)\<rparr>)"

subsection \<open>Time\<close>

text \<open>
  A \<open>struct timespec\<close> is a pair (seconds, nanoseconds). \<open>clock_gettime\<close> reads the
  clock. \<open>nanosleep\<close> suspends the calling OS thread for the interval it is given: when
  it returns, the clock has advanced by that interval (by the least the call
  guarantees). With a nanosecond field of 1000000000 or more it fails at once with
  \<open>EINVAL\<close>. \<open>sleep\<close> suspends for whole seconds.
\<close>

definition ns_of :: "nat \<times> nat \<Rightarrow> nat" where
  "ns_of ts = fst ts * 1000000000 + snd ts"

definition clock_gettime :: "world \<Rightarrow> nat \<times> nat" where
  "clock_gettime w = (clock w div 1000000000, clock w mod 1000000000)"

definition nanosleep :: "nat \<times> nat \<Rightarrow> world \<Rightarrow> world" where
  "nanosleep ts w =
     (let w1 = emit (EvNanosleep (fst ts) (snd ts)) w in
      if snd ts < 1000000000 then w1\<lparr>clock := clock w1 + ns_of ts\<rparr> else w1)"

definition sleep :: "nat \<Rightarrow> world \<Rightarrow> world" where
  "sleep seconds w =
     (let w1 = emit (EvOsSleep seconds) w in w1\<lparr>clock := clock w1 + seconds * 1000000000\<rparr>)"

section \<open>Threads (thread.c)\<close>

definition lwt_thread_self :: "world \<Rightarrow> os_thread \<Rightarrow> tptr" where
  "lwt_thread_self w me = current_thread w me"

definition lwt_thread_set_current :: "os_thread \<Rightarrow> tptr \<Rightarrow> world \<Rightarrow> world" where
  "lwt_thread_set_current me thread w = w\<lparr>current_thread := (current_thread w)(me := thread)\<rparr>"

definition lwt_scheduler_get_worker_id :: "world \<Rightarrow> os_thread \<Rightarrow> int" where
  "lwt_scheduler_get_worker_id w me = current_worker_id w me"

definition lwt_scheduler_set_worker_id :: "os_thread \<Rightarrow> int \<Rightarrow> world \<Rightarrow> world" where
  "lwt_scheduler_set_worker_id me i w = w\<lparr>current_worker_id := (current_worker_id w)(me := i)\<rparr>"

text \<open>
  \<open>lwt_thread_init\<close>. The results of \<open>malloc\<close> (a block or NULL) and of \<open>getcontext\<close>
  (success or not) are inputs. \<open>size_t\<close> is taken as \<open>nat\<close>: the size is only compared
  with 0 and passed on.
\<close>

definition lwt_thread_init ::
  "tptr \<Rightarrow> nat option \<Rightarrow> nat \<Rightarrow> sptr \<Rightarrow> nat \<Rightarrow> nat option \<Rightarrow> bool \<Rightarrow> world
     \<Rightarrow> (lwt_error + unit) \<times> world" where
  "lwt_thread_init thread fn a schedp stack_sz malloc_result getcontext_ok w =
     (case (thread, fn, schedp) of
        (Some t, Some f, Some u) \<Rightarrow>
          (let stack_sz = (if stack_sz = 0 then LWT_DEFAULT_STACK_SIZE else stack_sz);
               th = thread_zero\<lparr>func := Some f, arg := a, scheduler := Some u,
                      state := LWT_STATE_NEW, stack_size := stack_sz, stack := malloc_result\<rparr>;
               w1 = w\<lparr>heap := (heap w)(t := th)\<rparr>
           in case malloc_result of
                None \<Rightarrow> (Inl ENOMEM, w1)
              | Some b \<Rightarrow>
                  (let w2 = acquire (StackMem b) w1 in
                   if \<not> getcontext_ok
                   then (Inl EFAIL,
                         (release (StackMem b) w2)
                           \<lparr>heap := (heap w2)(t := (heap w2 t)\<lparr>stack := None\<rparr>)\<rparr>)
                   else
                     (let c = (ctx (heap w2 t))
                                \<lparr>uc_stack_sp := Some b, uc_stack_size := stack_sz,
                                 uc_link := None, uc_entry := True\<rparr>;
                          w3 = w2\<lparr>heap := (heap w2)(t := (heap w2 t)\<lparr>ctx := c\<rparr>)\<rparr>;
                          w4 = pthread_mutex_lock w3;
                          i = next_thread_id (sched w4);
                          w5 = w4\<lparr>heap := (heap w4)(t := (heap w4 t)\<lparr>tid := i\<rparr>),
                                  sched := (sched w4)\<lparr>next_thread_id := i + 1\<rparr>\<rparr>
                      in (Inr (), pthread_mutex_unlock w5))))
      | _ \<Rightarrow> (Inl EINVAL, w))"

definition lwt_thread_cleanup :: "tptr \<Rightarrow> world \<Rightarrow> world" where
  "lwt_thread_cleanup thread w =
     (case thread of
        None \<Rightarrow> w
      | Some t \<Rightarrow>
          (case stack (heap w t) of
             None \<Rightarrow> w
           | Some b \<Rightarrow>
               (let w1 = release (StackMem b) w
                in w1\<lparr>heap := (heap w1)(t := (heap w1 t)\<lparr>stack := None\<rparr>)\<rparr>)))"

section \<open>Cooperative primitives (lwthread.c)\<close>

text \<open>
  \<open>lwt_yield\<close>, called on OS thread \<open>me\<close>. Every thread object refers to the one
  scheduler, so \<open>thread->scheduler\<close> is \<open>sched w\<close>.
\<close>

definition lwt_yield :: "os_thread \<Rightarrow> world \<Rightarrow> world" where
  "lwt_yield me w =
     (case lwt_thread_self w me of
        None \<Rightarrow> w
      | Some thread \<Rightarrow>
          (let worker_id = lwt_scheduler_get_worker_id w me in
           if worker_id < 0 \<or> worker_id \<ge> num_workers (sched w) then w
           else
             (let w1 = pthread_mutex_lock w;
                  w2 = (if state (heap w1 thread) \<noteq> LWT_STATE_FINISHED
                        then ready_push thread (set_state thread LWT_STATE_READY w1)
                        else w1);
                  w3 = set_running worker_id None w2;
                  w4 = pthread_cond_signal w3;
                  w5 = pthread_mutex_unlock w4
              in swap_to_main me thread worker_id w5)))"

definition lwt_join :: "os_thread \<Rightarrow> tptr \<Rightarrow> world \<Rightarrow> world" where
  "lwt_join me target w =
     (case target of
        None \<Rightarrow> w
      | Some thread \<Rightarrow>
          (case lwt_thread_self w me of
             None \<Rightarrow> w
           | Some self \<Rightarrow>
               (let worker_id = lwt_scheduler_get_worker_id w me in
                if worker_id < 0 \<or> worker_id \<ge> num_workers (sched w) then w
                else
                  (let w1 = pthread_mutex_lock w in
                   if state (heap w1 thread) = LWT_STATE_FINISHED
                   then pthread_mutex_unlock w1
                   else
                     (let w2 = set_state self LWT_STATE_BLOCKED w1;
                          w3 = set_waiting thread (Some self) w2;
                          w4 = set_running worker_id None w3;
                          w5 = pthread_mutex_unlock w4
                      in swap_to_main me self worker_id w5)))))"

definition lwt_current :: "world \<Rightarrow> os_thread \<Rightarrow> tptr" where
  "lwt_current w me = lwt_thread_self w me"

text \<open>
  \<open>lwt_sleep\<close>. \<open>ms\<close> is an \<open>unsigned int\<close>. Inside a task the function reads the
  clock and adds \<open>ms\<close> to it, normalising the nanoseconds: \<open>wake_time\<close>. It hands
  this \<open>timespec\<close> to \<open>nanosleep\<close> (line 240); outside any task it hands \<open>nanosleep\<close>
  the \<open>timespec\<close> made from \<open>ms\<close> alone (lines 203 to 205).
\<close>

definition wake_time :: "nat \<times> nat \<Rightarrow> 32 word \<Rightarrow> nat \<times> nat" where
  "wake_time now ms =
     (let tv_sec = fst now + unat (ms div 1000);
          tv_nsec = snd now + unat ((ms mod 1000) * 1000000)
      in if tv_nsec \<ge> 1000000000 then (tv_sec + 1, tv_nsec - 1000000000)
         else (tv_sec, tv_nsec))"

definition lwt_sleep :: "os_thread \<Rightarrow> 32 word \<Rightarrow> world \<Rightarrow> world" where
  "lwt_sleep me ms w =
     (case lwt_thread_self w me of
        None \<Rightarrow> nanosleep (unat (ms div 1000), unat ((ms mod 1000) * 1000000)) w
      | Some thread \<Rightarrow>
          (let worker_id = lwt_scheduler_get_worker_id w me in
           if worker_id < 0 \<or> worker_id \<ge> num_workers (sched w) then w
           else
             (let wt = wake_time (clock_gettime w) ms;
                  w1 = pthread_mutex_lock w;
                  w2 = set_state thread LWT_STATE_BLOCKED w1;
                  w3 = set_running worker_id None w2;
                  w4 = pthread_mutex_unlock w3;
                  w5 = nanosleep wt w4;
                  w6 = pthread_mutex_lock w5;
                  w7 = set_state thread LWT_STATE_READY w6;
                  w8 = ready_push thread w7;
                  w9 = pthread_cond_signal w8;
                  w10 = pthread_mutex_unlock w9
              in swap_to_main me thread worker_id w10)))"

section \<open>Entry trampoline (thread.c)\<close>

text \<open>
  \<open>lwt_thread_start\<close> reads \<open>current_thread\<close> into its local \<open>thread\<close>, returns at once
  when that is NULL, and calls the entry function. \<open>lwt_thread_start_return\<close> is the
  rest of the function, which runs when the entry function has returned: \<open>thread\<close> is
  that local, \<open>me\<close> the OS thread the task is on at that moment.
\<close>

definition lwt_thread_finish :: "nat \<Rightarrow> world \<Rightarrow> world" where
  "lwt_thread_finish thread w =
     (let w1 = pthread_mutex_lock w;
          w2 = set_state thread LWT_STATE_FINISHED w1;
          w3 = (case waiting (heap w2 thread) of
                  None \<Rightarrow> w2
                | Some j \<Rightarrow>
                    pthread_cond_signal
                      (set_waiting thread None
                         (ready_push j (set_state j LWT_STATE_READY w2))))
      in pthread_mutex_unlock w3)"

definition lwt_thread_start_return :: "os_thread \<Rightarrow> nat \<Rightarrow> world \<Rightarrow> world" where
  "lwt_thread_start_return me thread w = lwt_yield me (lwt_thread_finish thread w)"

section \<open>Scheduler (scheduler.c)\<close>

text \<open>
  \<open>lwt_queue_init\<close> and \<open>lwt_queue_destroy\<close> on \<open>&scheduler->ready_queue\<close> (\<open>Some ()\<close>)
  or on NULL. Whether \<open>pthread_mutex_init\<close> succeeds is an input.
\<close>

definition lwt_queue_init :: "unit option \<Rightarrow> bool \<Rightarrow> world \<Rightarrow> (lwt_error + unit) \<times> world" where
  "lwt_queue_init queue mutex_ok w =
     (case queue of
        None \<Rightarrow> (Inl EINVAL, w)
      | Some u \<Rightarrow>
          (let w1 = w\<lparr>sched := (sched w)\<lparr>ready_queue := queue_zero\<rparr>\<rparr> in
           if \<not> mutex_ok then (Inl EFAIL, w1)
           else (Inr (), acquire QueueMutex w1)))"

definition lwt_queue_destroy :: "unit option \<Rightarrow> world \<Rightarrow> world" where
  "lwt_queue_destroy queue w =
     (case queue of
        None \<Rightarrow> w
      | Some u \<Rightarrow>
          (let w1 = release QueueMutex w
           in w1\<lparr>sched := (sched w1)\<lparr>ready_queue := queue_zero\<rparr>\<rparr>))"

text \<open>The loop \<open>for (i = 0; i < num_workers; i++) worker_ids[i] = i\<close>.\<close>

fun fill_worker_ids :: "nat \<Rightarrow> nat \<Rightarrow> int list \<Rightarrow> int list" where
  "fill_worker_ids i 0 ids = ids"
| "fill_worker_ids i (Suc k) ids = fill_worker_ids (Suc i) k (ids[i := int i])"

definition lwt_scheduler_init ::
  "sptr \<Rightarrow> int \<Rightarrow> bool \<Rightarrow> bool \<Rightarrow> bool \<Rightarrow> world \<Rightarrow> (lwt_error + unit) \<times> world" where
  "lwt_scheduler_init schedp n qmutex_ok mutex_ok cond_ok w =
     (if schedp = None \<or> n \<le> 0 \<or> n > LWT_MAX_WORKERS then (Inl EINVAL, w)
      else
        (let w1 = w\<lparr>sched := scheduler_zero\<lparr>num_workers := n, running_flag := 0,
                                             next_thread_id := 1\<rparr>\<rparr>
         in case lwt_queue_init (Some ()) qmutex_ok w1 of
              (Inl e, w2) \<Rightarrow> (Inl EFAIL, w2)
            | (Inr u, w2) \<Rightarrow>
                if \<not> mutex_ok then (Inl EFAIL, lwt_queue_destroy (Some ()) w2)
                else
                  (let w3 = acquire SchedMutex w2 in
                   if \<not> cond_ok
                   then (Inl EFAIL, lwt_queue_destroy (Some ()) (release SchedMutex w3))
                   else
                     (let w4 = acquire SchedCond w3
                      in (Inr (),
                          w4\<lparr>sched := (sched w4)
                               \<lparr>worker_ids :=
                                  fill_worker_ids 0 (nat n) (worker_ids (sched w4))\<rparr>\<rparr>)))))"

definition lwt_scheduler_cleanup :: "sptr \<Rightarrow> world \<Rightarrow> world" where
  "lwt_scheduler_cleanup schedp w =
     (case schedp of
        None \<Rightarrow> w
      | Some u \<Rightarrow> lwt_queue_destroy (Some ()) (release SchedCond (release SchedMutex w)))"

text \<open>
  \<open>lwt_scheduler_add_thread\<close>. The state is stored and the thread pushed with
  \<open>lwt_queue_push\<close>, which takes the queue's own mutex, not \<open>scheduler->mutex\<close>.
\<close>

definition lwt_scheduler_add_thread :: "sptr \<Rightarrow> tptr \<Rightarrow> world \<Rightarrow> (lwt_error + unit) \<times> world" where
  "lwt_scheduler_add_thread schedp thread w =
     (case (schedp, thread) of
        (Some u, Some t) \<Rightarrow>
          (let w1 = set_state t LWT_STATE_READY w in
           case lwt_queue_push (heap w1) (Some (ready_queue (sched w1))) (Some t) of
             (Inr u', h', Some q') \<Rightarrow>
               (let w2 = emit (EvPush t) (w1\<lparr>heap := h', sched := (sched w1)\<lparr>ready_queue := q'\<rparr>\<rparr>);
                    w3 = pthread_mutex_lock w2;
                    w4 = pthread_cond_signal w3
                in (Inr (), pthread_mutex_unlock w4))
           | _ \<Rightarrow> (Inl EFAIL, w1))
      | _ \<Rightarrow> (Inl EINVAL, w))"

text \<open>
  \<open>lwt_worker_function\<close>. Its local \<open>scheduler\<close> is set to NULL at line 19 and never
  assigned, so every pass of its \<open>while (1)\<close> loop sleeps for a second and starts over
  (lines 27 to 30): \<open>lwt_worker_iteration\<close> is one pass, on OS thread \<open>me\<close> with the local
  \<open>id\<close>. The rest of the loop body, lines 31 to 50, is \<open>lwt_worker_dispatch\<close>; the
  function as written never reaches it. In it, a pass that finds the queue empty waits
  on the condition variable (the mutex is released while waiting), and a pass that
  finds the flag cleared ends the OS thread.
\<close>

definition lwt_worker_dispatch :: "os_thread \<Rightarrow> int \<Rightarrow> world \<Rightarrow> world" where
  "lwt_worker_dispatch me id' w =
     (let w1 = pthread_mutex_lock w in
      if running_flag (sched w1) \<noteq> 0 \<and> head (ready_queue (sched w1)) = None
      then emit EvCondWait (w1\<lparr>mutex_held := False\<rparr>)
      else if running_flag (sched w1) = 0
      then (pthread_mutex_unlock w1)\<lparr>ctl := (ctl w1)(me := Exited)\<rparr>
      else
        (case ready_pop w1 of
           (Some thread, w2) \<Rightarrow>
             (let w3 = set_state thread LWT_STATE_RUNNING w2;
                  w4 = set_running id' (Some thread) w3;
                  w5 = pthread_mutex_unlock w4;
                  w6 = lwt_thread_set_current me (Some thread) w5
              in swap_to_thread me id' thread w6)
         | (None, w2) \<Rightarrow> pthread_mutex_unlock w2))"

definition lwt_worker_iteration :: "os_thread \<Rightarrow> int \<Rightarrow> world \<Rightarrow> world" where
  "lwt_worker_iteration me id' w =
     (let scheduler = (None :: sptr) in
      if scheduler = None then sleep 1 w
      else lwt_worker_dispatch me id' w)"

text \<open>
  The start of \<open>lwt_worker_function\<close> on the OS thread that \<open>pthread_create\<close> makes for
  slot \<open>i\<close>: fresh thread-local variables, then \<open>lwt_scheduler_set_worker_id(*id_ptr)\<close>.
  It touches only that thread's own variables, so it is run with the creation.
\<close>

definition pthread_create_worker :: "nat \<Rightarrow> bool \<Rightarrow> world \<Rightarrow> world" where
  "pthread_create_worker i ok w =
     (if \<not> ok then w
      else
        (let w1 = acquire (WorkerThread i) w;
             w2 = w1\<lparr>current_thread := (current_thread w1)(Worker i := None),
                     ctl := (ctl w1)(Worker i := AtLoop)\<rparr>
         in lwt_scheduler_set_worker_id (Worker i) (worker_ids (sched w2) ! i) w2))"

text \<open>
  \<open>pthread_join\<close> on \<open>workers[i]\<close>. Joining a handle that \<open>pthread_create\<close> has not
  filled is undefined behaviour. The call returns, and gives the handle back, once
  that worker has ended; while the worker is in its loop the caller stays blocked,
  and nothing that follows in the caller is run.
\<close>

definition pthread_join_worker :: "nat \<Rightarrow> world \<Rightarrow> world" where
  "pthread_join_worker i w =
     (if hung w then w
      else if WorkerThread i \<notin> live w then w\<lparr>fault := True\<rparr>
      else if ctl w (Worker i) = Exited then release (WorkerThread i) w
      else w\<lparr>hung := True\<rparr>)"

section \<open>Scheduler life cycle and spawn (lwthread.c)\<close>

definition lwt_scheduler_create ::
  "int \<Rightarrow> bool \<Rightarrow> bool \<Rightarrow> bool \<Rightarrow> bool \<Rightarrow> world \<Rightarrow> (lwt_error + unit) \<times> world" where
  "lwt_scheduler_create num_threads malloc_ok qmutex_ok mutex_ok cond_ok w =
     (if num_threads \<le> 0 \<or> num_threads > LWT_MAX_WORKERS then (Inl EINVAL, w)
      else if \<not> malloc_ok then (Inl ENOMEM, w)
      else
        (let w1 = acquire SchedMem w in
         case lwt_scheduler_init (Some ()) num_threads qmutex_ok mutex_ok cond_ok w1 of
           (Inl e, w2) \<Rightarrow> (Inl e, release SchedMem w2)
         | (Inr u, w2) \<Rightarrow> (Inr (), w2)))"

definition lwt_scheduler_start :: "sptr \<Rightarrow> (nat \<Rightarrow> bool) \<Rightarrow> world \<Rightarrow> world" where
  "lwt_scheduler_start schedp create_ok w =
     (if schedp = None \<or> running_flag (sched w) \<noteq> 0 then w
      else
        (let w1 = pthread_mutex_lock w;
             w2 = set_running_flag 1 w1;
             w3 = pthread_mutex_unlock w2
         in fold (\<lambda>i. pthread_create_worker i (create_ok i)) [0..<nat (num_workers (sched w3))] w3))"

text \<open>
  \<open>lwt_scheduler_stop\<close>. \<open>lwt_scheduler_stop_flag\<close> is its critical section; the joins
  follow. \<open>lwt_scheduler_destroy\<close> goes on to the clean-up when the stop has returned.
\<close>

definition lwt_scheduler_stop_flag :: "world \<Rightarrow> world" where
  "lwt_scheduler_stop_flag w =
     pthread_mutex_unlock (pthread_cond_broadcast (set_running_flag 0 (pthread_mutex_lock w)))"

definition lwt_scheduler_stop :: "sptr \<Rightarrow> world \<Rightarrow> world" where
  "lwt_scheduler_stop schedp w =
     (if schedp = None \<or> running_flag (sched w) = 0 then w
      else
        (let w1 = lwt_scheduler_stop_flag w
         in fold pthread_join_worker [0..<nat (num_workers (sched w1))] w1))"

definition lwt_scheduler_destroy :: "sptr \<Rightarrow> world \<Rightarrow> world" where
  "lwt_scheduler_destroy schedp w =
     (case schedp of
        None \<Rightarrow> w
      | Some u \<Rightarrow>
          (let w1 = lwt_scheduler_stop (Some u) w in
           if hung w1 then w1
           else release SchedMem (lwt_scheduler_cleanup (Some u) w1)))"

text \<open>
  \<open>lwt_create\<close>. The two \<open>malloc\<close> results (thread object, stack) and the outcome of
  \<open>getcontext\<close> are inputs.
\<close>

definition lwt_create ::
  "sptr \<Rightarrow> nat option \<Rightarrow> nat \<Rightarrow> tptr \<Rightarrow> nat option \<Rightarrow> bool \<Rightarrow> world
     \<Rightarrow> (lwt_error + nat) \<times> world" where
  "lwt_create schedp fn a malloc_thread malloc_stack getcontext_ok w =
     (if schedp = None \<or> fn = None then (Inl EINVAL, w)
      else
        (case malloc_thread of
           None \<Rightarrow> (Inl ENOMEM, w)
         | Some t \<Rightarrow>
             (let w1 = acquire (ThreadMem t) w in
              case lwt_thread_init (Some t) fn a schedp 0 malloc_stack getcontext_ok w1 of
                (Inl e, w2) \<Rightarrow> (Inl e, release (ThreadMem t) w2)
              | (Inr u, w2) \<Rightarrow>
                  (case lwt_scheduler_add_thread schedp (Some t) w2 of
                     (Inl e, w3) \<Rightarrow>
                       (Inl e, release (ThreadMem t) (lwt_thread_cleanup (Some t) w3))
                   | (Inr u', w3) \<Rightarrow> (Inr t, w3)))))"

section \<open>The running system\<close>

text \<open>
  One step of the system is one operation of the runtime, run by an OS thread \<open>me\<close>:
  \<^item> \<open>Spawn\<close>: \<open>lwt_create\<close>, from any OS thread; \<open>malloc\<close> returns blocks that are not in
    use;
  \<^item> \<open>Dispatch\<close>: one pass of the loop of \<open>lwt_worker_function\<close>, by an OS thread that is
    in the loop; its local \<open>id\<close> is the thread-local worker id (both are \<open>*id_ptr\<close>, read
    when the thread starts);
  \<^item> \<open>Yield\<close>, \<open>Join\<close>, \<open>Sleep\<close>: the three primitives, called by any OS thread, with any
    arguments;
  \<^item> \<open>Finish\<close>: the rest of the entry trampoline after the entry function has returned,
    on an OS thread whose current thread is \<open>t\<close>;
  \<^item> \<open>Start\<close>: \<open>lwt_scheduler_start\<close>;
  \<^item> \<open>StopFlag\<close>: the critical section of \<open>lwt_scheduler_stop\<close> (the joins that follow
    change no thread or queue).

  Each operation is taken as a whole. The stores to the ready queue that a run of the
  program performs are those of \<open>lwt_create\<close> alone, all inside \<open>lwt_queue_push\<close> and so
  under the queue's own mutex: the worker loop never pops, hence no OS thread ever has
  a current thread (lemma \<open>no_task_is_ever_current\<close> below), and \<open>lwt_yield\<close>, \<open>lwt_join\<close>
  and \<open>lwt_sleep\<close> return before they touch shared memory, while \<open>Finish\<close> is never
  enabled. The flag is written under the scheduler mutex.
\<close>

inductive step :: "world \<Rightarrow> world \<Rightarrow> bool" where
  Spawn:
    "\<lbrakk>\<forall>a. malloc_thread = Some a \<longrightarrow> ThreadMem a \<notin> live w;
      \<forall>b. malloc_stack = Some b \<longrightarrow> StackMem b \<notin> live w\<rbrakk>
     \<Longrightarrow> step w (snd (lwt_create schedp fn x malloc_thread malloc_stack getcontext_ok w))"
| Dispatch:
    "ctl w me = AtLoop \<Longrightarrow> step w (lwt_worker_iteration me (current_worker_id w me) w)"
| Yield:
    "step w (lwt_yield me w)"
| Join:
    "step w (lwt_join me target w)"
| Sleep:
    "step w (lwt_sleep me ms w)"
| Finish:
    "lwt_thread_self w me = Some t \<Longrightarrow> step w (lwt_thread_start_return me t w)"
| Start:
    "step w (lwt_scheduler_start schedp create_ok w)"
| StopFlag:
    "running_flag (sched w) \<noteq> 0 \<Longrightarrow> step w (lwt_scheduler_stop_flag w)"

text \<open>
  The reachable worlds: \<open>lwt_scheduler_create\<close> has succeeded, in a world where nothing
  was allocated, the memory holds anything and the clock shows any time, and steps
  have followed.
\<close>

inductive reachable :: "world \<Rightarrow> bool" where
  Created:
    "lwt_scheduler_create n True True True True (boot\<lparr>heap := h, clock := c\<rparr>) = (Inr (), w)
     \<Longrightarrow> reachable w"
| Stepped:
    "\<lbrakk>reachable w; step w w'\<rbrakk> \<Longrightarrow> reachable w'"

text \<open>A task is a thread object that \<open>lwt_create\<close> has allocated.\<close>

definition is_task :: "world \<Rightarrow> nat \<Rightarrow> bool" where
  "is_task w t = (ThreadMem t \<in> live w)"

definition state_of :: "world \<Rightarrow> nat \<Rightarrow> lwt_state" where
  "state_of w t = state (heap w t)"

definition waiting_of :: "world \<Rightarrow> nat \<Rightarrow> tptr" where
  "waiting_of w t = waiting (heap w t)"

text \<open>
  The threads on the ready queue, read off the heap: \<open>on_ready_queue w xs\<close> holds when the
  links from the head of \<open>scheduler->ready_queue\<close> run through exactly \<open>xs\<close>.
\<close>

definition on_ready_queue :: "world \<Rightarrow> nat list \<Rightarrow> bool" where
  "on_ready_queue w xs = is_queue (heap w) (ready_queue (sched w)) xs"

text \<open>
  The calling context of a primitive that is called from within task \<open>t\<close>: the OS
  thread \<open>me\<close> has \<open>t\<close> as its current thread and is a worker of the scheduler. In the
  source the current thread is stored only by \<open>lwt_worker_function\<close> (scheduler.c, line
  46), which has stored its worker id before (line 21), an entry of \<open>worker_ids\<close>; and
  \<open>lwt_scheduler_init\<close> admits at most \<open>LWT_MAX_WORKERS\<close> workers.
\<close>

definition valid_worker_id :: "world \<Rightarrow> os_thread \<Rightarrow> bool" where
  "valid_worker_id w me =
     (0 \<le> current_worker_id w me \<and> current_worker_id w me < num_workers (sched w))"

definition runs_task :: "world \<Rightarrow> os_thread \<Rightarrow> nat \<Rightarrow> bool" where
  "runs_task w me t =
     (lwt_thread_self w me = Some t \<and> valid_worker_id w me \<and>
      num_workers (sched w) \<le> LWT_MAX_WORKERS)"

text \<open>The invariants of the running system.\<close>

definition inv_queue :: "world \<Rightarrow> bool" where
  "inv_queue w =
     (\<exists>xs. on_ready_queue w xs \<and>
           (\<forall>t. t \<in> set xs \<longleftrightarrow> is_task w t \<and> state_of w t = LWT_STATE_READY))"

definition inv_idle :: "world \<Rightarrow> bool" where
  "inv_idle w =
     (\<forall>me. current_thread w me = None \<and> ctl w me \<noteq> AtTask \<and> ctl w me \<noteq> Exited)"

definition invariant :: "world \<Rightarrow> bool" where
  "invariant w = (inv_queue w \<and> inv_idle w)"

subsection \<open>Sample worlds\<close>

text \<open>
  A run of the program: at 1700000000.25 seconds on the clock a scheduler with three
  workers is created and started, and tasks 3 and 4 are spawned (stacks 13 and 14).
\<close>

definition world_created :: world where
  "world_created =
     snd (lwt_scheduler_create 3 True True True True (boot\<lparr>clock := 1700000000250000000\<rparr>))"

definition world_started :: world where
  "world_started = lwt_scheduler_start (Some ()) (\<lambda>i. True) world_created"

definition world_one_task :: world where
  "world_one_task = snd (lwt_create (Some ()) (Some 0) 0 (Some 3) (Some 13) True world_started)"

definition world_two_tasks :: world where
  "world_two_tasks = snd (lwt_create (Some ()) (Some 0) 0 (Some 4) (Some 14) True world_one_task)"

text \<open>
  Calling contexts for the primitives inside a task. No run of the program gets there;
  these worlds are what lines 31 to 50 of the worker loop make of \<open>world_two_tasks\<close>
  when they are run by hand on worker 0 and then on worker 2: task 3 is RUNNING on
  worker 0 and task 4 on worker 2. In \<open>world_joining\<close> task 4 has then called
  \<open>lwt_join\<close> on task 3, and in \<open>world_first_finished\<close> the entry function of task 3 has
  returned instead.
\<close>

definition world_first_running :: world where
  "world_first_running = lwt_worker_dispatch (Worker 0) 0 world_two_tasks"

definition world_running :: world where
  "world_running = lwt_worker_dispatch (Worker 2) 2 world_first_running"

definition world_joining :: world where
  "world_joining = lwt_join (Worker 2) (Some 3) world_running"

definition world_first_finished :: world where
  "world_first_finished = lwt_thread_start_return (Worker 0) 3 world_running"
section \<open>Queue lemmas\<close>

lemma is_chain_heap_cong:
  "is_chain h p xs \<Longrightarrow> \<forall>x \<in> set xs. next_thr (h' x) = next_thr (h x) \<Longrightarrow> is_chain h' p xs"
  by (induction xs arbitrary: p) auto


lemma chain_is_chain: "is_chain h p xs \<Longrightarrow> chain h n p = take n xs"
proof (induction n arbitrary: p xs)
  case 0 then show ?case by simp
next
  case (Suc n) then show ?case by (cases xs) auto
qed

lemma is_chain_snoc:
  "is_chain h p xs \<Longrightarrow> xs \<noteq> [] \<Longrightarrow> distinct xs \<Longrightarrow> t \<notin> set xs \<Longrightarrow>
   is_chain ((h(t := (h t)\<lparr>next_thr := None\<rparr>))
               (last xs := (h (last xs))\<lparr>next_thr := Some t\<rparr>)) p (xs @ [t])"
proof (induction xs arbitrary: p)
  case Nil then show ?case by simp
next
  case (Cons x xs)
  show ?case
  proof (cases "xs = []")
    case True
    with Cons.prems show ?thesis by auto
  next
    case False
    with Cons show ?thesis by auto
  qed
qed

lemma push_is_queue:
  assumes "is_queue h q xs" "t \<notin> set xs"
  shows "is_queue (fst (lwt_queue_push_locked h q t)) (snd (lwt_queue_push_locked h q t)) (xs @ [t])"
proof (cases "xs = []")
  case True
  with assms show ?thesis by (simp add: is_queue_def lwt_queue_push_locked_def)
next
  case False
  with assms have tl: "tail q = Some (last xs)" and lt: "last xs \<noteq> t"
    by (auto simp: is_queue_def)
  from assms False have "is_chain ((h(t := (h t)\<lparr>next_thr := None\<rparr>))
               (last xs := (h (last xs))\<lparr>next_thr := Some t\<rparr>)) (head q) (xs @ [t])"
    by (intro is_chain_snoc) (auto simp: is_queue_def)
  with assms False tl lt show ?thesis
    by (simp add: is_queue_def lwt_queue_push_locked_def Let_def)
qed

lemma pop_is_queue_Cons:
  assumes "is_queue h q (x # xs)"
  shows "fst (lwt_queue_pop_locked h q) = Some x"
    and "is_queue (fst (snd (lwt_queue_pop_locked h q))) (snd (snd (lwt_queue_pop_locked h q))) xs"
proof -
  from assms have hd: "head q = Some x" and ch: "is_chain h (next_thr (h x)) xs"
    and nx: "x \<notin> set xs" and d: "distinct xs"
    and tl: "tail q = Some (last (x # xs))"
    by (auto simp: is_queue_def)
  show "fst (lwt_queue_pop_locked h q) = Some x"
    using hd by (simp add: lwt_queue_pop_locked_def Let_def)
  have ch': "is_chain (h(x := (h x)\<lparr>next_thr := None\<rparr>)) (next_thr (h x)) xs"
    using ch nx by (intro is_chain_heap_cong[OF ch]) auto
  have e: "(next_thr (h x) = None) = (xs = [])" using ch by (cases xs) auto
  show "is_queue (fst (snd (lwt_queue_pop_locked h q))) (snd (snd (lwt_queue_pop_locked h q))) xs"
    using hd ch' d tl e
    by (auto simp add: lwt_queue_pop_locked_def Let_def is_queue_def)
qed

lemma pop_is_queue_Nil:
  "is_queue h q [] \<Longrightarrow> lwt_queue_pop_locked h q = (None, h, q)"
  by (simp add: is_queue_def lwt_queue_pop_locked_def)

lemma pop_is_queue_tl:
  assumes "is_queue h q xs"
  shows "is_queue (fst (snd (lwt_queue_pop_locked h q))) (snd (snd (lwt_queue_pop_locked h q))) (tl xs)"
proof (cases xs)
  case Nil
  with assms show ?thesis by (simp add: pop_is_queue_Nil)
next
  case (Cons x ys)
  with assms show ?thesis by (simp add: pop_is_queue_Cons(2))
qed

lemma run_qops_is_queue:
  "is_queue h q xs \<Longrightarrow> fresh_pushes xs ops \<Longrightarrow>
   is_queue (fst (run_qops (h, q) ops)) (snd (run_qops (h, q) ops)) (queue_after xs ops)"
proof (induction ops arbitrary: h q xs)
  case Nil
  then show ?case by (simp add: run_qops_def)
next
  case (Cons op ops)
  show ?case
  proof (cases op)
    case (Push t)
    with Cons.prems have f: "t \<notin> set xs" and r: "fresh_pushes (xs @ [t]) ops" by auto
    obtain h1 q1 where p: "lwt_queue_push_locked h q t = (h1, q1)" by (cases "lwt_queue_push_locked h q t")
    from push_is_queue[OF Cons.prems(1) f] p have "is_queue h1 q1 (xs @ [t])" by simp
    from Cons.IH[OF this r] p Push show ?thesis by (simp add: run_qops_def)
  next
    case Pop
    with Cons.prems have r: "fresh_pushes (tl xs) ops" by auto
    obtain v h1 q1 where p: "lwt_queue_pop_locked h q = (v, h1, q1)" by (cases "lwt_queue_pop_locked h q")
    from pop_is_queue_tl[OF Cons.prems(1)] p have "is_queue h1 q1 (tl xs)" by simp
    from Cons.IH[OF this r] p Pop show ?thesis by (simp add: run_qops_def)
  qed
qed

lemma pop_n_empty: "is_queue h q [] \<Longrightarrow> pop_n (h, q) k = replicate k None"
  by (induction k) (simp_all add: pop_is_queue_Nil)

lemma pop_n_is_queue:
  "is_queue h q xs \<Longrightarrow> pop_n (h, q) (length xs + k) = map Some xs @ replicate k None"
proof (induction xs arbitrary: h q)
  case Nil
  then show ?case by (simp add: pop_n_empty)
next
  case (Cons x xs)
  obtain v h1 q1 where p: "lwt_queue_pop_locked h q = (v, h1, q1)" by (cases "lwt_queue_pop_locked h q")
  from pop_is_queue_Cons[OF Cons.prems] p have v: "v = Some x" and q1: "is_queue h1 q1 xs" by simp_all
  from Cons.IH[OF q1] p v show ?case by simp
qed

lemma fresh_pushes_map_Push:
  "fresh_pushes xs (map Push ts) = (distinct ts \<and> set ts \<inter> set xs = {})"
  by (induction ts arbitrary: xs) auto

lemma queue_after_map_Push: "queue_after xs (map Push ts) = xs @ ts"
  by (induction ts arbitrary: xs) auto

lemma is_queue_zero: "is_queue h queue_zero []"
  by (simp add: is_queue_def queue_zero_def)


section \<open>The count field\<close>

lemma sint_add1: "sint (c :: 32 word) < 2147483647 \<Longrightarrow> sint (c + 1) = sint c + 1"
proof -
  assume a: "sint c < 2147483647"
  have l: "- (2 ^ 31) \<le> sint c" using sint_ge[of c] by simp
  have "sint (c + 1) = signed_take_bit 31 (sint c + 1)" by (simp add: sint_word_ariths)
  also have "\<dots> = sint c + 1" using a l by (intro signed_take_bit_int_eq_self) simp_all
  finally show ?thesis .
qed

lemma sint_sub1: "- 2147483648 < sint (c :: 32 word) \<Longrightarrow> sint (c - 1) = sint c - 1"
proof -
  assume a: "- 2147483648 < sint c"
  have l: "sint c < 2 ^ 31" using sint_lt[of c] by simp
  have "sint (c - 1) = signed_take_bit 31 (sint c - 1)" by (simp add: sint_word_ariths)
  also have "\<dots> = sint c - 1" using a l by (intro signed_take_bit_int_eq_self) simp_all
  finally show ?thesis .
qed

lemma push_count: "count (snd (lwt_queue_push_locked h q t)) = count q + 1"
  by (simp add: lwt_queue_push_locked_def Let_def split: option.splits)

lemma pop_count:
  "count (snd (snd (lwt_queue_pop_locked h q))) = (if head q = None then count q else count q - 1)"
  by (simp add: lwt_queue_pop_locked_def Let_def split: option.splits)

lemma push_is_counted_queue:
  assumes "is_counted_queue h q xs" "t \<notin> set xs" "int (length xs) < INT_MAX"
  shows "is_counted_queue (fst (lwt_queue_push_locked h q t)) (snd (lwt_queue_push_locked h q t))
           (xs @ [t])"
proof -
  from assms have q: "is_queue h q xs" and c: "sint (count q) = int (length xs)"
    by (simp_all add: is_counted_queue_def)
  from c assms(3) have "sint (count q) < 2147483647" by (simp add: INT_MAX_def)
  from sint_add1[OF this] c push_is_queue[OF q assms(2)] show ?thesis
    by (simp add: is_counted_queue_def push_count)
qed

lemma pop_is_counted_queue_tl:
  assumes "is_counted_queue h q xs"
  shows "is_counted_queue (fst (snd (lwt_queue_pop_locked h q)))
           (snd (snd (lwt_queue_pop_locked h q))) (tl xs)"
proof (cases xs)
  case Nil
  with assms show ?thesis by (simp add: is_counted_queue_def pop_is_queue_Nil)
next
  case (Cons x ys)
  from assms have q: "is_queue h q xs" and c: "sint (count q) = int (length xs)"
    by (simp_all add: is_counted_queue_def)
  from q Cons have hd: "head q \<noteq> None" by (simp add: is_queue_def)
  from c Cons have "- 2147483648 < sint (count q)" by simp
  from sint_sub1[OF this] c Cons hd pop_is_queue_tl[OF q] show ?thesis
    by (simp add: is_counted_queue_def pop_count)
qed

lemma run_qops_is_counted_queue:
  "is_counted_queue h q xs \<Longrightarrow> fresh_pushes xs ops \<Longrightarrow> within_capacity xs ops \<Longrightarrow>
   is_counted_queue (fst (run_qops (h, q) ops)) (snd (run_qops (h, q) ops)) (queue_after xs ops)"
proof (induction ops arbitrary: h q xs)
  case Nil
  then show ?case by (simp add: run_qops_def)
next
  case (Cons op ops)
  show ?case
  proof (cases op)
    case (Push t)
    with Cons.prems have f: "t \<notin> set xs" and r: "fresh_pushes (xs @ [t]) ops"
      and l: "int (length xs) < INT_MAX" and k: "within_capacity (xs @ [t]) ops" by auto
    obtain h1 q1 where p: "lwt_queue_push_locked h q t = (h1, q1)"
      by (cases "lwt_queue_push_locked h q t")
    from push_is_counted_queue[OF Cons.prems(1) f l] p
    have "is_counted_queue h1 q1 (xs @ [t])" by simp
    from Cons.IH[OF this r k] p Push show ?thesis by (simp add: run_qops_def)
  next
    case Pop
    with Cons.prems have r: "fresh_pushes (tl xs) ops" and k: "within_capacity (tl xs) ops"
      by auto
    obtain v h1 q1 where p: "lwt_queue_pop_locked h q = (v, h1, q1)"
      by (cases "lwt_queue_pop_locked h q")
    from pop_is_counted_queue_tl[OF Cons.prems(1)] p have "is_counted_queue h1 q1 (tl xs)" by simp
    from Cons.IH[OF this r k] p Pop show ?thesis by (simp add: run_qops_def)
  qed
qed

lemma is_counted_queue_zero: "is_counted_queue h queue_zero []"
  by (simp add: is_counted_queue_def is_queue_def queue_zero_def)

lemma count_after_pushes:
  "count (snd (run_qops (h, q) (map Push ts))) = count q + of_nat (length ts)"
proof (induction ts arbitrary: h q)
  case Nil
  then show ?case by (simp add: run_qops_def)
next
  case (Cons t ts)
  obtain h1 q1 where p: "lwt_queue_push_locked h q t = (h1, q1)"
    by (cases "lwt_queue_push_locked h q t")
  from push_count[of h q t] p have c: "count q1 = count q + 1" by simp
  from Cons.IH[of h1 q1] p c show ?case by (simp add: run_qops_def)
qed

text \<open>
  Beyond \<open>INT_MAX\<close> queued threads the count no longer tells their number: after
  2147483648 pushes of different threads it reads \<open>INT_MIN\<close>.
\<close>

lemma count_wraps_beyond_INT_MAX:
  assumes "distinct ts" "length ts = 2147483648"
  shows "is_queue (fst (run_qops (h, queue_zero) (map Push ts)))
           (snd (run_qops (h, queue_zero) (map Push ts))) ts"
    and "sint (count (snd (run_qops (h, queue_zero) (map Push ts)))) = INT_MIN"
proof -
  from assms(1) have f: "fresh_pushes [] (map Push ts)" by (simp add: fresh_pushes_map_Push)
  from run_qops_is_queue[OF is_queue_zero f, of h]
  show "is_queue (fst (run_qops (h, queue_zero) (map Push ts)))
           (snd (run_qops (h, queue_zero) (map Push ts))) ts"
    by (simp add: queue_after_map_Push)
  show "sint (count (snd (run_qops (h, queue_zero) (map Push ts)))) = INT_MIN"
    by (simp add: count_after_pushes assms(2) queue_zero_def INT_MIN_def)
qed
section \<open>Life-cycle lemmas\<close>

lemma length_fill_worker_ids: "length (fill_worker_ids i k ids) = length ids"
  by (induction k arbitrary: i ids) auto

lemma nth_fill_worker_ids:
  "i + k \<le> length ids \<Longrightarrow> j < length ids \<Longrightarrow>
   fill_worker_ids i k ids ! j = (if i \<le> j \<and> j < i + k then int j else ids ! j)"
proof (induction k arbitrary: i ids)
  case 0 then show ?case by simp
next
  case (Suc k)
  then show ?case by (auto simp: nth_list_update)
qed

lemma take_fill_worker_ids:
  "k \<le> length ids \<Longrightarrow> take k (fill_worker_ids 0 k ids) = map int [0..<k]"
  by (rule nth_equalityI) (simp_all add: length_fill_worker_ids nth_fill_worker_ids)

lemmas prim_defs =
  emit_def pthread_mutex_lock_def pthread_mutex_unlock_def pthread_cond_signal_def
  pthread_cond_broadcast_def acquire_def release_def set_state_def set_waiting_def
  set_running_def set_running_flag_def

lemma create_invalid:
  "n < 1 \<or> n > 64 \<Longrightarrow> lwt_scheduler_create n a b c d w = (Inl EINVAL, w)"
  by (auto simp: lwt_scheduler_create_def LWT_MAX_WORKERS_def)

lemma init_ok:
  assumes "1 \<le> n" "n \<le> 64"
  shows "lwt_scheduler_init (Some ()) n True True True w =
    (Inr (), w\<lparr>sched := scheduler_zero\<lparr>num_workers := n, running_flag := 0, next_thread_id := 1,
                     ready_queue := queue_zero,
                     worker_ids := fill_worker_ids 0 (nat n) (replicate 64 0)\<rparr>,
               live := insert SchedCond (insert SchedMutex (insert QueueMutex (live w)))\<rparr>)"
  using assms
  by (simp add: lwt_scheduler_init_def lwt_queue_init_def LWT_MAX_WORKERS_def acquire_def
        scheduler_zero_def Let_def)

lemma create_succeeds:
  assumes "1 \<le> n" "n \<le> 64"
  shows "lwt_scheduler_create n True True True True w =
    (Inr (), w\<lparr>sched := scheduler_zero\<lparr>num_workers := n, running_flag := 0, next_thread_id := 1,
                     ready_queue := queue_zero,
                     worker_ids := fill_worker_ids 0 (nat n) (replicate 64 0)\<rparr>,
               live := insert SchedCond (insert SchedMutex (insert QueueMutex (insert SchedMem (live w))))\<rparr>)"
  using assms
  by (simp add: lwt_scheduler_create_def init_ok LWT_MAX_WORKERS_def acquire_def Let_def)

lemma fold_join_sched: "sched (fold pthread_join_worker xs w) = sched w"
  by (induction xs arbitrary: w) (simp_all add: pthread_join_worker_def release_def)

lemma fold_join_hung: "hung w \<Longrightarrow> fold pthread_join_worker xs w = w"
  by (induction xs arbitrary: w) (simp_all add: pthread_join_worker_def)

lemma stop_flag_cleared:
  "schedp \<noteq> None \<Longrightarrow> running_flag (sched (lwt_scheduler_stop schedp w)) = 0"
  by (simp add: lwt_scheduler_stop_def Let_def fold_join_sched lwt_scheduler_stop_flag_def prim_defs)


section \<open>What each primitive action changes\<close>

lemma is_queue_heap_eq:
  assumes "\<forall>x. next_thr (h' x) = next_thr (h x)"
  shows "is_queue h' q xs = is_queue h q xs"
proof -
  have "is_chain h' (head q) xs = is_chain h (head q) xs"
    using assms is_chain_heap_cong[of h "head q" xs h'] is_chain_heap_cong[of h' "head q" xs h]
    by auto
  then show ?thesis by (simp add: is_queue_def)
qed

lemma push_fields:
  "state (fst (lwt_queue_push_locked h q t) x) = state (h x)"
  "waiting (fst (lwt_queue_push_locked h q t) x) = waiting (h x)"
  by (simp_all add: lwt_queue_push_locked_def Let_def split: option.splits)

lemma pop_fields:
  "state (fst (snd (lwt_queue_pop_locked h q)) x) = state (h x)"
  "waiting (fst (snd (lwt_queue_pop_locked h q)) x) = waiting (h x)"
  by (simp_all add: lwt_queue_pop_locked_def Let_def split: option.splits)

lemmas view_defs = state_of_def waiting_of_def is_task_def on_ready_queue_def

lemma emit_views [simp]:
  "state_of (emit e w) = state_of w"
  "waiting_of (emit e w) = waiting_of w"
  "is_task (emit e w) = is_task w"
  "on_ready_queue (emit e w) = on_ready_queue w"
  "ctl (emit e w) = ctl w"
  "current_thread (emit e w) = current_thread w"
  "current_worker_id (emit e w) = current_worker_id w"
  "num_workers (sched (emit e w)) = num_workers (sched w)"
  "worker_ids (sched (emit e w)) = worker_ids (sched w)"
  "running_flag (sched (emit e w)) = running_flag (sched w)"
  "live (emit e w) = live w"
  by (simp_all add: view_defs emit_def fun_eq_iff)

lemma lock_views [simp]:
  "state_of (pthread_mutex_lock w) = state_of w"
  "waiting_of (pthread_mutex_lock w) = waiting_of w"
  "is_task (pthread_mutex_lock w) = is_task w"
  "on_ready_queue (pthread_mutex_lock w) = on_ready_queue w"
  "ctl (pthread_mutex_lock w) = ctl w"
  "current_thread (pthread_mutex_lock w) = current_thread w"
  "current_worker_id (pthread_mutex_lock w) = current_worker_id w"
  "num_workers (sched (pthread_mutex_lock w)) = num_workers (sched w)"
  "worker_ids (sched (pthread_mutex_lock w)) = worker_ids (sched w)"
  "running_flag (sched (pthread_mutex_lock w)) = running_flag (sched w)"
  "live (pthread_mutex_lock w) = live w"
  by (simp_all add: view_defs pthread_mutex_lock_def emit_def fun_eq_iff)

lemma unlock_views [simp]:
  "state_of (pthread_mutex_unlock w) = state_of w"
  "waiting_of (pthread_mutex_unlock w) = waiting_of w"
  "is_task (pthread_mutex_unlock w) = is_task w"
  "on_ready_queue (pthread_mutex_unlock w) = on_ready_queue w"
  "ctl (pthread_mutex_unlock w) = ctl w"
  "current_thread (pthread_mutex_unlock w) = current_thread w"
  "current_worker_id (pthread_mutex_unlock w) = current_worker_id w"
  "num_workers (sched (pthread_mutex_unlock w)) = num_workers (sched w)"
  "worker_ids (sched (pthread_mutex_unlock w)) = worker_ids (sched w)"
  "running_flag (sched (pthread_mutex_unlock w)) = running_flag (sched w)"
  "live (pthread_mutex_unlock w) = live w"
  by (simp_all add: view_defs pthread_mutex_unlock_def emit_def fun_eq_iff)

lemma signal_views [simp]:
  "state_of (pthread_cond_signal w) = state_of w"
  "waiting_of (pthread_cond_signal w) = waiting_of w"
  "is_task (pthread_cond_signal w) = is_task w"
  "on_ready_queue (pthread_cond_signal w) = on_ready_queue w"
  "ctl (pthread_cond_signal w) = ctl w"
  "current_thread (pthread_cond_signal w) = current_thread w"
  "current_worker_id (pthread_cond_signal w) = current_worker_id w"
  "num_workers (sched (pthread_cond_signal w)) = num_workers (sched w)"
  "worker_ids (sched (pthread_cond_signal w)) = worker_ids (sched w)"
  "running_flag (sched (pthread_cond_signal w)) = running_flag (sched w)"
  "live (pthread_cond_signal w) = live w"
  by (simp_all add: pthread_cond_signal_def)

lemma broadcast_views [simp]:
  "state_of (pthread_cond_broadcast w) = state_of w"
  "waiting_of (pthread_cond_broadcast w) = waiting_of w"
  "is_task (pthread_cond_broadcast w) = is_task w"
  "on_ready_queue (pthread_cond_broadcast w) = on_ready_queue w"
  "ctl (pthread_cond_broadcast w) = ctl w"
  "current_thread (pthread_cond_broadcast w) = current_thread w"
  "current_worker_id (pthread_cond_broadcast w) = current_worker_id w"
  "num_workers (sched (pthread_cond_broadcast w)) = num_workers (sched w)"
  "worker_ids (sched (pthread_cond_broadcast w)) = worker_ids (sched w)"
  "running_flag (sched (pthread_cond_broadcast w)) = running_flag (sched w)"
  "live (pthread_cond_broadcast w) = live w"
  by (simp_all add: pthread_cond_broadcast_def)

lemma nanosleep_views [simp]:
  "state_of (nanosleep ts w) = state_of w"
  "waiting_of (nanosleep ts w) = waiting_of w"
  "is_task (nanosleep ts w) = is_task w"
  "on_ready_queue (nanosleep ts w) = on_ready_queue w"
  "ctl (nanosleep ts w) = ctl w"
  "current_thread (nanosleep ts w) = current_thread w"
  "current_worker_id (nanosleep ts w) = current_worker_id w"
  "num_workers (sched (nanosleep ts w)) = num_workers (sched w)"
  "worker_ids (sched (nanosleep ts w)) = worker_ids (sched w)"
  "running_flag (sched (nanosleep ts w)) = running_flag (sched w)"
  "live (nanosleep ts w) = live w"
  by (simp_all add: nanosleep_def Let_def view_defs emit_def fun_eq_iff)

lemma sleep_views [simp]:
  "state_of (sleep n w) = state_of w"
  "waiting_of (sleep n w) = waiting_of w"
  "is_task (sleep n w) = is_task w"
  "on_ready_queue (sleep n w) = on_ready_queue w"
  "ctl (sleep n w) = ctl w"
  "current_thread (sleep n w) = current_thread w"
  "current_worker_id (sleep n w) = current_worker_id w"
  "num_workers (sched (sleep n w)) = num_workers (sched w)"
  "worker_ids (sched (sleep n w)) = worker_ids (sched w)"
  "running_flag (sched (sleep n w)) = running_flag (sched w)"
  "live (sleep n w) = live w"
  by (simp_all add: sleep_def Let_def view_defs emit_def fun_eq_iff)

lemma set_state_views [simp]:
  "state_of (set_state t s w) = (state_of w)(t := s)"
  "waiting_of (set_state t s w) = waiting_of w"
  "is_task (set_state t s w) = is_task w"
  "on_ready_queue (set_state t s w) = on_ready_queue w"
  "ctl (set_state t s w) = ctl w"
  "current_thread (set_state t s w) = current_thread w"
  "current_worker_id (set_state t s w) = current_worker_id w"
  "num_workers (sched (set_state t s w)) = num_workers (sched w)"
  "worker_ids (sched (set_state t s w)) = worker_ids (sched w)"
  "running_flag (sched (set_state t s w)) = running_flag (sched w)"
  "live (set_state t s w) = live w"
  by (simp_all add: view_defs set_state_def emit_def fun_eq_iff is_queue_heap_eq)

lemma set_waiting_views [simp]:
  "state_of (set_waiting t j w) = state_of w"
  "waiting_of (set_waiting t j w) = (waiting_of w)(t := j)"
  "is_task (set_waiting t j w) = is_task w"
  "on_ready_queue (set_waiting t j w) = on_ready_queue w"
  "ctl (set_waiting t j w) = ctl w"
  "current_thread (set_waiting t j w) = current_thread w"
  "current_worker_id (set_waiting t j w) = current_worker_id w"
  "num_workers (sched (set_waiting t j w)) = num_workers (sched w)"
  "worker_ids (sched (set_waiting t j w)) = worker_ids (sched w)"
  "running_flag (sched (set_waiting t j w)) = running_flag (sched w)"
  "live (set_waiting t j w) = live w"
  by (simp_all add: view_defs set_waiting_def emit_def fun_eq_iff is_queue_heap_eq)

lemma set_running_views [simp]:
  "state_of (set_running i v w) = state_of w"
  "waiting_of (set_running i v w) = waiting_of w"
  "is_task (set_running i v w) = is_task w"
  "on_ready_queue (set_running i v w) = on_ready_queue w"
  "ctl (set_running i v w) = ctl w"
  "current_thread (set_running i v w) = current_thread w"
  "current_worker_id (set_running i v w) = current_worker_id w"
  "num_workers (sched (set_running i v w)) = num_workers (sched w)"
  "worker_ids (sched (set_running i v w)) = worker_ids (sched w)"
  "running_flag (sched (set_running i v w)) = running_flag (sched w)"
  "live (set_running i v w) = live w"
  by (simp_all add: view_defs set_running_def emit_def fun_eq_iff)

lemma set_running_flag_views [simp]:
  "state_of (set_running_flag v w) = state_of w"
  "waiting_of (set_running_flag v w) = waiting_of w"
  "is_task (set_running_flag v w) = is_task w"
  "on_ready_queue (set_running_flag v w) = on_ready_queue w"
  "ctl (set_running_flag v w) = ctl w"
  "current_thread (set_running_flag v w) = current_thread w"
  "current_worker_id (set_running_flag v w) = current_worker_id w"
  "num_workers (sched (set_running_flag v w)) = num_workers (sched w)"
  "worker_ids (sched (set_running_flag v w)) = worker_ids (sched w)"
  "running_flag (sched (set_running_flag v w)) = v"
  "live (set_running_flag v w) = live w"
  by (simp_all add: view_defs set_running_flag_def emit_def fun_eq_iff)

lemma swap_to_main_views [simp]:
  "state_of (swap_to_main me t i w) = state_of w"
  "waiting_of (swap_to_main me t i w) = waiting_of w"
  "is_task (swap_to_main me t i w) = is_task w"
  "on_ready_queue (swap_to_main me t i w) = on_ready_queue w"
  "ctl (swap_to_main me t i w) = (ctl w)(me := AtLoop)"
  "current_thread (swap_to_main me t i w) = current_thread w"
  "current_worker_id (swap_to_main me t i w) = current_worker_id w"
  "num_workers (sched (swap_to_main me t i w)) = num_workers (sched w)"
  "worker_ids (sched (swap_to_main me t i w)) = worker_ids (sched w)"
  "running_flag (sched (swap_to_main me t i w)) = running_flag (sched w)"
  "live (swap_to_main me t i w) = live w"
  by (simp_all add: view_defs swap_to_main_def emit_def fun_eq_iff)

lemma swap_to_thread_views [simp]:
  "state_of (swap_to_thread me i t w) = state_of w"
  "waiting_of (swap_to_thread me i t w) = waiting_of w"
  "is_task (swap_to_thread me i t w) = is_task w"
  "on_ready_queue (swap_to_thread me i t w) = on_ready_queue w"
  "ctl (swap_to_thread me i t w) = (ctl w)(me := AtTask)"
  "current_thread (swap_to_thread me i t w) = current_thread w"
  "current_worker_id (swap_to_thread me i t w) = current_worker_id w"
  "num_workers (sched (swap_to_thread me i t w)) = num_workers (sched w)"
  "worker_ids (sched (swap_to_thread me i t w)) = worker_ids (sched w)"
  "running_flag (sched (swap_to_thread me i t w)) = running_flag (sched w)"
  "live (swap_to_thread me i t w) = live w"
  by (simp_all add: view_defs swap_to_thread_def emit_def fun_eq_iff)

lemma set_current_views [simp]:
  "state_of (lwt_thread_set_current me p w) = state_of w"
  "waiting_of (lwt_thread_set_current me p w) = waiting_of w"
  "is_task (lwt_thread_set_current me p w) = is_task w"
  "on_ready_queue (lwt_thread_set_current me p w) = on_ready_queue w"
  "ctl (lwt_thread_set_current me p w) = ctl w"
  "current_thread (lwt_thread_set_current me p w) = (current_thread w)(me := p)"
  "current_worker_id (lwt_thread_set_current me p w) = current_worker_id w"
  "num_workers (sched (lwt_thread_set_current me p w)) = num_workers (sched w)"
  "worker_ids (sched (lwt_thread_set_current me p w)) = worker_ids (sched w)"
  "running_flag (sched (lwt_thread_set_current me p w)) = running_flag (sched w)"
  "live (lwt_thread_set_current me p w) = live w"
  by (simp_all add: view_defs lwt_thread_set_current_def fun_eq_iff)

lemma ready_push_views [simp]:
  "state_of (ready_push t w) = state_of w"
  "waiting_of (ready_push t w) = waiting_of w"
  "is_task (ready_push t w) = is_task w"
  "ctl (ready_push t w) = ctl w"
  "current_thread (ready_push t w) = current_thread w"
  "current_worker_id (ready_push t w) = current_worker_id w"
  "num_workers (sched (ready_push t w)) = num_workers (sched w)"
  "worker_ids (sched (ready_push t w)) = worker_ids (sched w)"
  "running_flag (sched (ready_push t w)) = running_flag (sched w)"
  "live (ready_push t w) = live w"
  by (simp_all add: view_defs ready_push_def emit_def fun_eq_iff split_beta Let_def push_fields)

lemma ready_pop_views [simp]:
  "state_of (snd (ready_pop w)) = state_of w"
  "waiting_of (snd (ready_pop w)) = waiting_of w"
  "is_task (snd (ready_pop w)) = is_task w"
  "ctl (snd (ready_pop w)) = ctl w"
  "current_thread (snd (ready_pop w)) = current_thread w"
  "current_worker_id (snd (ready_pop w)) = current_worker_id w"
  "num_workers (sched (snd (ready_pop w))) = num_workers (sched w)"
  "worker_ids (sched (snd (ready_pop w))) = worker_ids (sched w)"
  "running_flag (sched (snd (ready_pop w))) = running_flag (sched w)"
  "live (snd (ready_pop w)) = live w"
  by (simp_all add: view_defs ready_pop_def emit_def fun_eq_iff split_beta Let_def pop_fields)


lemma ready_push_queue:
  "on_ready_queue w xs \<Longrightarrow> t \<notin> set xs \<Longrightarrow> on_ready_queue (ready_push t w) (xs @ [t])"
  using push_is_queue[of "heap w" "ready_queue (sched w)" xs t]
  by (simp add: on_ready_queue_def ready_push_def emit_def split_beta Let_def)

lemma ready_pop_queue_Cons:
  "on_ready_queue w (x # xs) \<Longrightarrow>
   fst (ready_pop w) = Some x \<and> on_ready_queue (snd (ready_pop w)) xs"
  using pop_is_queue_Cons[of "heap w" "ready_queue (sched w)" x xs]
  by (simp add: on_ready_queue_def ready_pop_def emit_def split_beta Let_def)

lemma on_ready_queue_head:
  "on_ready_queue w xs \<Longrightarrow> (head (ready_queue (sched w)) = None) = (xs = [])"
  by (cases xs) (auto simp: on_ready_queue_def is_queue_def)



section \<open>What each operation changes\<close>

lemmas to_views = state_of_def[symmetric] waiting_of_def[symmetric]

lemmas tls_defs = lwt_thread_self_def lwt_scheduler_get_worker_id_def valid_worker_id_def

lemma yield_views:
  assumes "current_thread w me = Some t" "valid_worker_id w me"
    "state_of w t \<noteq> LWT_STATE_FINISHED" "on_ready_queue w xs" "t \<notin> set xs"
  shows "state_of (lwt_yield me w) = (state_of w)(t := LWT_STATE_READY)"
    "waiting_of (lwt_yield me w) = waiting_of w"
    "is_task (lwt_yield me w) = is_task w"
    "on_ready_queue (lwt_yield me w) (xs @ [t])"
    "ctl (lwt_yield me w) = (ctl w)(me := AtLoop)"
    "current_thread (lwt_yield me w) = current_thread w"
    "current_worker_id (lwt_yield me w) = current_worker_id w"
    "num_workers (sched (lwt_yield me w)) = num_workers (sched w)"
    "worker_ids (sched (lwt_yield me w)) = worker_ids (sched w)"
  using assms
  by (simp_all add: lwt_yield_def tls_defs Let_def to_views ready_push_queue)

lemma yield_finished_views:
  assumes "current_thread w me = Some t" "valid_worker_id w me"
    "state_of w t = LWT_STATE_FINISHED"
  shows "state_of (lwt_yield me w) = state_of w"
    "waiting_of (lwt_yield me w) = waiting_of w"
    "is_task (lwt_yield me w) = is_task w"
    "on_ready_queue (lwt_yield me w) = on_ready_queue w"
    "ctl (lwt_yield me w) = (ctl w)(me := AtLoop)"
    "current_thread (lwt_yield me w) = current_thread w"
    "current_worker_id (lwt_yield me w) = current_worker_id w"
    "num_workers (sched (lwt_yield me w)) = num_workers (sched w)"
    "worker_ids (sched (lwt_yield me w)) = worker_ids (sched w)"
  using assms
  by (simp_all add: lwt_yield_def tls_defs Let_def to_views)

lemma join_finished_views:
  assumes "current_thread w me = Some self" "valid_worker_id w me"
    "state_of w x = LWT_STATE_FINISHED"
  shows "state_of (lwt_join me (Some x) w) = state_of w"
    "waiting_of (lwt_join me (Some x) w) = waiting_of w"
    "is_task (lwt_join me (Some x) w) = is_task w"
    "on_ready_queue (lwt_join me (Some x) w) = on_ready_queue w"
    "ctl (lwt_join me (Some x) w) = ctl w"
    "current_thread (lwt_join me (Some x) w) = current_thread w"
    "current_worker_id (lwt_join me (Some x) w) = current_worker_id w"
    "num_workers (sched (lwt_join me (Some x) w)) = num_workers (sched w)"
    "worker_ids (sched (lwt_join me (Some x) w)) = worker_ids (sched w)"
  using assms
  by (simp_all add: lwt_join_def tls_defs Let_def to_views)

lemma join_views:
  assumes "current_thread w me = Some self" "valid_worker_id w me"
    "state_of w x \<noteq> LWT_STATE_FINISHED"
  shows "state_of (lwt_join me (Some x) w) = (state_of w)(self := LWT_STATE_BLOCKED)"
    "waiting_of (lwt_join me (Some x) w) = (waiting_of w)(x := Some self)"
    "is_task (lwt_join me (Some x) w) = is_task w"
    "on_ready_queue (lwt_join me (Some x) w) = on_ready_queue w"
    "ctl (lwt_join me (Some x) w) = (ctl w)(me := AtLoop)"
    "current_thread (lwt_join me (Some x) w) = current_thread w"
    "current_worker_id (lwt_join me (Some x) w) = current_worker_id w"
    "num_workers (sched (lwt_join me (Some x) w)) = num_workers (sched w)"
    "worker_ids (sched (lwt_join me (Some x) w)) = worker_ids (sched w)"
  using assms
  by (simp_all add: lwt_join_def tls_defs Let_def to_views)

lemma sleep_views_in_task:
  assumes "current_thread w me = Some t" "valid_worker_id w me"
    "on_ready_queue w xs" "t \<notin> set xs"
  shows "state_of (lwt_sleep me ms w) = (state_of w)(t := LWT_STATE_READY)"
    "waiting_of (lwt_sleep me ms w) = waiting_of w"
    "is_task (lwt_sleep me ms w) = is_task w"
    "on_ready_queue (lwt_sleep me ms w) (xs @ [t])"
    "ctl (lwt_sleep me ms w) = (ctl w)(me := AtLoop)"
    "current_thread (lwt_sleep me ms w) = current_thread w"
    "current_worker_id (lwt_sleep me ms w) = current_worker_id w"
    "num_workers (sched (lwt_sleep me ms w)) = num_workers (sched w)"
    "worker_ids (sched (lwt_sleep me ms w)) = worker_ids (sched w)"
  using assms
  by (simp_all add: lwt_sleep_def tls_defs Let_def to_views ready_push_queue)

lemma finish_views_none:
  assumes "waiting_of w t = None"
  shows "state_of (lwt_thread_finish t w) = (state_of w)(t := LWT_STATE_FINISHED)"
    "waiting_of (lwt_thread_finish t w) = waiting_of w"
    "is_task (lwt_thread_finish t w) = is_task w"
    "on_ready_queue (lwt_thread_finish t w) = on_ready_queue w"
    "ctl (lwt_thread_finish t w) = ctl w"
    "current_thread (lwt_thread_finish t w) = current_thread w"
    "current_worker_id (lwt_thread_finish t w) = current_worker_id w"
    "num_workers (sched (lwt_thread_finish t w)) = num_workers (sched w)"
    "worker_ids (sched (lwt_thread_finish t w)) = worker_ids (sched w)"
  using assms
  by (simp_all add: lwt_thread_finish_def Let_def to_views)

lemma finish_views_some:
  assumes "waiting_of w t = Some j" "on_ready_queue w xs" "j \<notin> set xs"
  shows "state_of (lwt_thread_finish t w)
           = (state_of w)(t := LWT_STATE_FINISHED, j := LWT_STATE_READY)"
    "waiting_of (lwt_thread_finish t w) = (waiting_of w)(t := None)"
    "is_task (lwt_thread_finish t w) = is_task w"
    "on_ready_queue (lwt_thread_finish t w) (xs @ [j])"
    "ctl (lwt_thread_finish t w) = ctl w"
    "current_thread (lwt_thread_finish t w) = current_thread w"
    "current_worker_id (lwt_thread_finish t w) = current_worker_id w"
    "num_workers (sched (lwt_thread_finish t w)) = num_workers (sched w)"
    "worker_ids (sched (lwt_thread_finish t w)) = worker_ids (sched w)"
  using assms
  by (simp_all add: lwt_thread_finish_def Let_def to_views ready_push_queue)

lemma worker_never_dispatches: "lwt_worker_iteration me i w = sleep 1 w"
  by (simp add: lwt_worker_iteration_def)

lemma dispatch_run_views:
  assumes "running_flag (sched w) \<noteq> 0" "on_ready_queue w (x # xs)"
  shows "state_of (lwt_worker_dispatch me i w) = (state_of w)(x := LWT_STATE_RUNNING)"
    "waiting_of (lwt_worker_dispatch me i w) = waiting_of w"
    "is_task (lwt_worker_dispatch me i w) = is_task w"
    "on_ready_queue (lwt_worker_dispatch me i w) xs"
    "ctl (lwt_worker_dispatch me i w) = (ctl w)(me := AtTask)"
    "current_thread (lwt_worker_dispatch me i w) = (current_thread w)(me := Some x)"
    "current_worker_id (lwt_worker_dispatch me i w) = current_worker_id w"
    "num_workers (sched (lwt_worker_dispatch me i w)) = num_workers (sched w)"
    "worker_ids (sched (lwt_worker_dispatch me i w)) = worker_ids (sched w)"
    "running_flag (sched (lwt_worker_dispatch me i w)) = running_flag (sched w)"
proof -
  have q: "on_ready_queue (pthread_mutex_lock w) (x # xs)" using assms(2) by simp
  from on_ready_queue_head[OF q] have h: "head (ready_queue (sched (pthread_mutex_lock w))) \<noteq> None"
    by simp
  obtain w2 where p: "ready_pop (pthread_mutex_lock w) = (Some x, w2)"
    using ready_pop_queue_Cons[OF q] by (cases "ready_pop (pthread_mutex_lock w)") auto
  have w2: "w2 = snd (ready_pop (pthread_mutex_lock w))" using p by simp
  have q2: "on_ready_queue w2 xs" using ready_pop_queue_Cons[OF q] w2 by simp
  have e: "lwt_worker_dispatch me i w =
      swap_to_thread me i x (lwt_thread_set_current me (Some x)
        (pthread_mutex_unlock (set_running i (Some x) (set_state x LWT_STATE_RUNNING w2))))"
    using assms(1) h p by (auto simp add: lwt_worker_dispatch_def Let_def)
  show "state_of (lwt_worker_dispatch me i w) = (state_of w)(x := LWT_STATE_RUNNING)"
    "waiting_of (lwt_worker_dispatch me i w) = waiting_of w"
    "is_task (lwt_worker_dispatch me i w) = is_task w"
    "on_ready_queue (lwt_worker_dispatch me i w) xs"
    "ctl (lwt_worker_dispatch me i w) = (ctl w)(me := AtTask)"
    "current_thread (lwt_worker_dispatch me i w) = (current_thread w)(me := Some x)"
    "current_worker_id (lwt_worker_dispatch me i w) = current_worker_id w"
    "num_workers (sched (lwt_worker_dispatch me i w)) = num_workers (sched w)"
    "worker_ids (sched (lwt_worker_dispatch me i w)) = worker_ids (sched w)"
    "running_flag (sched (lwt_worker_dispatch me i w)) = running_flag (sched w)"
    using q2 by (simp_all add: e w2)
qed

lemma stop_flag_views:
  "state_of (lwt_scheduler_stop_flag w) = state_of w"
  "waiting_of (lwt_scheduler_stop_flag w) = waiting_of w"
  "is_task (lwt_scheduler_stop_flag w) = is_task w"
  "on_ready_queue (lwt_scheduler_stop_flag w) = on_ready_queue w"
  "ctl (lwt_scheduler_stop_flag w) = ctl w"
  "current_thread (lwt_scheduler_stop_flag w) = current_thread w"
  "current_worker_id (lwt_scheduler_stop_flag w) = current_worker_id w"
  "num_workers (sched (lwt_scheduler_stop_flag w)) = num_workers (sched w)"
  "worker_ids (sched (lwt_scheduler_stop_flag w)) = worker_ids (sched w)"
  by (simp_all add: lwt_scheduler_stop_flag_def)

lemma create_worker_views:
  "state_of (pthread_create_worker i ok w) = state_of w"
  "waiting_of (pthread_create_worker i ok w) = waiting_of w"
  "is_task (pthread_create_worker i ok w) = is_task w"
  "on_ready_queue (pthread_create_worker i ok w) = on_ready_queue w"
  "sched (pthread_create_worker i ok w) = sched w"
  "ctl (pthread_create_worker i ok w) = (if ok then (ctl w)(Worker i := AtLoop) else ctl w)"
  "current_thread (pthread_create_worker i ok w)
     = (if ok then (current_thread w)(Worker i := None) else current_thread w)"
  "current_worker_id (pthread_create_worker i ok w)
     = (if ok then (current_worker_id w)(Worker i := worker_ids (sched w) ! i)
        else current_worker_id w)"
  by (simp_all add: pthread_create_worker_def Let_def acquire_def lwt_scheduler_set_worker_id_def
        view_defs fun_eq_iff)

lemma create_workers_frame:
  "state_of (fold (\<lambda>i. pthread_create_worker i (ok i)) [0..<n] w) = state_of w"
  "waiting_of (fold (\<lambda>i. pthread_create_worker i (ok i)) [0..<n] w) = waiting_of w"
  "is_task (fold (\<lambda>i. pthread_create_worker i (ok i)) [0..<n] w) = is_task w"
  "on_ready_queue (fold (\<lambda>i. pthread_create_worker i (ok i)) [0..<n] w) = on_ready_queue w"
  "sched (fold (\<lambda>i. pthread_create_worker i (ok i)) [0..<n] w) = sched w"
  by (induction n; simp add: create_worker_views)+

lemma create_workers_views:
  "ctl (fold (\<lambda>i. pthread_create_worker i (ok i)) [0..<n] w) me
     = (case me of Worker i \<Rightarrow> if i < n \<and> ok i then AtLoop else ctl w me | App k \<Rightarrow> ctl w me)"
  "current_thread (fold (\<lambda>i. pthread_create_worker i (ok i)) [0..<n] w) me
     = (case me of Worker i \<Rightarrow> if i < n \<and> ok i then None else current_thread w me
        | App k \<Rightarrow> current_thread w me)"
  "current_worker_id (fold (\<lambda>i. pthread_create_worker i (ok i)) [0..<n] w) me
     = (case me of Worker i \<Rightarrow> if i < n \<and> ok i then worker_ids (sched w) ! i
                                else current_worker_id w me
        | App k \<Rightarrow> current_worker_id w me)"
  by (induction n; simp add: create_worker_views create_workers_frame split: os_thread.splits;
      auto)+

lemma start_views:
  assumes "schedp \<noteq> None" "running_flag (sched w) = 0"
  shows "state_of (lwt_scheduler_start schedp ok w) = state_of w"
  "waiting_of (lwt_scheduler_start schedp ok w) = waiting_of w"
  "is_task (lwt_scheduler_start schedp ok w) = is_task w"
  "on_ready_queue (lwt_scheduler_start schedp ok w) = on_ready_queue w"
  "num_workers (sched (lwt_scheduler_start schedp ok w)) = num_workers (sched w)"
  "worker_ids (sched (lwt_scheduler_start schedp ok w)) = worker_ids (sched w)"
  "ctl (lwt_scheduler_start schedp ok w) me
     = (case me of Worker i \<Rightarrow> if i < nat (num_workers (sched w)) \<and> ok i then AtLoop else ctl w me
        | App k \<Rightarrow> ctl w me)"
  "current_thread (lwt_scheduler_start schedp ok w) me
     = (case me of Worker i \<Rightarrow> if i < nat (num_workers (sched w)) \<and> ok i then None
                                else current_thread w me
        | App k \<Rightarrow> current_thread w me)"
  "current_worker_id (lwt_scheduler_start schedp ok w) me
     = (case me of Worker i \<Rightarrow> if i < nat (num_workers (sched w)) \<and> ok i
                                then worker_ids (sched w) ! i else current_worker_id w me
        | App k \<Rightarrow> current_worker_id w me)"
  using assms
  by (simp_all add: lwt_scheduler_start_def Let_def create_workers_views create_workers_frame split: os_thread.splits)

lemma is_queue_heap_update:
  "a \<notin> set xs \<Longrightarrow> is_queue (h(a := th)) q xs = is_queue h q xs"
  using is_chain_heap_cong[of h "head q" xs "h(a := th)"]
        is_chain_heap_cong[of "h(a := th)" "head q" xs h]
  by (auto simp: is_queue_def)

lemma create_noop:
  "schedp = None \<or> fn = None \<or> malloc_thread = None \<Longrightarrow>
   snd (lwt_create schedp fn x malloc_thread malloc_stack gok w) = w"
  by (auto simp: lwt_create_def)

lemma create_failed_views:
  assumes "schedp = Some u" "fn = Some f" "ThreadMem a \<notin> live w"
    "malloc_stack = None \<or> \<not> gok" "\<forall>b. malloc_stack = Some b \<longrightarrow> StackMem b \<notin> live w"
    "on_ready_queue w xs" "a \<notin> set xs"
  shows "state_of (snd (lwt_create schedp fn x (Some a) malloc_stack gok w))
           = (state_of w)(a := LWT_STATE_NEW)"
    "waiting_of (snd (lwt_create schedp fn x (Some a) malloc_stack gok w))
           = (waiting_of w)(a := None)"
    "is_task (snd (lwt_create schedp fn x (Some a) malloc_stack gok w)) = is_task w"
    "on_ready_queue (snd (lwt_create schedp fn x (Some a) malloc_stack gok w)) xs"
    "ctl (snd (lwt_create schedp fn x (Some a) malloc_stack gok w)) = ctl w"
    "current_thread (snd (lwt_create schedp fn x (Some a) malloc_stack gok w)) = current_thread w"
    "current_worker_id (snd (lwt_create schedp fn x (Some a) malloc_stack gok w))
       = current_worker_id w"
    "num_workers (sched (snd (lwt_create schedp fn x (Some a) malloc_stack gok w)))
       = num_workers (sched w)"
    "worker_ids (sched (snd (lwt_create schedp fn x (Some a) malloc_stack gok w)))
       = worker_ids (sched w)"
  using assms
  by (auto simp add: lwt_create_def lwt_thread_init_def Let_def acquire_def release_def
        view_defs thread_zero_def fun_eq_iff is_queue_heap_update split: option.splits)

lemma create_views:
  assumes "schedp = Some u" "fn = Some f" "ThreadMem a \<notin> live w"
    "on_ready_queue w xs" "a \<notin> set xs"
  shows "fst (lwt_create schedp fn x (Some a) (Some b) True w) = Inr a"
    "state_of (snd (lwt_create schedp fn x (Some a) (Some b) True w))
           = (state_of w)(a := LWT_STATE_READY)"
    "waiting_of (snd (lwt_create schedp fn x (Some a) (Some b) True w))
           = (waiting_of w)(a := None)"
    "is_task (snd (lwt_create schedp fn x (Some a) (Some b) True w)) = (is_task w)(a := True)"
    "on_ready_queue (snd (lwt_create schedp fn x (Some a) (Some b) True w)) (xs @ [a])"
    "ctl (snd (lwt_create schedp fn x (Some a) (Some b) True w)) = ctl w"
    "current_thread (snd (lwt_create schedp fn x (Some a) (Some b) True w)) = current_thread w"
    "current_worker_id (snd (lwt_create schedp fn x (Some a) (Some b) True w))
       = current_worker_id w"
    "num_workers (sched (snd (lwt_create schedp fn x (Some a) (Some b) True w)))
       = num_workers (sched w)"
    "worker_ids (sched (snd (lwt_create schedp fn x (Some a) (Some b) True w)))
       = worker_ids (sched w)"
proof -
  define th where "th = thread_zero\<lparr>func := Some f, arg := x, scheduler := Some u,
      state := LWT_STATE_NEW, stack_size := LWT_DEFAULT_STACK_SIZE, stack := Some b,
      ctx := context_zero\<lparr>uc_stack_sp := Some b, uc_stack_size := LWT_DEFAULT_STACK_SIZE,
                uc_link := None, uc_entry := True\<rparr>,
      tid := next_thread_id (sched w), state := LWT_STATE_READY\<rparr>"
  have q: "is_queue ((heap w)(a := th)) (ready_queue (sched w)) xs"
    using assms(4,5) by (simp add: is_queue_heap_update on_ready_queue_def)
  note p = push_is_queue[OF q assms(5)]
  obtain h' q' where hq: "lwt_queue_push_locked ((heap w)(a := th)) (ready_queue (sched w)) a = (h', q')"
    by (cases "lwt_queue_push_locked ((heap w)(a := th)) (ready_queue (sched w)) a")
  from p hq have q': "is_queue h' q' (xs @ [a])" by simp
  have st: "\<And>y. state (h' y) = state (((heap w)(a := th)) y)"
    "\<And>y. waiting (h' y) = waiting (((heap w)(a := th)) y)"
    using push_fields[of "(heap w)(a := th)" "ready_queue (sched w)" a] hq by simp_all
  have e: "lwt_create schedp fn x (Some a) (Some b) True w =
     (Inr a, w\<lparr>heap := h',
               sched := (sched w)\<lparr>next_thread_id := next_thread_id (sched w) + 1,
                                   ready_queue := q'\<rparr>,
               live := insert (StackMem b) (insert (ThreadMem a) (live w)),
               mutex_held := False,
               trace := trace w @ [(EvLock, True), (EvUnlock, False),
                          (EvSetState a LWT_STATE_READY, False), (EvPush a, False),
                          (EvLock, True), (EvSignal, True), (EvUnlock, False)]\<rparr>)"
    using assms(1,2) hq
    by (simp add: lwt_create_def lwt_thread_init_def lwt_scheduler_add_thread_def lwt_queue_push_def
          Let_def prim_defs th_def thread_zero_def)
  show "fst (lwt_create schedp fn x (Some a) (Some b) True w) = Inr a"
    "state_of (snd (lwt_create schedp fn x (Some a) (Some b) True w))
           = (state_of w)(a := LWT_STATE_READY)"
    "waiting_of (snd (lwt_create schedp fn x (Some a) (Some b) True w))
           = (waiting_of w)(a := None)"
    "is_task (snd (lwt_create schedp fn x (Some a) (Some b) True w)) = (is_task w)(a := True)"
    "on_ready_queue (snd (lwt_create schedp fn x (Some a) (Some b) True w)) (xs @ [a])"
    "ctl (snd (lwt_create schedp fn x (Some a) (Some b) True w)) = ctl w"
    "current_thread (snd (lwt_create schedp fn x (Some a) (Some b) True w)) = current_thread w"
    "current_worker_id (snd (lwt_create schedp fn x (Some a) (Some b) True w))
       = current_worker_id w"
    "num_workers (sched (snd (lwt_create schedp fn x (Some a) (Some b) True w)))
       = num_workers (sched w)"
    "worker_ids (sched (snd (lwt_create schedp fn x (Some a) (Some b) True w)))
       = worker_ids (sched w)"
    using q' st by (auto simp add: e view_defs fun_eq_iff th_def thread_zero_def)
qed

section \<open>The invariant of the running system\<close>

lemma inv_queueD:
  "inv_queue w \<Longrightarrow>
   \<exists>xs. on_ready_queue w xs \<and> (\<forall>t. t \<in> set xs \<longleftrightarrow> is_task w t \<and> state_of w t = LWT_STATE_READY)"
  by (simp add: inv_queue_def)

lemma inv_queueI:
  "on_ready_queue w xs \<Longrightarrow> (\<And>t. t \<in> set xs \<longleftrightarrow> is_task w t \<and> state_of w t = LWT_STATE_READY)
   \<Longrightarrow> inv_queue w"
  by (auto simp: inv_queue_def)

lemma inv_idleD:
  "inv_idle w \<Longrightarrow> current_thread w me = None \<and> ctl w me \<noteq> AtTask \<and> ctl w me \<noteq> Exited"
  by (simp add: inv_idle_def)

text \<open>An operation that leaves threads, queue and thread-local variables alone\<close>

lemma invariant_frame:
  assumes "invariant w" "state_of w' = state_of w" "is_task w' = is_task w"
    "on_ready_queue w' = on_ready_queue w" "current_thread w' = current_thread w"
    "ctl w' = ctl w"
  shows "invariant w'"
  using assms by (simp add: invariant_def inv_queue_def inv_idle_def)

text \<open>The primitives on an OS thread that has no current thread\<close>

lemma yield_idle: "current_thread w me = None \<Longrightarrow> lwt_yield me w = w"
  by (simp add: lwt_yield_def lwt_thread_self_def)

lemma join_idle: "current_thread w me = None \<Longrightarrow> lwt_join me target w = w"
  by (simp add: lwt_join_def lwt_thread_self_def split: option.splits)

lemma sleep_idle:
  "current_thread w me = None \<Longrightarrow>
   lwt_sleep me ms w = nanosleep (unat (ms div 1000), unat ((ms mod 1000) * 1000000)) w"
  by (simp add: lwt_sleep_def lwt_thread_self_def)

lemma idle_invariant:
  assumes "invariant w"
  shows "invariant (lwt_yield me w)" "invariant (lwt_join me target w)"
    "invariant (lwt_sleep me ms w)" "invariant (lwt_worker_iteration me i w)"
    "invariant (lwt_scheduler_stop_flag w)"
proof -
  from assms have n: "current_thread w me = None" by (simp add: invariant_def inv_idle_def)
  show "invariant (lwt_yield me w)" using assms by (simp add: yield_idle[OF n])
  show "invariant (lwt_join me target w)" using assms by (simp add: join_idle[OF n])
  show "invariant (lwt_sleep me ms w)"
    unfolding sleep_idle[OF n] by (rule invariant_frame[OF assms]) simp_all
  show "invariant (lwt_worker_iteration me i w)"
    unfolding worker_never_dispatches by (rule invariant_frame[OF assms]) simp_all
  show "invariant (lwt_scheduler_stop_flag w)"
    by (rule invariant_frame[OF assms]) (simp_all add: stop_flag_views)
qed

text \<open>Spawn\<close>

lemma spawn_invariant:
  assumes inv: "invariant w"
    and fa: "\<forall>a. malloc_thread = Some a \<longrightarrow> ThreadMem a \<notin> live w"
    and fb: "\<forall>b. malloc_stack = Some b \<longrightarrow> StackMem b \<notin> live w"
  shows "invariant (snd (lwt_create schedp fn x malloc_thread malloc_stack gok w))"
proof (cases "schedp = None \<or> fn = None \<or> malloc_thread = None")
  case True
  from create_noop[OF this] inv show ?thesis by simp
next
  case False
  then obtain u f a where p: "schedp = Some u" "fn = Some f" "malloc_thread = Some a" by auto
  let ?w = "snd (lwt_create schedp fn x (Some a) malloc_stack gok w)"
  from fa p have na: "ThreadMem a \<notin> live w" by simp
  then have nt: "\<not> is_task w a" by (simp add: is_task_def)
  from inv have I: "inv_queue w" "inv_idle w" by (simp_all add: invariant_def)
  from inv_queueD[OF I(1)] obtain xs where xs: "on_ready_queue w xs"
    "\<forall>t. t \<in> set xs \<longleftrightarrow> is_task w t \<and> state_of w t = LWT_STATE_READY" by auto
  from xs nt have nin: "a \<notin> set xs" by auto
  have V: "\<exists>s zs. state_of ?w = (state_of w)(a := s) \<and>
      ((is_task ?w = is_task w \<and> zs = xs) \<or>
       (is_task ?w = (is_task w)(a := True) \<and> s = LWT_STATE_READY \<and> zs = xs @ [a])) \<and>
      on_ready_queue ?w zs \<and> ctl ?w = ctl w \<and> current_thread ?w = current_thread w"
  proof (cases "malloc_stack = None \<or> \<not> gok")
    case True
    note F = create_failed_views[OF p(1,2) na True fb xs(1) nin, of x]
    show ?thesis
      by (intro exI[of _ LWT_STATE_NEW] exI[of _ xs]) (simp add: F)
  next
    case False
    then obtain b where b: "malloc_stack = Some b" "gok = True" by auto
    note F = create_views[OF p(1,2) na xs(1) nin, of x b]
    show ?thesis unfolding b
      by (intro exI[of _ LWT_STATE_READY] exI[of _ "xs @ [a]"]) (simp add: F)
  qed
  then obtain s zs where V: "state_of ?w = (state_of w)(a := s)"
      "(is_task ?w = is_task w \<and> zs = xs) \<or>
       (is_task ?w = (is_task w)(a := True) \<and> s = LWT_STATE_READY \<and> zs = xs @ [a])"
      "on_ready_queue ?w zs" "ctl ?w = ctl w" "current_thread ?w = current_thread w"
    by blast
  have 1: "inv_queue ?w"
  proof (rule inv_queueI[OF V(3)])
    fix y
    from V(2) show "y \<in> set zs \<longleftrightarrow> is_task ?w y \<and> state_of ?w y = LWT_STATE_READY"
    proof
      assume h: "is_task ?w = is_task w \<and> zs = xs"
      then have "is_task ?w y = is_task w y" "zs = xs" by simp_all
      with xs(2) nt show ?thesis by (cases "y = a") (simp_all add: V(1))
    next
      assume h: "is_task ?w = (is_task w)(a := True) \<and> s = LWT_STATE_READY \<and> zs = xs @ [a]"
      then have "is_task ?w y = (y = a \<or> is_task w y)" "s = LWT_STATE_READY" "zs = xs @ [a]"
        by simp_all
      with xs(2) nt show ?thesis by (cases "y = a") (simp_all add: V(1))
    qed
  qed
  have 2: "inv_idle ?w" using I(2) by (simp add: inv_idle_def V(4,5))
  show ?thesis using 1 2 by (simp add: invariant_def p(3))
qed

text \<open>Start\<close>

lemma start_invariant:
  assumes inv: "invariant w"
  shows "invariant (lwt_scheduler_start schedp ok w)"
proof (cases "schedp = None \<or> running_flag (sched w) \<noteq> 0")
  case True
  then have "lwt_scheduler_start schedp ok w = w" by (auto simp: lwt_scheduler_start_def)
  with inv show ?thesis by simp
next
  case False
  then have p: "schedp \<noteq> None" "running_flag (sched w) = 0" by simp_all
  note V = start_views[OF p, of ok]
  let ?w = "lwt_scheduler_start schedp ok w"
  from inv have I: "inv_queue w" "inv_idle w" by (simp_all add: invariant_def)
  have 1: "inv_queue ?w" using I(1) by (simp add: inv_queue_def V(1-4))
  have 2: "inv_idle ?w"
    unfolding inv_idle_def
  proof (intro allI)
    fix me
    from inv_idleD[OF I(2), of me]
    show "current_thread ?w me = None \<and> ctl ?w me \<noteq> AtTask \<and> ctl ?w me \<noteq> Exited"
      by (cases me) (simp_all add: V(7,8))
  qed
  show ?thesis using 1 2 by (simp add: invariant_def)
qed

text \<open>The created scheduler\<close>

lemma created_world:
  assumes "lwt_scheduler_create n True True True True w0 = (Inr (), w)"
  shows "1 \<le> n \<and> n \<le> 64 \<and>
    w = w0\<lparr>sched := scheduler_zero\<lparr>num_workers := n, running_flag := 0, next_thread_id := 1,
                     ready_queue := queue_zero,
                     worker_ids := fill_worker_ids 0 (nat n) (replicate 64 0)\<rparr>,
           live := insert SchedCond (insert SchedMutex (insert QueueMutex
                     (insert SchedMem (live w0))))\<rparr>"
proof -
  have v: "1 \<le> n \<and> n \<le> 64"
  proof (rule ccontr)
    assume "\<not> (1 \<le> n \<and> n \<le> 64)"
    then have "n < 1 \<or> n > 64" by auto
    from create_invalid[OF this] assms show False by simp
  qed
  then have v1: "1 \<le> n" and v2: "n \<le> 64" by simp_all
  from create_succeeds[OF v1 v2, of w0] assms v show ?thesis by simp
qed

lemma created_invariant:
  assumes "lwt_scheduler_create n True True True True (boot\<lparr>heap := h, clock := c\<rparr>) = (Inr (), w)"
  shows "invariant w"
proof -
  from created_world[OF assms]
  have w: "w = boot\<lparr>heap := h, clock := c,
      sched := scheduler_zero\<lparr>num_workers := n, running_flag := 0, next_thread_id := 1,
                     ready_queue := queue_zero,
                     worker_ids := fill_worker_ids 0 (nat n) (replicate 64 0)\<rparr>,
      live := {SchedCond, SchedMutex, QueueMutex, SchedMem}\<rparr>"
    by (simp add: boot_def)
  have 1: "inv_queue w"
    by (rule inv_queueI[of _ "[]"])
       (simp_all add: w on_ready_queue_def is_queue_zero is_task_def boot_def)
  have 2: "inv_idle w" by (simp add: inv_idle_def w boot_def)
  show ?thesis using 1 2 by (simp add: invariant_def)
qed

lemma step_invariant: "step w w' \<Longrightarrow> invariant w \<Longrightarrow> invariant w'"
proof (induction rule: step.induct)
  case (Spawn malloc_thread w malloc_stack schedp fn x getcontext_ok)
  then show ?case by (intro spawn_invariant)
next
  case (Dispatch w me)
  then show ?case by (intro idle_invariant)
next
  case (Yield w me)
  then show ?case by (intro idle_invariant)
next
  case (Join w me target)
  then show ?case by (intro idle_invariant)
next
  case (Sleep w me ms)
  then show ?case by (intro idle_invariant)
next
  case (Finish w me t)
  then show ?case by (simp add: invariant_def inv_idle_def lwt_thread_self_def)
next
  case (Start w schedp create_ok)
  then show ?case by (intro start_invariant)
next
  case (StopFlag w)
  then show ?case by (intro idle_invariant)
qed

lemma reachable_invariant: "reachable w \<Longrightarrow> invariant w"
  by (induction rule: reachable.induct) (auto intro: created_invariant step_invariant)

text \<open>
  No run of the program ever makes a thread current: the loop of
  \<open>lwt_worker_function\<close> never gets past its test of the local \<open>scheduler\<close>.
\<close>

lemma no_task_is_ever_current:
  assumes "reachable w"
  shows "lwt_thread_self w me = None" "ctl w me \<noteq> AtTask" "\<not> runs_task w me t"
  using reachable_invariant[OF assms]
  by (simp_all add: invariant_def inv_idle_def lwt_thread_self_def runs_task_def)

text \<open>
  Nor does a worker ever leave its loop, so that \<open>lwt_scheduler_stop\<close> on a scheduler
  whose first worker has been created stays blocked in its first \<open>pthread_join\<close>.
\<close>

lemma no_worker_ever_exits: "reachable w \<Longrightarrow> ctl w me \<noteq> Exited"
  using reachable_invariant[of w] by (simp add: invariant_def inv_idle_def)

lemma stop_blocks_on_a_running_worker:
  assumes "running_flag (sched w) \<noteq> 0" "0 < num_workers (sched w)"
    "WorkerThread 0 \<in> live w" "ctl w (Worker 0) \<noteq> Exited" "\<not> hung w"
  shows "hung (lwt_scheduler_stop (Some ()) w)"
proof -
  let ?w = "lwt_scheduler_stop_flag w"
  have n: "num_workers (sched ?w) = num_workers (sched w)" by (simp add: stop_flag_views)
  from assms(2) have "[0..<nat (num_workers (sched w))] = 0 # [1..<nat (num_workers (sched w))]"
    by (simp add: upt_conv_Cons)
  moreover have "hung (pthread_join_worker 0 ?w)"
    using assms(3,4,5)
    by (simp add: pthread_join_worker_def lwt_scheduler_stop_flag_def prim_defs)
  ultimately show ?thesis
    using assms(1) by (simp add: lwt_scheduler_stop_def Let_def n fold_join_hung)
qed

section \<open>Effects and traces of the operations\<close>

lemmas op_defs = tls_defs Let_def prim_defs ready_push_def ready_pop_def swap_to_main_def
  swap_to_thread_def split_beta LWT_MAX_WORKERS_def

lemma push_header:
  "tail (snd (lwt_queue_push_locked h q t)) = Some t"
  "count (snd (lwt_queue_push_locked h q t)) = count q + 1"
  by (simp_all add: lwt_queue_push_locked_def Let_def split: option.splits)

lemma yield_effect:
  assumes "current_thread w me = Some t" "valid_worker_id w me" "num_workers (sched w) \<le> 64"
    "state_of w t \<noteq> LWT_STATE_FINISHED"
  shows "trace (lwt_yield me w) = trace w @
      [(EvLock, True), (EvSetState t LWT_STATE_READY, True), (EvPush t, True),
       (EvSetRunning (current_worker_id w me) None, True), (EvSignal, True),
       (EvUnlock, False), (EvSwapToMain t (current_worker_id w me), False)]"
    "tail (ready_queue (sched (lwt_yield me w))) = Some t"
    "count (ready_queue (sched (lwt_yield me w))) = count (ready_queue (sched w)) + 1"
    "running (sched (lwt_yield me w)) = (running (sched w))[nat (current_worker_id w me) := None]"
    "mutex_held (lwt_yield me w) = False"
  using assms
  by (simp_all add: lwt_yield_def op_defs state_of_def push_header)

lemma yield_finished_effect:
  assumes "current_thread w me = Some t" "state_of w t = LWT_STATE_FINISHED"
  shows "heap (lwt_yield me w) = heap w"
    "ready_queue (sched (lwt_yield me w)) = ready_queue (sched w)"
  using assms
  by (simp_all add: lwt_yield_def op_defs state_of_def)

lemma yield_outside: "lwt_thread_self w me = None \<Longrightarrow> lwt_yield me w = w"
  by (simp add: lwt_yield_def)

lemma join_finished_effect:
  assumes "current_thread w me = Some self" "valid_worker_id w me"
    "state_of w x = LWT_STATE_FINISHED"
  shows "lwt_join me (Some x) w
           = w\<lparr>mutex_held := False, trace := trace w @ [(EvLock, True), (EvUnlock, False)]\<rparr>"
  using assms by (simp add: lwt_join_def op_defs state_of_def)

lemma join_effect:
  assumes "current_thread w me = Some self" "valid_worker_id w me" "num_workers (sched w) \<le> 64"
    "state_of w x \<noteq> LWT_STATE_FINISHED"
  shows "trace (lwt_join me (Some x) w) = trace w @
      [(EvLock, True), (EvSetState self LWT_STATE_BLOCKED, True),
       (EvSetWaiting x (Some self), True),
       (EvSetRunning (current_worker_id w me) None, True),
       (EvUnlock, False), (EvSwapToMain self (current_worker_id w me), False)]"
    "ready_queue (sched (lwt_join me (Some x) w)) = ready_queue (sched w)"
    "\<And>y. next_thr (heap (lwt_join me (Some x) w) y) = next_thr (heap w y)"
    "running (sched (lwt_join me (Some x) w)) = (running (sched w))[nat (current_worker_id w me) := None]"
    "mutex_held (lwt_join me (Some x) w) = False"
  using assms
  by (simp_all add: lwt_join_def op_defs state_of_def)

lemma finish_effect_none:
  assumes "waiting_of w t = None"
  shows "trace (lwt_thread_finish t w) = trace w @
      [(EvLock, True), (EvSetState t LWT_STATE_FINISHED, True), (EvUnlock, False)]"
    "ready_queue (sched (lwt_thread_finish t w)) = ready_queue (sched w)"
  using assms
  by (simp_all add: lwt_thread_finish_def op_defs waiting_of_def)

lemma finish_effect_some:
  assumes "waiting_of w t = Some j"
  shows "trace (lwt_thread_finish t w) = trace w @
      [(EvLock, True), (EvSetState t LWT_STATE_FINISHED, True),
       (EvSetState j LWT_STATE_READY, True), (EvPush j, True),
       (EvSetWaiting t None, True), (EvSignal, True), (EvUnlock, False)]"
    "tail (ready_queue (sched (lwt_thread_finish t w))) = Some j"
    "count (ready_queue (sched (lwt_thread_finish t w))) = count (ready_queue (sched w)) + 1"
  using assms
  by (simp_all add: lwt_thread_finish_def op_defs waiting_of_def push_header)

lemma ms_split: "(m::nat) * 1000000 = (m div 1000) * 1000000000 + (m mod 1000) * 1000000"
proof -
  have "m * 1000000 = ((m div 1000) * 1000 + m mod 1000) * 1000000" by simp
  also have "\<dots> = (m div 1000) * 1000000000 + (m mod 1000) * 1000000"
    by (simp only: distrib_right mult.assoc)
  finally show ?thesis .
qed

lemma wake_arith:
  fixes a s q r :: nat
  shows "(if 1000000000 \<le> a + r then (s + q + 1) * 1000000000 + (a + r - 1000000000)
          else (s + q) * 1000000000 + (a + r))
         = s * 1000000000 + a + (q * 1000000000 + r)"
  by (simp add: distrib_right)

lemma carry_bound: "(a::nat) < k \<Longrightarrow> r < k \<Longrightarrow> a + r - k < k"
  by arith

lemma wake_time_sum:
  assumes "snd now < 1000000000"
  shows "fst (wake_time now ms) * 1000000000 + snd (wake_time now ms)
           = fst now * 1000000000 + snd now + unat ms * 1000000 \<and>
         snd (wake_time now ms) < 1000000000"
proof -
  define q where "q = unat ms div 1000"
  define r where "r = (unat ms mod 1000) * 1000000"
  have d: "unat (ms div 1000) = q" by (simp add: unat_div q_def)
  have m: "unat (ms mod 1000) = unat ms mod 1000" by (simp add: unat_mod)
  have "unat (ms mod 1000) * 1000000 < 2 ^ 32" using m by simp
  then have p: "unat ((ms mod 1000) * 1000000) = r"
    using m by (simp add: unat_mult_lem[THEN iffD1] r_def)
  have rl: "r < 1000000000" by (simp add: r_def)
  have e: "unat ms * 1000000 = q * 1000000000 + r"
    unfolding q_def r_def by (rule ms_split)
  have w: "wake_time now ms =
      (if 1000000000 \<le> snd now + r then (fst now + q + 1, snd now + r - 1000000000)
       else (fst now + q, snd now + r))"
    by (simp add: wake_time_def Let_def d p)
  have 1: "fst (wake_time now ms) * 1000000000 + snd (wake_time now ms)
           = fst now * 1000000000 + snd now + unat ms * 1000000"
    using wake_arith[of "snd now" r "fst now" q] by (simp add: w e)
  have 2: "snd (wake_time now ms) < 1000000000"
    using assms rl carry_bound[of "snd now" 1000000000 r] by (simp add: w)
  from 1 2 show ?thesis by simp
qed


lemma ms_timespec:
  "unat (ms div 1000) * 1000000000 + unat (((ms :: 32 word) mod 1000) * 1000000)
     = unat ms * 1000000"
  "unat (((ms :: 32 word) mod 1000) * 1000000) < 1000000000"
proof -
  have m: "unat (ms mod 1000) = unat ms mod 1000" by (simp add: unat_mod)
  have "unat (ms mod 1000) * 1000000 < 2 ^ 32" using m by simp
  then have p: "unat ((ms mod 1000) * 1000000) = (unat ms mod 1000) * 1000000"
    using m by (simp add: unat_mult_lem[THEN iffD1])
  show "unat (((ms :: 32 word) mod 1000) * 1000000) < 1000000000" by (simp add: p)
  show "unat (ms div 1000) * 1000000000 + unat (((ms :: 32 word) mod 1000) * 1000000)
     = unat ms * 1000000"
    using ms_split[of "unat ms"] by (simp add: p unat_div)
qed

lemma clock_gettime_ok:
  "snd (clock_gettime w) < 1000000000"
  "fst (clock_gettime w) * 1000000000 + snd (clock_gettime w) = clock w"
  by (simp_all add: clock_gettime_def)

lemma wake_time_clock:
  "ns_of (wake_time (clock_gettime w) ms) = clock w + unat ms * 1000000"
  "snd (wake_time (clock_gettime w) ms) < 1000000000"
  using wake_time_sum[OF clock_gettime_ok(1), of w ms] clock_gettime_ok(2)[of w]
  by (simp_all add: ns_of_def)

lemma nanosleep_effect:
  "snd ts < 1000000000 \<Longrightarrow>
   nanosleep ts w = w\<lparr>trace := trace w @ [(EvNanosleep (fst ts) (snd ts), mutex_held w)],
                     clock := clock w + ns_of ts\<rparr>"
  by (simp add: nanosleep_def emit_def Let_def)

lemma sleep_outside:
  assumes "lwt_thread_self w me = None"
  shows "lwt_sleep me ms w
     = w\<lparr>trace := trace w @
            [(EvNanosleep (unat (ms div 1000)) (unat ((ms mod 1000) * 1000000)), mutex_held w)],
         clock := clock w + unat ms * 1000000\<rparr>"
proof -
  have "lwt_sleep me ms w = nanosleep (unat (ms div 1000), unat ((ms mod 1000) * 1000000)) w"
    using assms by (simp add: lwt_sleep_def)
  also have "\<dots> = w\<lparr>trace := trace w @
            [(EvNanosleep (unat (ms div 1000)) (unat ((ms mod 1000) * 1000000)), mutex_held w)],
         clock := clock w + unat ms * 1000000\<rparr>"
    using ms_timespec[of ms] by (simp add: nanosleep_effect ns_of_def)
  finally show ?thesis .
qed

lemma sleep_effect:
  assumes "current_thread w me = Some t" "valid_worker_id w me" "num_workers (sched w) \<le> 64"
  shows "trace (lwt_sleep me ms w) = trace w @
      [(EvLock, True), (EvSetState t LWT_STATE_BLOCKED, True),
       (EvSetRunning (current_worker_id w me) None, True), (EvUnlock, False),
       (EvNanosleep (fst (wake_time (clock_gettime w) ms))
                    (snd (wake_time (clock_gettime w) ms)), False),
       (EvLock, True), (EvSetState t LWT_STATE_READY, True), (EvPush t, True),
       (EvSignal, True), (EvUnlock, False),
       (EvSwapToMain t (current_worker_id w me), False)]"
    "state_of (lwt_sleep me ms w) t = LWT_STATE_READY"
    "tail (ready_queue (sched (lwt_sleep me ms w))) = Some t"
    "count (ready_queue (sched (lwt_sleep me ms w))) = count (ready_queue (sched w)) + 1"
    "running (sched (lwt_sleep me ms w)) = (running (sched w))[nat (current_worker_id w me) := None]"
    "ctl (lwt_sleep me ms w) me = AtLoop"
    "mutex_held (lwt_sleep me ms w) = False"
    "clock (lwt_sleep me ms w) = clock w + ns_of (wake_time (clock_gettime w) ms)"
proof -
  define wt where "wt = wake_time (clock_gettime w) ms"
  have k: "clock_gettime (pthread_mutex_lock w) = clock_gettime w"
    by (simp add: clock_gettime_def pthread_mutex_lock_def emit_def)
  have n: "snd wt < 1000000000" unfolding wt_def by (rule wake_time_clock(2))
  have e: "lwt_sleep me ms w =
     swap_to_main me t (current_worker_id w me)
       (pthread_mutex_unlock (pthread_cond_signal (ready_push t (set_state t LWT_STATE_READY
          (pthread_mutex_lock (nanosleep wt
             (pthread_mutex_unlock (set_running (current_worker_id w me) None
                (set_state t LWT_STATE_BLOCKED (pthread_mutex_lock w))))))))))"
    using assms(1,2) by (simp add: lwt_sleep_def tls_defs Let_def wt_def)
  show "trace (lwt_sleep me ms w) = trace w @
      [(EvLock, True), (EvSetState t LWT_STATE_BLOCKED, True),
       (EvSetRunning (current_worker_id w me) None, True), (EvUnlock, False),
       (EvNanosleep (fst (wake_time (clock_gettime w) ms))
                    (snd (wake_time (clock_gettime w) ms)), False),
       (EvLock, True), (EvSetState t LWT_STATE_READY, True), (EvPush t, True),
       (EvSignal, True), (EvUnlock, False),
       (EvSwapToMain t (current_worker_id w me), False)]"
    "state_of (lwt_sleep me ms w) t = LWT_STATE_READY"
    "tail (ready_queue (sched (lwt_sleep me ms w))) = Some t"
    "count (ready_queue (sched (lwt_sleep me ms w))) = count (ready_queue (sched w)) + 1"
    "running (sched (lwt_sleep me ms w)) = (running (sched w))[nat (current_worker_id w me) := None]"
    "ctl (lwt_sleep me ms w) me = AtLoop"
    "mutex_held (lwt_sleep me ms w) = False"
    "clock (lwt_sleep me ms w) = clock w + ns_of (wake_time (clock_gettime w) ms)"
    unfolding e wt_def[symmetric] using assms(2,3) n
    by (simp_all add: op_defs nanosleep_effect state_of_def push_header push_fields)
qed

lemma yield_finished_trace:
  assumes "current_thread w me = Some t" "valid_worker_id w me" "num_workers (sched w) \<le> 64"
    "state_of w t = LWT_STATE_FINISHED"
  shows "trace (lwt_yield me w) = trace w @
      [(EvLock, True), (EvSetRunning (current_worker_id w me) None, True), (EvSignal, True),
       (EvUnlock, False), (EvSwapToMain t (current_worker_id w me), False)]"
  using assms by (simp add: lwt_yield_def op_defs state_of_def)

lemma finish_frame:
  "current_thread (lwt_thread_finish t w) = current_thread w"
  "current_worker_id (lwt_thread_finish t w) = current_worker_id w"
  "num_workers (sched (lwt_thread_finish t w)) = num_workers (sched w)"
  "ctl (lwt_thread_finish t w) = ctl w"
  "waiting_of (lwt_thread_finish t w) t = None"
  "state_of (lwt_thread_finish t w) =
     (case waiting_of w t of
        None \<Rightarrow> (state_of w)(t := LWT_STATE_FINISHED)
      | Some j \<Rightarrow> (state_of w)(t := LWT_STATE_FINISHED, j := LWT_STATE_READY))"
  by (simp_all add: lwt_thread_finish_def Let_def to_views split: option.splits)
section \<open>The sample worlds\<close>

lemma flag_views:
  "running_flag (sched (snd (lwt_create schedp fn x mt mstack gok w))) = running_flag (sched w)"
  "schedp \<noteq> None \<Longrightarrow> running_flag (sched w) = 0 \<Longrightarrow>
     running_flag (sched (lwt_scheduler_start schedp ok w)) = 1"
  "running_flag (sched (lwt_join me target w)) = running_flag (sched w)"
    apply (simp add: lwt_create_def lwt_thread_init_def lwt_scheduler_add_thread_def
      lwt_queue_push_def lwt_thread_cleanup_def op_defs split: option.splits prod.splits sum.splits)
   apply (simp add: lwt_scheduler_start_def Let_def create_workers_frame)
  apply (simp add: lwt_join_def op_defs split: option.splits)
  done

lemma clock_views:
  "clock (snd (lwt_create schedp fn x mt mstack gok w)) = clock w"
  "clock (lwt_scheduler_start schedp ok w) = clock w"
  "clock (lwt_worker_dispatch me i w) = clock w"
  "clock (lwt_join me target w) = clock w"
  "clock (lwt_yield me w) = clock w"
  "clock (lwt_thread_finish t w) = clock w"
proof -
  show "clock (snd (lwt_create schedp fn x mt mstack gok w)) = clock w"
    by (simp add: lwt_create_def lwt_thread_init_def lwt_scheduler_add_thread_def
      lwt_queue_push_def lwt_thread_cleanup_def op_defs split: option.splits prod.splits sum.splits)
  have "clock (fold (\<lambda>i. pthread_create_worker i (ok i)) [0..<n] w') = clock w'" for n w'
    by (induction n)
       (simp_all add: pthread_create_worker_def Let_def acquire_def lwt_scheduler_set_worker_id_def)
  then show "clock (lwt_scheduler_start schedp ok w) = clock w"
    by (simp add: lwt_scheduler_start_def Let_def op_defs)
  show "clock (lwt_worker_dispatch me i w) = clock w"
    by (simp add: lwt_worker_dispatch_def op_defs lwt_thread_set_current_def
          split: option.splits)
  show "clock (lwt_join me target w) = clock w"
    by (simp add: lwt_join_def op_defs split: option.splits)
  show "clock (lwt_yield me w) = clock w"
    by (simp add: lwt_yield_def op_defs split: option.splits)
  show "clock (lwt_thread_finish t w) = clock w"
    by (simp add: lwt_thread_finish_def op_defs split: option.splits)
qed

lemma start_stack_live:
  "(StackMem b \<in> live (lwt_scheduler_start schedp ok w)) = (StackMem b \<in> live w)"
proof -
  have "(StackMem b \<in> live (fold (\<lambda>i. pthread_create_worker i (ok i)) [0..<n] w'))
          = (StackMem b \<in> live w')" for n w'
    by (induction n)
       (simp_all add: pthread_create_worker_def Let_def acquire_def lwt_scheduler_set_worker_id_def)
  then show ?thesis by (simp add: lwt_scheduler_start_def Let_def op_defs)
qed

lemma create_stack_live:
  "(StackMem c \<in> live (snd (lwt_create (Some u) (Some f) x (Some a) (Some b) True w)))
     = (c = b \<or> StackMem c \<in> live w)"
  by (simp add: lwt_create_def lwt_thread_init_def lwt_scheduler_add_thread_def
        lwt_queue_push_def op_defs)

lemma boot_heap: "boot\<lparr>heap := heap_zero, clock := c\<rparr> = boot\<lparr>clock := c\<rparr>"
  by (simp add: boot_def)

lemma world_created_facts:
  "reachable world_created"
  "ctl world_created = (\<lambda>_. Outside)"
  "current_thread world_created = (\<lambda>_. None)"
  "running_flag (sched world_created) = 0"
  "num_workers (sched world_created) = 3"
  "worker_ids (sched world_created) ! 0 = 0"
  "worker_ids (sched world_created) ! 2 = 2"
  "on_ready_queue world_created []"
  "\<And>t. is_task world_created t = False"
  "StackMem b \<notin> live world_created"
  "clock world_created = 1700000000250000000"
proof -
  let ?b = "boot\<lparr>clock := 1700000000250000000\<rparr>"
  have e: "lwt_scheduler_create 3 True True True True ?b = (Inr (), world_created)"
    using create_succeeds[of 3 ?b] by (simp add: world_created_def)
  then have "lwt_scheduler_create 3 True True True True
       (boot\<lparr>heap := heap_zero, clock := 1700000000250000000\<rparr>) = (Inr (), world_created)"
    by (simp add: boot_heap)
  then show "reachable world_created" by (rule reachable.Created)
  have w: "world_created = ?b\<lparr>sched := scheduler_zero\<lparr>num_workers := 3, running_flag := 0,
        next_thread_id := 1, ready_queue := queue_zero,
        worker_ids := fill_worker_ids 0 (nat 3) (replicate 64 0)\<rparr>,
      live := {SchedCond, SchedMutex, QueueMutex, SchedMem}\<rparr>"
    using create_succeeds[of 3 ?b] by (simp add: world_created_def boot_def)
  show "ctl world_created = (\<lambda>_. Outside)" "current_thread world_created = (\<lambda>_. None)"
    "running_flag (sched world_created) = 0" "num_workers (sched world_created) = 3"
    "\<And>t. is_task world_created t = False" "StackMem b \<notin> live world_created"
    "clock world_created = 1700000000250000000"
    by (simp_all add: w boot_def is_task_def)
  show "worker_ids (sched world_created) ! 0 = 0" "worker_ids (sched world_created) ! 2 = 2"
    by (simp_all add: w nth_fill_worker_ids)
  show "on_ready_queue world_created []"
    by (simp add: w on_ready_queue_def is_queue_zero)
qed

lemma world_started_facts:
  "reachable world_started"
  "ctl world_started (Worker 0) = AtLoop"
  "ctl world_started (Worker 2) = AtLoop"
  "current_worker_id world_started (Worker 0) = 0"
  "current_worker_id world_started (Worker 2) = 2"
  "running_flag (sched world_started) = 1"
  "on_ready_queue world_started []"
  "\<And>t. is_task world_started t = False"
  "StackMem b \<notin> live world_started"
  "num_workers (sched world_started) = 3"
proof -
  note C = world_created_facts
  have "step world_created (lwt_scheduler_start (Some ()) (\<lambda>i. True) world_created)"
    by (rule step.Start)
  with C(1) show "reachable world_started"
    unfolding world_started_def by (rule reachable.Stepped)
  have p: "Some () \<noteq> (None :: sptr)" by simp
  note V = start_views[OF p C(4), of "\<lambda>i. True"]
  show "ctl world_started (Worker 0) = AtLoop" "ctl world_started (Worker 2) = AtLoop"
    "current_worker_id world_started (Worker 0) = 0"
    "current_worker_id world_started (Worker 2) = 2"
    "on_ready_queue world_started []" "\<And>t. is_task world_started t = False"
    "num_workers (sched world_started) = 3"
    by (simp_all add: world_started_def V C)
  show "running_flag (sched world_started) = 1"
    by (simp add: world_started_def flag_views C)
  show "StackMem b \<notin> live world_started"
    by (simp add: world_started_def start_stack_live C)
qed

lemma world_started_current: "current_thread world_started = (\<lambda>_. None)"
proof -
  have p: "Some () \<noteq> (None :: sptr)" by simp
  note V = start_views[OF p world_created_facts(4), of "\<lambda>i. True"]
  show ?thesis
    by (simp add: world_started_def V world_created_facts fun_eq_iff split: os_thread.splits)
qed

lemma world_one_task_facts:
  "reachable world_one_task"
  "ctl world_one_task = ctl world_started"
  "current_worker_id world_one_task = current_worker_id world_started"
  "current_thread world_one_task = (\<lambda>_. None)"
  "running_flag (sched world_one_task) = 1"
  "on_ready_queue world_one_task [3]"
  "\<And>t. is_task world_one_task t = (t = 3)"
  "state_of world_one_task 3 = LWT_STATE_READY"
  "StackMem 14 \<notin> live world_one_task"
  "num_workers (sched world_one_task) = 3"
  "waiting_of world_one_task 3 = None"
proof -
  note S = world_started_facts
  have na: "ThreadMem 3 \<notin> live world_started"
    using S(8)[of 3] unfolding is_task_def by simp
  have "step world_started
     (snd (lwt_create (Some ()) (Some 0) 0 (Some 3) (Some 13) True world_started))"
    by (rule step.Spawn) (simp_all add: na S)
  with S(1) show "reachable world_one_task"
    unfolding world_one_task_def by (rule reachable.Stepped)
  have n: "(3::nat) \<notin> set []" by simp
  note V = create_views[where x=0 and b=13 and f=0 and u="()", OF refl refl na S(7) n]
  show "ctl world_one_task = ctl world_started"
    "current_worker_id world_one_task = current_worker_id world_started"
    "current_thread world_one_task = (\<lambda>_. None)"
    "\<And>t. is_task world_one_task t = (t = 3)"
    "state_of world_one_task 3 = LWT_STATE_READY"
    "num_workers (sched world_one_task) = 3"
    "waiting_of world_one_task 3 = None"
    unfolding world_one_task_def using V by (simp_all add: S world_started_current)
  show "on_ready_queue world_one_task [3]" unfolding world_one_task_def using V(5) by simp
  show "running_flag (sched world_one_task) = 1"
    by (simp add: world_one_task_def flag_views S)
  show "StackMem 14 \<notin> live world_one_task"
    by (simp add: world_one_task_def create_stack_live S)
qed

lemma world_two_tasks_facts:
  "reachable world_two_tasks"
  "ctl world_two_tasks = ctl world_started"
  "current_worker_id world_two_tasks = current_worker_id world_started"
  "current_thread world_two_tasks = (\<lambda>_. None)"
  "running_flag (sched world_two_tasks) = 1"
  "on_ready_queue world_two_tasks [3, 4]"
  "\<And>t. is_task world_two_tasks t = (t = 3 \<or> t = 4)"
  "state_of world_two_tasks 3 = LWT_STATE_READY"
  "state_of world_two_tasks 4 = LWT_STATE_READY"
  "num_workers (sched world_two_tasks) = 3"
  "waiting_of world_two_tasks 3 = None"
proof -
  note S = world_one_task_facts
  have na: "ThreadMem 4 \<notin> live world_one_task"
    using S(7)[of 4] unfolding is_task_def by simp
  have "step world_one_task
     (snd (lwt_create (Some ()) (Some 0) 0 (Some 4) (Some 14) True world_one_task))"
    by (rule step.Spawn) (simp_all add: na S)
  with S(1) show "reachable world_two_tasks"
    unfolding world_two_tasks_def by (rule reachable.Stepped)
  have n: "(4::nat) \<notin> set [3]" by simp
  note V = create_views[where x=0 and b=14 and f=0 and u="()", OF refl refl na S(6) n]
  show "ctl world_two_tasks = ctl world_started"
    "current_worker_id world_two_tasks = current_worker_id world_started"
    "current_thread world_two_tasks = (\<lambda>_. None)"
    "\<And>t. is_task world_two_tasks t = (t = 3 \<or> t = 4)"
    "state_of world_two_tasks 3 = LWT_STATE_READY"
    "state_of world_two_tasks 4 = LWT_STATE_READY"
    "num_workers (sched world_two_tasks) = 3"
    "waiting_of world_two_tasks 3 = None"
    unfolding world_two_tasks_def using V by (auto simp add: S)
  show "on_ready_queue world_two_tasks [3, 4]" unfolding world_two_tasks_def using V(5) by simp
  show "running_flag (sched world_two_tasks) = 1"
    by (simp add: world_two_tasks_def flag_views S)
qed

text \<open>
  \<open>lwt_scheduler_stop\<close> after \<open>lwt_scheduler_start\<close>: the call clears the flag and then
  waits for worker 0, which never leaves its loop.
\<close>

lemma start_ledger:
  "hung (lwt_scheduler_start schedp ok w) = hung w"
  "schedp \<noteq> None \<Longrightarrow> running_flag (sched w) = 0 \<Longrightarrow>
   (WorkerThread i \<in> live (lwt_scheduler_start schedp ok w))
     = (i < nat (num_workers (sched w)) \<and> ok i \<or> WorkerThread i \<in> live w)"
proof -
  have h: "hung (fold (\<lambda>i. pthread_create_worker i (ok i)) [0..<n] w') = hung w'" for n w'
    by (induction n)
       (simp_all add: pthread_create_worker_def Let_def acquire_def lwt_scheduler_set_worker_id_def)
  have l: "(WorkerThread i \<in> live (fold (\<lambda>i. pthread_create_worker i (ok i)) [0..<n] w'))
          = (i < n \<and> ok i \<or> WorkerThread i \<in> live w')" for n w'
    by (induction n)
       (auto simp add: pthread_create_worker_def Let_def acquire_def lwt_scheduler_set_worker_id_def
          less_Suc_eq)
  show "hung (lwt_scheduler_start schedp ok w) = hung w"
    by (simp add: lwt_scheduler_start_def Let_def h op_defs)
  show "schedp \<noteq> None \<Longrightarrow> running_flag (sched w) = 0 \<Longrightarrow>
   (WorkerThread i \<in> live (lwt_scheduler_start schedp ok w))
     = (i < nat (num_workers (sched w)) \<and> ok i \<or> WorkerThread i \<in> live w)"
    by (simp add: lwt_scheduler_start_def Let_def l op_defs)
qed

lemma stop_after_start_never_returns: "hung (lwt_scheduler_stop (Some ()) world_started)"
proof (rule stop_blocks_on_a_running_worker)
  note C = world_created_facts and S = world_started_facts
  show "running_flag (sched world_started) \<noteq> 0" by (simp add: S)
  show "0 < num_workers (sched world_started)" by (simp add: S)
  show "ctl world_started (Worker 0) \<noteq> Exited" by (simp add: S)
  have p: "Some () \<noteq> (None :: sptr)" by simp
  show "WorkerThread 0 \<in> live world_started"
    unfolding world_started_def by (simp add: start_ledger(2)[OF p C(4)] C)
  have "hung world_created = False"
    using create_succeeds[of 3 "boot\<lparr>clock := 1700000000250000000\<rparr>"]
    by (simp add: world_created_def boot_def)
  then show "\<not> hung world_started" by (simp add: world_started_def start_ledger(1))
qed

text \<open>The calling contexts inside a task\<close>

lemma world_first_running_facts:
  "ctl world_first_running (Worker 0) = AtTask"
  "ctl world_first_running (Worker 2) = AtLoop"
  "current_worker_id world_first_running = current_worker_id world_started"
  "current_thread world_first_running (Worker 0) = Some 3"
  "running_flag (sched world_first_running) = 1"
  "on_ready_queue world_first_running [4]"
  "\<And>t. is_task world_first_running t = (t = 3 \<or> t = 4)"
  "state_of world_first_running 3 = LWT_STATE_RUNNING"
  "state_of world_first_running 4 = LWT_STATE_READY"
  "num_workers (sched world_first_running) = 3"
  "current_thread world_first_running (App k) = None"
  "waiting_of world_first_running 3 = None"
proof -
  note S = world_two_tasks_facts and T = world_started_facts
  have f: "running_flag (sched world_two_tasks) \<noteq> 0" by (simp add: S)
  note V = dispatch_run_views[where me="Worker 0" and i=0, OF f S(6)]
  show "ctl world_first_running (Worker 0) = AtTask"
    "ctl world_first_running (Worker 2) = AtLoop"
    "current_worker_id world_first_running = current_worker_id world_started"
    "current_thread world_first_running (Worker 0) = Some 3"
    "\<And>t. is_task world_first_running t = (t = 3 \<or> t = 4)"
    "state_of world_first_running 3 = LWT_STATE_RUNNING"
    "state_of world_first_running 4 = LWT_STATE_READY"
    "running_flag (sched world_first_running) = 1"
    "num_workers (sched world_first_running) = 3"
    "current_thread world_first_running (App k) = None"
    "waiting_of world_first_running 3 = None"
    unfolding world_first_running_def using V by (simp_all add: S T)
  show "on_ready_queue world_first_running [4]" unfolding world_first_running_def using V(4) .
qed

lemma world_running_facts:
  "ctl world_running (Worker 0) = AtTask"
  "ctl world_running (Worker 2) = AtTask"
  "current_worker_id world_running (Worker 0) = 0"
  "current_worker_id world_running (Worker 2) = 2"
  "current_thread world_running (Worker 0) = Some 3"
  "current_thread world_running (Worker 2) = Some 4"
  "on_ready_queue world_running []"
  "\<And>t. is_task world_running t = (t = 3 \<or> t = 4)"
  "state_of world_running 3 = LWT_STATE_RUNNING"
  "state_of world_running 4 = LWT_STATE_RUNNING"
  "num_workers (sched world_running) = 3"
  "current_thread world_running (App k) = None"
  "clock world_running = 1700000000250000000"
  "runs_task world_running (Worker 0) 3"
  "runs_task world_running (Worker 2) 4"
  "waiting_of world_running 3 = None"
proof -
  note S = world_first_running_facts and T = world_started_facts
  have f: "running_flag (sched world_first_running) \<noteq> 0" by (simp add: S)
  note V = dispatch_run_views[where me="Worker 2" and i=2, OF f S(6)]
  show a: "ctl world_running (Worker 0) = AtTask"
    "ctl world_running (Worker 2) = AtTask"
    "current_worker_id world_running (Worker 0) = 0"
    "current_worker_id world_running (Worker 2) = 2"
    "current_thread world_running (Worker 0) = Some 3"
    "current_thread world_running (Worker 2) = Some 4"
    "\<And>t. is_task world_running t = (t = 3 \<or> t = 4)"
    "state_of world_running 3 = LWT_STATE_RUNNING"
    "state_of world_running 4 = LWT_STATE_RUNNING"
    "num_workers (sched world_running) = 3"
    "current_thread world_running (App k) = None"
    "waiting_of world_running 3 = None"
    unfolding world_running_def using V by (simp_all add: S T)
  show "on_ready_queue world_running []" unfolding world_running_def using V(4) .
  show "clock world_running = 1700000000250000000"
    by (simp add: world_running_def world_first_running_def world_two_tasks_def
          world_one_task_def world_started_def clock_views world_created_facts)
  from a show "runs_task world_running (Worker 0) 3" "runs_task world_running (Worker 2) 4"
    by (simp_all add: runs_task_def tls_defs LWT_MAX_WORKERS_def)
qed

lemma world_joining_facts:
  "ctl world_joining (Worker 0) = AtTask"
  "current_thread world_joining (Worker 0) = Some 3"
  "state_of world_joining 3 = LWT_STATE_RUNNING"
  "state_of world_joining 4 = LWT_STATE_BLOCKED"
  "waiting_of world_joining 3 = Some 4"
  "on_ready_queue world_joining []"
  "runs_task world_joining (Worker 0) 3"
proof -
  note S = world_running_facts
  have v: "valid_worker_id world_running (Worker 2)"
    by (simp add: valid_worker_id_def S)
  have nf: "state_of world_running 3 \<noteq> LWT_STATE_FINISHED" by (simp add: S)
  have ct: "current_thread world_running (Worker 2) = Some 4" by (simp add: S)
  note V = join_views[OF ct v nf]
  show a: "ctl world_joining (Worker 0) = AtTask"
    "current_thread world_joining (Worker 0) = Some 3"
    "state_of world_joining 3 = LWT_STATE_RUNNING"
    "state_of world_joining 4 = LWT_STATE_BLOCKED"
    "waiting_of world_joining 3 = Some 4"
    "on_ready_queue world_joining []"
    unfolding world_joining_def by (simp_all add: V S)
  show "runs_task world_joining (Worker 0) 3"
    using a(2) S(3,11)
    by (simp add: runs_task_def tls_defs LWT_MAX_WORKERS_def world_joining_def V)
qed

lemma world_first_finished_facts:
  "state_of world_first_finished 3 = LWT_STATE_FINISHED"
  "state_of world_first_finished 4 = LWT_STATE_RUNNING"
  "runs_task world_first_finished (Worker 2) 4"
  "lwt_thread_self world_first_finished (Worker 0) = Some 3"
proof -
  note S = world_running_facts
  note F = finish_views_none[OF S(16)]
  have v: "valid_worker_id (lwt_thread_finish 3 world_running) (Worker 0)"
    by (simp add: valid_worker_id_def F S)
  have c: "current_thread (lwt_thread_finish 3 world_running) (Worker 0) = Some 3"
    by (simp add: F S)
  have f: "state_of (lwt_thread_finish 3 world_running) 3 = LWT_STATE_FINISHED" by (simp add: F)
  note Y = yield_finished_views[OF c v f]
  show "state_of world_first_finished 3 = LWT_STATE_FINISHED"
    "state_of world_first_finished 4 = LWT_STATE_RUNNING"
    "runs_task world_first_finished (Worker 2) 4"
    "lwt_thread_self world_first_finished (Worker 0) = Some 3"
    by (simp_all add: world_first_finished_def lwt_thread_start_return_def Y F S
          runs_task_def tls_defs LWT_MAX_WORKERS_def)
qed
section \<open>The ready queue: FIFO order and count\<close>

text \<open>
  C5 (as amended). The ready queue is FIFO. In every queue state a push makes the
  pushed task the tail and a pop returns the head, NULL when the queue is empty (which
  it then leaves unchanged). On a queue that holds \<open>xs\<close>, a pop removes the head, a push
  of a task that is not in the queue appends it, and after the pushes of pairwise
  different tasks \<open>ts\<close>, none of them in the queue, the pops return \<open>xs\<close> and then \<open>ts\<close>
  in the order pushed, and NULL from then on. (\<open>is_queue\<close> speaks of the links and the
  tail pointer; the count field is the subject of C10.)
\<close>

theorem queue_is_fifo:
  "tail (snd (lwt_queue_push_locked h q t)) = Some t \<and>
   fst (lwt_queue_pop_locked h q) = head q \<and>
   (head q = None \<longrightarrow> lwt_queue_pop_locked h q = (None, h, q)) \<and>
   (is_queue h q xs \<longrightarrow>
      is_queue (fst (snd (lwt_queue_pop_locked h q))) (snd (snd (lwt_queue_pop_locked h q))) (tl xs) \<and>
      (t \<notin> set xs \<longrightarrow>
         is_queue (fst (lwt_queue_push_locked h q t)) (snd (lwt_queue_push_locked h q t)) (xs @ [t])) \<and>
      (distinct ts \<and> set ts \<inter> set xs = {} \<longrightarrow>
         pop_n (run_qops (h, q) (map Push ts)) (length (xs @ ts) + k)
           = map Some (xs @ ts) @ replicate k None))"
proof -
  have a: "tail (snd (lwt_queue_push_locked h q t)) = Some t"
    by (simp add: lwt_queue_push_locked_def Let_def split: option.splits)
  have b: "fst (lwt_queue_pop_locked h q) = head q"
    by (simp add: lwt_queue_pop_locked_def Let_def split: option.splits)
  have c: "head q = None \<longrightarrow> lwt_queue_pop_locked h q = (None, h, q)"
    by (simp add: lwt_queue_pop_locked_def)
  have d: "pop_n (run_qops (h, q) (map Push ts)) (length (xs @ ts) + k)
             = map Some (xs @ ts) @ replicate k None"
    if q: "is_queue h q xs" and f: "distinct ts \<and> set ts \<inter> set xs = {}"
  proof -
    from f have "fresh_pushes xs (map Push ts)" by (simp add: fresh_pushes_map_Push)
    from run_qops_is_queue[OF q this]
    have "is_queue (fst (run_qops (h, q) (map Push ts))) (snd (run_qops (h, q) (map Push ts))) (xs @ ts)"
      by (simp add: queue_after_map_Push)
    from pop_n_is_queue[OF this, of k] show ?thesis by simp
  qed
  show ?thesis using a b c d pop_is_queue_tl[of h q xs] push_is_queue[of h q xs t] by blast
qed

theorem queue_is_fifo_witness:
  "is_queue heap_zero queue_zero [] \<and> distinct [4, 5, 6 :: nat] \<and>
   pop_n (run_qops (heap_zero, queue_zero) (map Push [4, 5, 6])) 4 = [Some 4, Some 5, Some 6, None]"
proof -
  have q: "is_queue heap_zero queue_zero []" by (simp add: is_queue_def queue_zero_def)
  have d: "distinct [4, 5, 6 :: nat] \<and> set [4, 5, 6 :: nat] \<inter> set [] = {}" by simp
  from queue_is_fifo[of heap_zero queue_zero 0 "[]" "[4, 5, 6]" 1] q d
  show ?thesis by (simp add: numeral_eq_Suc)
qed

text \<open>
  C5 as stated, for any sequence of pushes, does not hold: after the pushes of
  tasks 1, 2, 1 the pops return task 1 and then NULL.
\<close>

theorem queue_fifo_counterexample:
  "pop_n (run_qops (heap_zero, queue_zero) (map Push [1, 2, 1])) 3 = [Some 1, None, None]"
  by (simp add: run_qops_def lwt_queue_push_locked_def lwt_queue_pop_locked_def queue_zero_def
        heap_zero_def Let_def numeral_eq_Suc)

text \<open>
  C10 (as amended). In every queue state a push adds exactly one to the count field
  and a pop of a non-empty queue takes exactly one off, in the arithmetic of C \<open>int\<close>:
  as numbers, when the count is below \<open>INT_MAX\<close>, respectively above \<open>INT_MIN\<close>;
  \<open>lwt_queue_size\<close> returns the count, and \<open>lwt_queue_empty\<close> returns 1 exactly when the
  head is NULL. For every queue state reached from the initial queue by pushes and pops
  in which no push is of a task that is in the queue at that moment, and in which the
  queue never holds more than \<open>INT_MAX\<close> tasks, the count equals the number of tasks
  linked from the head: following the links for \<open>n\<close> steps meets \<open>min n count\<close> tasks;
  so \<open>lwt_queue_empty\<close> returns 1 exactly when the count is 0. (Lemma
  \<open>count_wraps_beyond_INT_MAX\<close> shows what the count reads past that number of tasks.)
\<close>

theorem queue_count_matches_links:
  "count (snd (lwt_queue_push_locked h q t)) = count q + 1 \<and>
   (sint (count q) < INT_MAX \<longrightarrow>
      sint (count (snd (lwt_queue_push_locked h q t))) = sint (count q) + 1) \<and>
   (head q \<noteq> None \<longrightarrow> count (snd (snd (lwt_queue_pop_locked h q))) = count q - 1) \<and>
   (head q \<noteq> None \<and> INT_MIN < sint (count q) \<longrightarrow>
      sint (count (snd (snd (lwt_queue_pop_locked h q)))) = sint (count q) - 1) \<and>
   lwt_queue_size (Some q) = count q \<and>
   (lwt_queue_empty (Some q) = 1 \<longleftrightarrow> head q = None) \<and>
   (fresh_pushes [] ops \<and> within_capacity [] ops \<and>
    run_qops (h0, queue_zero) ops = (h', q') \<longrightarrow>
      is_counted_queue h' q' (queue_after [] ops) \<and>
      sint (count q') = int (length (queue_after [] ops)) \<and>
      (\<forall>n. int (length (chain h' n (head q'))) = min (int n) (sint (count q'))) \<and>
      (lwt_queue_empty (Some q') = 1 \<longleftrightarrow> count q' = 0) \<and>
      (head q' = None \<longleftrightarrow> count q' = 0))"
proof -
  have a: "count (snd (lwt_queue_push_locked h q t)) = count q + 1" by (rule push_count)
  have b: "sint (count q) < INT_MAX \<longrightarrow>
      sint (count (snd (lwt_queue_push_locked h q t))) = sint (count q) + 1"
    by (simp add: push_count sint_add1 INT_MAX_def)
  have c: "head q \<noteq> None \<longrightarrow> count (snd (snd (lwt_queue_pop_locked h q))) = count q - 1"
    by (simp add: pop_count)
  have d: "head q \<noteq> None \<and> INT_MIN < sint (count q) \<longrightarrow>
      sint (count (snd (snd (lwt_queue_pop_locked h q)))) = sint (count q) - 1"
    by (simp add: pop_count sint_sub1 INT_MIN_def)
  have e: "lwt_queue_size (Some q) = count q \<and> (lwt_queue_empty (Some q) = 1 \<longleftrightarrow> head q = None)"
    by (simp add: lwt_queue_size_def lwt_queue_empty_def)
  have f: "is_counted_queue h' q' (queue_after [] ops) \<and>
      sint (count q') = int (length (queue_after [] ops)) \<and>
      (\<forall>n. int (length (chain h' n (head q'))) = min (int n) (sint (count q'))) \<and>
      (lwt_queue_empty (Some q') = 1 \<longleftrightarrow> count q' = 0) \<and>
      (head q' = None \<longleftrightarrow> count q' = 0)"
    if r: "fresh_pushes [] ops \<and> within_capacity [] ops \<and>
           run_qops (h0, queue_zero) ops = (h', q')"
  proof -
    from r run_qops_is_counted_queue[OF is_counted_queue_zero, of ops h0]
    have q: "is_counted_queue h' q' (queue_after [] ops)" by simp
    then have ch: "is_chain h' (head q') (queue_after [] ops)"
      and cnt: "sint (count q') = int (length (queue_after [] ops))"
      by (simp_all add: is_counted_queue_def is_queue_def)
    have l: "\<forall>n. int (length (chain h' n (head q'))) = min (int n) (sint (count q'))"
      using chain_is_chain[OF ch] cnt by (simp add: min_def)
    have z: "(count q' = 0) = (sint (count q') = 0)" by (simp add: signed_eq_0_iff)
    have hd: "head q' = None \<longleftrightarrow> count q' = 0"
      unfolding z using ch cnt by (cases "queue_after [] ops") auto
    from q cnt l hd show ?thesis by (simp add: lwt_queue_empty_def)
  qed
  from a b c d e f show ?thesis by blast
qed

theorem queue_count_matches_links_witness:
  "fresh_pushes [] [Push 1, Push 2, Pop, Push 3] \<and>
   within_capacity [] [Push 1, Push 2, Pop, Push 3] \<and>
   is_counted_queue (fst (run_qops (heap_zero, queue_zero) [Push 1, Push 2, Pop, Push 3]))
            (snd (run_qops (heap_zero, queue_zero) [Push 1, Push 2, Pop, Push 3])) [2, 3] \<and>
   count (snd (run_qops (heap_zero, queue_zero) [Push 1, Push 2, Pop, Push 3])) = 2 \<and>
   head (snd (run_qops (heap_zero, queue_zero) [Push 1, Push 2, Pop, Push 3])) \<noteq> None \<and>
   sint (count (snd (lwt_queue_push_locked
      (fst (run_qops (heap_zero, queue_zero) [Push 1, Push 2, Pop, Push 3]))
      (snd (run_qops (heap_zero, queue_zero) [Push 1, Push 2, Pop, Push 3])) 5))) = 3 \<and>
   sint (count (snd (snd (lwt_queue_pop_locked
      (fst (run_qops (heap_zero, queue_zero) [Push 1, Push 2, Pop, Push 3]))
      (snd (run_qops (heap_zero, queue_zero) [Push 1, Push 2, Pop, Push 3])))))) = 1"
proof -
  have f: "fresh_pushes [] [Push 1, Push 2, Pop, Push 3] \<and>
           within_capacity [] [Push 1, Push 2, Pop, Push 3]"
    by (simp add: INT_MAX_def)
  obtain h' q' where r: "run_qops (heap_zero, queue_zero) [Push 1, Push 2, Pop, Push 3] = (h', q')"
    by (cases "run_qops (heap_zero, queue_zero) [Push 1, Push 2, Pop, Push 3]")
  note T = queue_count_matches_links[of h' q' 5 "[Push 1, Push 2, Pop, Push 3]" heap_zero h' q']
  from T f r have q: "is_counted_queue h' q' [2, 3]" and s: "sint (count q') = 2" by simp_all
  from q have hd: "head q' \<noteq> None" by (simp add: is_counted_queue_def is_queue_def)
  have c: "count q' = 2"
    using arg_cong[OF s, of "word_of_int :: int \<Rightarrow> 32 word"] by simp
  from s have b: "sint (count q') < INT_MAX \<and> INT_MIN < sint (count q')"
    by (simp add: INT_MAX_def INT_MIN_def)
  from T b hd
  have "sint (count (snd (lwt_queue_push_locked h' q' 5))) = sint (count q') + 1 \<and>
     sint (count (snd (snd (lwt_queue_pop_locked h' q')))) = sint (count q') - 1" by blast
  then have "sint (count (snd (lwt_queue_push_locked h' q' 5))) = 3 \<and>
     sint (count (snd (snd (lwt_queue_pop_locked h' q')))) = 1" by (simp only: s) simp
  with f q c hd r show ?thesis by simp
qed

text \<open>
  C10 as stated does not hold: pushing the task that is the tail links it to itself.
  After \<open>push 7; push 7\<close> the count is 2, head and tail are both task 7, and the links
  from the head never end.
\<close>

theorem queue_count_counterexample:
  "count (snd (run_qops (heap_zero, queue_zero) [Push 7, Push 7])) = 2 \<and>
   head (snd (run_qops (heap_zero, queue_zero) [Push 7, Push 7])) = Some 7 \<and>
   tail (snd (run_qops (heap_zero, queue_zero) [Push 7, Push 7])) = Some 7 \<and>
   chain (fst (run_qops (heap_zero, queue_zero) [Push 7, Push 7])) 4
         (head (snd (run_qops (heap_zero, queue_zero) [Push 7, Push 7]))) = [7, 7, 7, 7]"
  by (simp add: run_qops_def lwt_queue_push_locked_def queue_zero_def heap_zero_def Let_def
        numeral_eq_Suc)
section \<open>Creation, failed initialisation and stop\<close>

text \<open>
  C7. Absent allocation and initialisation failures, \<open>lwt_scheduler_create n\<close> returns
  an error (NULL, \<open>errno = EINVAL\<close>) exactly when \<open>n < 1\<close> or \<open>n > LWT_MAX_WORKERS = 64\<close>,
  and an invalid count is refused whatever the allocator does. For every \<open>n\<close> from 1
  to 64 it succeeds, and the scheduler it returns has \<open>running_flag = 0\<close>, next task id
  1, an empty ready queue, and the worker ids \<open>0, ..., n - 1\<close> in its first \<open>n\<close> slots.
\<close>

theorem scheduler_create_validates_count:
  "((\<exists>e. fst (lwt_scheduler_create n True True True True w) = Inl e) \<longleftrightarrow> (n < 1 \<or> n > LWT_MAX_WORKERS)) \<and>
   LWT_MAX_WORKERS = 64 \<and>
   (n < 1 \<or> n > LWT_MAX_WORKERS \<longrightarrow>
      lwt_scheduler_create n malloc_ok qmutex_ok mutex_ok cond_ok w = (Inl EINVAL, w)) \<and>
   (1 \<le> n \<and> n \<le> LWT_MAX_WORKERS \<longrightarrow>
      (\<exists>w'. lwt_scheduler_create n True True True True w = (Inr (), w') \<and>
            running_flag (sched w') = 0 \<and>
            next_thread_id (sched w') = 1 \<and>
            ready_queue (sched w') = queue_zero \<and>
            head (ready_queue (sched w')) = None \<and>
            count (ready_queue (sched w')) = 0 \<and>
            is_queue (heap w') (ready_queue (sched w')) [] \<and>
            num_workers (sched w') = n \<and>
            take (nat n) (worker_ids (sched w')) = map int [0..<nat n]))"
proof -
  have m: "LWT_MAX_WORKERS = 64" by (simp add: LWT_MAX_WORKERS_def)
  have bad: "n < 1 \<or> n > LWT_MAX_WORKERS \<longrightarrow>
      lwt_scheduler_create n malloc_ok qmutex_ok mutex_ok cond_ok w = (Inl EINVAL, w)"
    by (simp add: create_invalid m)
  have good: "\<exists>w'. lwt_scheduler_create n True True True True w = (Inr (), w') \<and>
            running_flag (sched w') = 0 \<and>
            next_thread_id (sched w') = 1 \<and>
            ready_queue (sched w') = queue_zero \<and>
            head (ready_queue (sched w')) = None \<and>
            count (ready_queue (sched w')) = 0 \<and>
            is_queue (heap w') (ready_queue (sched w')) [] \<and>
            num_workers (sched w') = n \<and>
            take (nat n) (worker_ids (sched w')) = map int [0..<nat n]"
    if v: "1 \<le> n \<and> n \<le> LWT_MAX_WORKERS"
  proof -
    from v m have v1: "1 \<le> n" and v2: "n \<le> 64" by simp_all
    from v2 have "nat n \<le> length (replicate 64 (0::int))" by simp
    from take_fill_worker_ids[OF this] create_succeeds[OF v1 v2, of w]
    show ?thesis by (simp add: queue_zero_def is_queue_def)
  qed
  have iff: "(\<exists>e. fst (lwt_scheduler_create n True True True True w) = Inl e) \<longleftrightarrow> (n < 1 \<or> n > LWT_MAX_WORKERS)"
  proof (cases "n < 1 \<or> n > LWT_MAX_WORKERS")
    case True
    with m show ?thesis by (simp add: create_invalid)
  next
    case False
    then have "1 \<le> n \<and> n \<le> LWT_MAX_WORKERS" by auto
    from good[OF this] False show ?thesis by auto
  qed
  show ?thesis using m bad good iff by blast
qed

theorem scheduler_create_validates_count_witness:
  "1 \<le> (4::int) \<and> 4 \<le> LWT_MAX_WORKERS \<and>
   fst (lwt_scheduler_create 4 True True True True boot) = Inr () \<and>
   take 4 (worker_ids (sched (snd (lwt_scheduler_create 4 True True True True boot)))) = [0, 1, 2, 3] \<and>
   fst (lwt_scheduler_create 0 True True True True boot) = Inl EINVAL \<and>
   fst (lwt_scheduler_create 65 True True True True boot) = Inl EINVAL"
proof -
  have v: "1 \<le> (4::int) \<and> 4 \<le> LWT_MAX_WORKERS" by (simp add: LWT_MAX_WORKERS_def)
  have u: "map int [0..<nat 4] = [0, 1, 2, 3]" by (simp add: upt_rec)
  from scheduler_create_validates_count[of 4 boot] v u
  have a: "fst (lwt_scheduler_create 4 True True True True boot) = Inr () \<and>
     take 4 (worker_ids (sched (snd (lwt_scheduler_create 4 True True True True boot)))) = [0, 1, 2, 3]"
    by auto
  have b: "fst (lwt_scheduler_create 0 True True True True boot) = Inl EINVAL"
    using scheduler_create_validates_count[of 0 boot True True True True] by simp
  have c: "fst (lwt_scheduler_create 65 True True True True boot) = Inl EINVAL"
    using scheduler_create_validates_count[of 65 boot True True True True]
    by (simp add: LWT_MAX_WORKERS_def)
  from v a b c show ?thesis by simp
qed

text \<open>
  C8. A call of \<open>lwt_thread_init\<close> or \<open>lwt_scheduler_init\<close> that fails partway returns an
  error and holds no resource afterwards. For the task: when \<open>malloc\<close> of the stack
  fails nothing was taken; when \<open>getcontext\<close> fails the stack just allocated is freed and
  the stack pointer is NULL again. For the scheduler: when the queue mutex, the
  scheduler mutex or the condition variable cannot be initialised, what was initialised
  before is destroyed again, the queue included. The set of live resources is then
  what it was before the call, and no fault (double free, destroying what was never
  initialised) has happened on the way. A successful task init, in contrast, keeps its
  stack.
\<close>

theorem failed_init_is_rolled_back:
  "(fst (lwt_thread_init (Some t) (Some f) a (Some ()) sz None gok w) = Inl ENOMEM \<and>
    live (snd (lwt_thread_init (Some t) (Some f) a (Some ()) sz None gok w)) = live w \<and>
    fault (snd (lwt_thread_init (Some t) (Some f) a (Some ()) sz None gok w)) = fault w \<and>
    stack (heap (snd (lwt_thread_init (Some t) (Some f) a (Some ()) sz None gok w)) t) = None) \<and>
   (StackMem b \<notin> live w \<longrightarrow>
    fst (lwt_thread_init (Some t) (Some f) a (Some ()) sz (Some b) False w) = Inl EFAIL \<and>
    live (snd (lwt_thread_init (Some t) (Some f) a (Some ()) sz (Some b) False w)) = live w \<and>
    fault (snd (lwt_thread_init (Some t) (Some f) a (Some ()) sz (Some b) False w)) = fault w \<and>
    stack (heap (snd (lwt_thread_init (Some t) (Some f) a (Some ()) sz (Some b) False w)) t) = None) \<and>
   (StackMem b \<notin> live w \<longrightarrow>
    fst (lwt_thread_init (Some t) (Some f) a (Some ()) sz (Some b) True w) = Inr () \<and>
    live (snd (lwt_thread_init (Some t) (Some f) a (Some ()) sz (Some b) True w))
      = insert (StackMem b) (live w)) \<and>
   (1 \<le> n \<and> n \<le> LWT_MAX_WORKERS \<and> QueueMutex \<notin> live w \<and> SchedMutex \<notin> live w \<and>
    SchedCond \<notin> live w \<and> \<not> (qmutex_ok \<and> mutex_ok \<and> cond_ok) \<longrightarrow>
    fst (lwt_scheduler_init (Some ()) n qmutex_ok mutex_ok cond_ok w) = Inl EFAIL \<and>
    live (snd (lwt_scheduler_init (Some ()) n qmutex_ok mutex_ok cond_ok w)) = live w \<and>
    fault (snd (lwt_scheduler_init (Some ()) n qmutex_ok mutex_ok cond_ok w)) = fault w \<and>
    ready_queue (sched (snd (lwt_scheduler_init (Some ()) n qmutex_ok mutex_ok cond_ok w)))
      = queue_zero)"
proof -
  have a: "fst (lwt_thread_init (Some t) (Some f) a (Some ()) sz None gok w) = Inl ENOMEM \<and>
    live (snd (lwt_thread_init (Some t) (Some f) a (Some ()) sz None gok w)) = live w \<and>
    fault (snd (lwt_thread_init (Some t) (Some f) a (Some ()) sz None gok w)) = fault w \<and>
    stack (heap (snd (lwt_thread_init (Some t) (Some f) a (Some ()) sz None gok w)) t) = None"
    by (simp add: lwt_thread_init_def Let_def)
  have b: "StackMem b \<notin> live w \<longrightarrow>
    fst (lwt_thread_init (Some t) (Some f) a (Some ()) sz (Some b) False w) = Inl EFAIL \<and>
    live (snd (lwt_thread_init (Some t) (Some f) a (Some ()) sz (Some b) False w)) = live w \<and>
    fault (snd (lwt_thread_init (Some t) (Some f) a (Some ()) sz (Some b) False w)) = fault w \<and>
    stack (heap (snd (lwt_thread_init (Some t) (Some f) a (Some ()) sz (Some b) False w)) t) = None"
    by (simp add: lwt_thread_init_def Let_def acquire_def release_def)
  have c: "StackMem b \<notin> live w \<longrightarrow>
    fst (lwt_thread_init (Some t) (Some f) a (Some ()) sz (Some b) True w) = Inr () \<and>
    live (snd (lwt_thread_init (Some t) (Some f) a (Some ()) sz (Some b) True w))
      = insert (StackMem b) (live w)"
    by (simp add: lwt_thread_init_def Let_def prim_defs)
  have d: "1 \<le> n \<and> n \<le> LWT_MAX_WORKERS \<and> QueueMutex \<notin> live w \<and> SchedMutex \<notin> live w \<and>
    SchedCond \<notin> live w \<and> \<not> (qmutex_ok \<and> mutex_ok \<and> cond_ok) \<longrightarrow>
    fst (lwt_scheduler_init (Some ()) n qmutex_ok mutex_ok cond_ok w) = Inl EFAIL \<and>
    live (snd (lwt_scheduler_init (Some ()) n qmutex_ok mutex_ok cond_ok w)) = live w \<and>
    fault (snd (lwt_scheduler_init (Some ()) n qmutex_ok mutex_ok cond_ok w)) = fault w \<and>
    ready_queue (sched (snd (lwt_scheduler_init (Some ()) n qmutex_ok mutex_ok cond_ok w)))
      = queue_zero"
    by (auto simp add: lwt_scheduler_init_def lwt_queue_init_def lwt_queue_destroy_def Let_def
          acquire_def release_def scheduler_zero_def)
  show ?thesis using a b c d by blast
qed

theorem failed_init_is_rolled_back_witness:
  "StackMem 9 \<notin> live boot \<and>
   lwt_thread_init (Some 3) (Some 0) 0 (Some ()) 0 (Some 9) False boot
     = (Inl EFAIL, boot\<lparr>heap := heap_zero(3 := thread_zero\<lparr>func := Some 0, scheduler := Some (),
                                  stack_size := LWT_DEFAULT_STACK_SIZE\<rparr>)\<rparr>) \<and>
   1 \<le> (2::int) \<and> 2 \<le> LWT_MAX_WORKERS \<and>
   fst (lwt_scheduler_init (Some ()) 2 True True False boot) = Inl EFAIL \<and>
   live (snd (lwt_scheduler_init (Some ()) 2 True True False boot)) = {} \<and>
   fault (snd (lwt_scheduler_init (Some ()) 2 True True False boot)) = False"
proof -
  have p: "StackMem 9 \<notin> live boot" by (simp add: boot_def)
  have q: "1 \<le> (2::int) \<and> 2 \<le> LWT_MAX_WORKERS \<and> QueueMutex \<notin> live boot \<and>
    SchedMutex \<notin> live boot \<and> SchedCond \<notin> live boot \<and> \<not> (True \<and> True \<and> False)"
    by (simp add: boot_def LWT_MAX_WORKERS_def)
  have e: "lwt_thread_init (Some 3) (Some 0) 0 (Some ()) 0 (Some 9) False boot
     = (Inl EFAIL, boot\<lparr>heap := heap_zero(3 := thread_zero\<lparr>func := Some 0, scheduler := Some (),
                                  stack_size := LWT_DEFAULT_STACK_SIZE\<rparr>)\<rparr>)"
    by (simp add: lwt_thread_init_def Let_def acquire_def release_def boot_def thread_zero_def)
  from failed_init_is_rolled_back[of 3 0 0 0 True boot 9 2 True True False] p q e
  show ?thesis by (simp add: boot_def)
qed

text \<open>
  C9. \<open>lwt_scheduler_stop\<close> on a scheduler that is not running returns without changing
  anything, and stopping twice is the same as stopping once, in every state. The
  sequence create; stop; stop; destroy runs without a fault and leaves no resource
  behind: both stops change nothing and destroy releases the queue mutex, the scheduler
  mutex, the condition variable and the scheduler's memory exactly once.
\<close>

theorem stop_is_idempotent:
  "(running_flag (sched w) = 0 \<longrightarrow> lwt_scheduler_stop schedp w = w) \<and>
   lwt_scheduler_stop schedp (lwt_scheduler_stop schedp w) = lwt_scheduler_stop schedp w \<and>
   (1 \<le> n \<and> n \<le> LWT_MAX_WORKERS \<longrightarrow>
      (\<exists>w1. lwt_scheduler_create n True True True True boot = (Inr (), w1) \<and>
            lwt_scheduler_stop (Some ()) w1 = w1 \<and>
            lwt_scheduler_stop (Some ()) (lwt_scheduler_stop (Some ()) w1) = w1 \<and>
            fault (lwt_scheduler_destroy (Some ())
                     (lwt_scheduler_stop (Some ()) (lwt_scheduler_stop (Some ()) w1))) = False \<and>
            live (lwt_scheduler_destroy (Some ())
                     (lwt_scheduler_stop (Some ()) (lwt_scheduler_stop (Some ()) w1))) = {}))"
proof -
  have a: "running_flag (sched w) = 0 \<longrightarrow> lwt_scheduler_stop schedp w = w"
    by (simp add: lwt_scheduler_stop_def)
  have b: "lwt_scheduler_stop schedp (lwt_scheduler_stop schedp w) = lwt_scheduler_stop schedp w"
  proof (cases "schedp = None")
    case True
    then show ?thesis by (simp add: lwt_scheduler_stop_def)
  next
    case False
    from stop_flag_cleared[OF this, of w] show ?thesis
      by (simp add: lwt_scheduler_stop_def[of schedp "lwt_scheduler_stop schedp w"])
  qed
  have c: "\<exists>w1. lwt_scheduler_create n True True True True boot = (Inr (), w1) \<and>
            lwt_scheduler_stop (Some ()) w1 = w1 \<and>
            lwt_scheduler_stop (Some ()) (lwt_scheduler_stop (Some ()) w1) = w1 \<and>
            fault (lwt_scheduler_destroy (Some ())
                     (lwt_scheduler_stop (Some ()) (lwt_scheduler_stop (Some ()) w1))) = False \<and>
            live (lwt_scheduler_destroy (Some ())
                     (lwt_scheduler_stop (Some ()) (lwt_scheduler_stop (Some ()) w1))) = {}"
    if v: "1 \<le> n \<and> n \<le> LWT_MAX_WORKERS"
  proof -
    from v have v1: "1 \<le> n" and v2: "n \<le> 64" by (simp_all add: LWT_MAX_WORKERS_def)
    obtain w1 where w1: "lwt_scheduler_create n True True True True boot = (Inr (), w1)"
      and f: "running_flag (sched w1) = 0"
      and l: "live w1 = {SchedCond, SchedMutex, QueueMutex, SchedMem}"
      and ft: "fault w1 = False" and hg: "hung w1 = False"
      using create_succeeds[OF v1 v2, of boot] by (simp add: boot_def scheduler_zero_def)
    from f have s: "lwt_scheduler_stop (Some ()) w1 = w1" by (simp add: lwt_scheduler_stop_def)
    have d: "fault (lwt_scheduler_destroy (Some ()) w1) = False \<and>
             live (lwt_scheduler_destroy (Some ()) w1) = {}"
      using l ft s hg
      by (auto simp add: lwt_scheduler_destroy_def lwt_scheduler_cleanup_def lwt_queue_destroy_def
            release_def Let_def)
    from w1 s d show ?thesis by simp
  qed
  show ?thesis using a b c by blast
qed

theorem stop_is_idempotent_witness:
  "1 \<le> (4::int) \<and> 4 \<le> LWT_MAX_WORKERS \<and>
   fst (lwt_scheduler_create 4 True True True True boot) = Inr () \<and>
   lwt_scheduler_stop (Some ()) (snd (lwt_scheduler_create 4 True True True True boot))
     = snd (lwt_scheduler_create 4 True True True True boot) \<and>
   fault (lwt_scheduler_destroy (Some ())
      (lwt_scheduler_stop (Some ()) (lwt_scheduler_stop (Some ())
         (snd (lwt_scheduler_create 4 True True True True boot))))) = False \<and>
   live (lwt_scheduler_destroy (Some ())
      (lwt_scheduler_stop (Some ()) (lwt_scheduler_stop (Some ())
         (snd (lwt_scheduler_create 4 True True True True boot))))) = {}"
proof -
  have v: "1 \<le> (4::int) \<and> 4 \<le> LWT_MAX_WORKERS" by (simp add: LWT_MAX_WORKERS_def)
  from stop_is_idempotent[of "snd (lwt_scheduler_create 4 True True True True boot)" "Some ()" 4] v
  show ?thesis by auto
qed

section \<open>The running system: queue membership, yield, join, finish, sleep\<close>



text \<open>
  C4. A call of \<open>lwt_yield\<close> from within a task \<open>t\<close> that is not FINISHED (on a worker
  whose current thread is \<open>t\<close>) sets the state of \<open>t\<close> to READY, makes \<open>t\<close> the tail of the
  ready queue (the count grows by one), clears the worker's running slot and signals
  the condition variable, all under the scheduler mutex, and then switches to the
  worker's dispatch context; a ready queue \<open>xs\<close> that does not hold \<open>t\<close> becomes
  \<open>xs @ [t]\<close>. A current task that is FINISHED is not enqueued: heap and queue stay as
  they are. Without a current task the call changes nothing.
\<close>

theorem yield_requeues_the_task:
  "(runs_task w me t \<and> state_of w t \<noteq> LWT_STATE_FINISHED \<longrightarrow>
      state_of (lwt_yield me w) t = LWT_STATE_READY \<and>
      tail (ready_queue (sched (lwt_yield me w))) = Some t \<and>
      count (ready_queue (sched (lwt_yield me w))) = count (ready_queue (sched w)) + 1 \<and>
      trace (lwt_yield me w) = trace w @
        [(EvLock, True), (EvSetState t LWT_STATE_READY, True), (EvPush t, True),
         (EvSetRunning (current_worker_id w me) None, True), (EvSignal, True),
         (EvUnlock, False), (EvSwapToMain t (current_worker_id w me), False)] \<and>
      ctl (lwt_yield me w) me = AtLoop \<and>
      (\<forall>xs. on_ready_queue w xs \<and> t \<notin> set xs \<longrightarrow>
            on_ready_queue (lwt_yield me w) (xs @ [t]))) \<and>
   (lwt_thread_self w me = Some t \<and> state_of w t = LWT_STATE_FINISHED \<longrightarrow>
      heap (lwt_yield me w) = heap w \<and>
      ready_queue (sched (lwt_yield me w)) = ready_queue (sched w)) \<and>
   (lwt_thread_self w me = None \<longrightarrow> lwt_yield me w = w)"
proof -
  have a: "state_of (lwt_yield me w) t = LWT_STATE_READY \<and>
      tail (ready_queue (sched (lwt_yield me w))) = Some t \<and>
      count (ready_queue (sched (lwt_yield me w))) = count (ready_queue (sched w)) + 1 \<and>
      trace (lwt_yield me w) = trace w @
        [(EvLock, True), (EvSetState t LWT_STATE_READY, True), (EvPush t, True),
         (EvSetRunning (current_worker_id w me) None, True), (EvSignal, True),
         (EvUnlock, False), (EvSwapToMain t (current_worker_id w me), False)] \<and>
      ctl (lwt_yield me w) me = AtLoop \<and>
      (\<forall>xs. on_ready_queue w xs \<and> t \<notin> set xs \<longrightarrow>
            on_ready_queue (lwt_yield me w) (xs @ [t]))"
    if h: "runs_task w me t \<and> state_of w t \<noteq> LWT_STATE_FINISHED"
  proof -
    from h have ct: "current_thread w me = Some t" and nf: "state_of w t \<noteq> LWT_STATE_FINISHED"
      and v: "valid_worker_id w me" and n: "num_workers (sched w) \<le> 64"
      by (simp_all add: runs_task_def lwt_thread_self_def LWT_MAX_WORKERS_def)
    have s: "state_of (lwt_yield me w) t = LWT_STATE_READY"
      using ct v nf by (simp add: lwt_yield_def tls_defs Let_def to_views)
    have c: "ctl (lwt_yield me w) me = AtLoop"
      using ct v nf by (simp add: lwt_yield_def tls_defs Let_def to_views)
    have q: "\<forall>xs. on_ready_queue w xs \<and> t \<notin> set xs \<longrightarrow>
            on_ready_queue (lwt_yield me w) (xs @ [t])"
      using yield_views(4)[OF ct v nf] by blast
    from s c q yield_effect[OF ct v n nf] show ?thesis by simp
  qed
  have c: "lwt_thread_self w me = Some t \<and> state_of w t = LWT_STATE_FINISHED \<longrightarrow>
      heap (lwt_yield me w) = heap w \<and>
      ready_queue (sched (lwt_yield me w)) = ready_queue (sched w)"
    using yield_finished_effect[of w me t] by (simp add: lwt_thread_self_def)
  have d: "lwt_thread_self w me = None \<longrightarrow> lwt_yield me w = w"
    by (simp add: yield_outside)
  from a c d show ?thesis by blast
qed

theorem yield_requeues_the_task_witness:
  "runs_task world_running (Worker 0) 3 \<and>
   state_of world_running 3 \<noteq> LWT_STATE_FINISHED \<and>
   on_ready_queue world_running [] \<and>
   state_of (lwt_yield (Worker 0) world_running) 3 = LWT_STATE_READY \<and>
   on_ready_queue (lwt_yield (Worker 0) world_running) [3] \<and>
   ctl (lwt_yield (Worker 0) world_running) (Worker 0) = AtLoop \<and>
   lwt_thread_self world_first_finished (Worker 0) = Some 3 \<and>
   state_of world_first_finished 3 = LWT_STATE_FINISHED \<and>
   heap (lwt_yield (Worker 0) world_first_finished) = heap world_first_finished \<and>
   lwt_thread_self world_two_tasks (App 0) = None \<and>
   lwt_yield (App 0) world_two_tasks = world_two_tasks"
proof -
  note F = world_running_facts and G = world_first_finished_facts
  have h: "runs_task world_running (Worker 0) 3 \<and>
    state_of world_running 3 \<noteq> LWT_STATE_FINISHED \<and> on_ready_queue world_running [] \<and>
    (3::nat) \<notin> set []"
    by (simp add: F)
  have g: "lwt_thread_self world_first_finished (Worker 0) = Some 3 \<and>
    state_of world_first_finished 3 = LWT_STATE_FINISHED"
    by (simp add: G)
  have o: "lwt_thread_self world_two_tasks (App 0) = None"
    by (simp add: lwt_thread_self_def world_two_tasks_facts)
  from yield_requeues_the_task[of world_running "Worker 0" 3] h
  have "state_of (lwt_yield (Worker 0) world_running) 3 = LWT_STATE_READY \<and>
        ctl (lwt_yield (Worker 0) world_running) (Worker 0) = AtLoop \<and>
        on_ready_queue (lwt_yield (Worker 0) world_running) ([] @ [3])"
    by blast
  moreover from yield_requeues_the_task[of world_first_finished "Worker 0" 3] g
  have "heap (lwt_yield (Worker 0) world_first_finished) = heap world_first_finished"
    by blast
  moreover from yield_requeues_the_task[of world_two_tasks "App 0" 0] o
  have "lwt_yield (App 0) world_two_tasks = world_two_tasks" by blast
  ultimately show ?thesis using h g o by simp
qed

text \<open>
  C3. \<open>lwt_join\<close> called with a target \<open>x\<close> from within a task \<open>self\<close>: when \<open>x\<close> is
  FINISHED the call takes and releases the scheduler mutex and returns; heap, scheduler
  object, control location and thread-local variables are unchanged and no context
  switch is logged. Otherwise the call sets the state of \<open>self\<close> to BLOCKED, stores
  \<open>self\<close> in \<open>x->waiting\<close> and clears the worker's running slot, all under the mutex,
  leaves the header of the ready queue and every link as they are (nothing is
  enqueued: the queue holds the same threads as before), and switches to the dispatch
  context of the worker. With a NULL target, or on an OS thread without a current
  thread, the call returns at once and changes nothing.
\<close>

theorem join_returns_or_blocks:
  "(runs_task w me self \<and> state_of w x = LWT_STATE_FINISHED \<longrightarrow>
      lwt_join me (Some x) w
        = w\<lparr>mutex_held := False, trace := trace w @ [(EvLock, True), (EvUnlock, False)]\<rparr> \<and>
      heap (lwt_join me (Some x) w) = heap w \<and>
      sched (lwt_join me (Some x) w) = sched w \<and>
      ctl (lwt_join me (Some x) w) = ctl w \<and>
      current_thread (lwt_join me (Some x) w) = current_thread w) \<and>
   (runs_task w me self \<and> state_of w x \<noteq> LWT_STATE_FINISHED \<longrightarrow>
      state_of (lwt_join me (Some x) w) self = LWT_STATE_BLOCKED \<and>
      waiting_of (lwt_join me (Some x) w) x = Some self \<and>
      ready_queue (sched (lwt_join me (Some x) w)) = ready_queue (sched w) \<and>
      (\<forall>y. next_thr (heap (lwt_join me (Some x) w) y) = next_thr (heap w y)) \<and>
      on_ready_queue (lwt_join me (Some x) w) = on_ready_queue w \<and>
      trace (lwt_join me (Some x) w) = trace w @
        [(EvLock, True), (EvSetState self LWT_STATE_BLOCKED, True),
         (EvSetWaiting x (Some self), True),
         (EvSetRunning (current_worker_id w me) None, True),
         (EvUnlock, False), (EvSwapToMain self (current_worker_id w me), False)] \<and>
      ctl (lwt_join me (Some x) w) me = AtLoop) \<and>
   lwt_join me None w = w \<and>
   (lwt_thread_self w me = None \<longrightarrow> lwt_join me target w = w)"
proof -
  have a: "lwt_join me (Some x) w
        = w\<lparr>mutex_held := False, trace := trace w @ [(EvLock, True), (EvUnlock, False)]\<rparr> \<and>
      heap (lwt_join me (Some x) w) = heap w \<and>
      sched (lwt_join me (Some x) w) = sched w \<and>
      ctl (lwt_join me (Some x) w) = ctl w \<and>
      current_thread (lwt_join me (Some x) w) = current_thread w"
    if h: "runs_task w me self \<and> state_of w x = LWT_STATE_FINISHED"
  proof -
    from h have ct: "current_thread w me = Some self" and v: "valid_worker_id w me"
      and f: "state_of w x = LWT_STATE_FINISHED"
      by (simp_all add: runs_task_def lwt_thread_self_def)
    show ?thesis by (simp add: join_finished_effect[OF ct v f])
  qed
  have b: "state_of (lwt_join me (Some x) w) self = LWT_STATE_BLOCKED \<and>
      waiting_of (lwt_join me (Some x) w) x = Some self \<and>
      ready_queue (sched (lwt_join me (Some x) w)) = ready_queue (sched w) \<and>
      (\<forall>y. next_thr (heap (lwt_join me (Some x) w) y) = next_thr (heap w y)) \<and>
      on_ready_queue (lwt_join me (Some x) w) = on_ready_queue w \<and>
      trace (lwt_join me (Some x) w) = trace w @
        [(EvLock, True), (EvSetState self LWT_STATE_BLOCKED, True),
         (EvSetWaiting x (Some self), True),
         (EvSetRunning (current_worker_id w me) None, True),
         (EvUnlock, False), (EvSwapToMain self (current_worker_id w me), False)] \<and>
      ctl (lwt_join me (Some x) w) me = AtLoop"
    if h: "runs_task w me self \<and> state_of w x \<noteq> LWT_STATE_FINISHED"
  proof -
    from h have ct: "current_thread w me = Some self" and v: "valid_worker_id w me"
      and n: "num_workers (sched w) \<le> 64" and f: "state_of w x \<noteq> LWT_STATE_FINISHED"
      by (simp_all add: runs_task_def lwt_thread_self_def LWT_MAX_WORKERS_def)
    note V = join_views[OF ct v f]
    note E = join_effect[OF ct v n f]
    show ?thesis by (simp add: V E(1,2,3))
  qed
  have c: "lwt_join me None w = w" by (simp add: lwt_join_def)
  have d: "lwt_thread_self w me = None \<longrightarrow> lwt_join me target w = w"
    by (simp add: lwt_join_def split: option.splits)
  from a b c d show ?thesis by blast
qed

theorem join_returns_or_blocks_witness:
  "runs_task world_running (Worker 2) 4 \<and>
   state_of world_running 3 \<noteq> LWT_STATE_FINISHED \<and>
   state_of world_joining 4 = LWT_STATE_BLOCKED \<and>
   waiting_of world_joining 3 = Some 4 \<and>
   ready_queue (sched world_joining) = ready_queue (sched world_running) \<and>
   ctl world_joining (Worker 2) = AtLoop \<and>
   runs_task world_first_finished (Worker 2) 4 \<and>
   state_of world_first_finished 3 = LWT_STATE_FINISHED \<and>
   heap (lwt_join (Worker 2) (Some 3) world_first_finished) = heap world_first_finished \<and>
   sched (lwt_join (Worker 2) (Some 3) world_first_finished) = sched world_first_finished \<and>
   ctl (lwt_join (Worker 2) (Some 3) world_first_finished) = ctl world_first_finished \<and>
   lwt_thread_self world_two_tasks (App 0) = None \<and>
   lwt_join (App 0) (Some 3) world_two_tasks = world_two_tasks"
proof -
  note F = world_running_facts and G = world_first_finished_facts
  have h: "runs_task world_running (Worker 2) 4 \<and>
    state_of world_running 3 \<noteq> LWT_STATE_FINISHED"
    by (simp add: F)
  from join_returns_or_blocks[of world_running "Worker 2" 4 3] h
  have a: "state_of (lwt_join (Worker 2) (Some 3) world_running) 4 = LWT_STATE_BLOCKED \<and>
      waiting_of (lwt_join (Worker 2) (Some 3) world_running) 3 = Some 4 \<and>
      ready_queue (sched (lwt_join (Worker 2) (Some 3) world_running))
        = ready_queue (sched world_running) \<and>
      ctl (lwt_join (Worker 2) (Some 3) world_running) (Worker 2) = AtLoop"
    by blast
  have g: "runs_task world_first_finished (Worker 2) 4 \<and>
    state_of world_first_finished 3 = LWT_STATE_FINISHED"
    by (simp add: G)
  from join_returns_or_blocks[of world_first_finished "Worker 2" 4 3] g
  have b: "heap (lwt_join (Worker 2) (Some 3) world_first_finished) = heap world_first_finished \<and>
    sched (lwt_join (Worker 2) (Some 3) world_first_finished) = sched world_first_finished \<and>
    ctl (lwt_join (Worker 2) (Some 3) world_first_finished) = ctl world_first_finished"
    by blast
  have o: "lwt_thread_self world_two_tasks (App 0) = None"
    by (simp add: lwt_thread_self_def world_two_tasks_facts)
  from join_returns_or_blocks[of world_two_tasks "App 0" 0 0 "Some 3"] o
  have c: "lwt_join (App 0) (Some 3) world_two_tasks = world_two_tasks" by blast
  from h a g b o c show ?thesis by (simp add: world_joining_def)
qed

text \<open>
  C1. When the entry function of a task \<open>t\<close> returns (on a worker whose current thread
  is \<open>t\<close>), the trampoline takes the scheduler mutex and sets the state of \<open>t\<close> to
  FINISHED. With no joiner it releases the mutex and the ready queue is unchanged.
  With a joiner \<open>j\<close> installed (another thread than \<open>t\<close>: a joiner is BLOCKED, the task
  is running), it sets \<open>j\<close> to READY, pushes it on the ready queue (it is the tail
  afterwards, and a queue \<open>xs\<close> that does not hold \<open>j\<close> becomes \<open>xs @ [j]\<close>), clears
  \<open>t->waiting\<close> and signals the condition variable, in this order and after the store of
  FINISHED, all under the mutex. The final \<open>lwt_yield\<close> changes no thread and no queue:
  the task stays FINISHED, is not enqueued, and the OS thread is back in its loop.
\<close>

theorem trampoline_marks_finished_then_wakes_joiner:
  "runs_task w me t \<longrightarrow>
     (waiting_of w t = None \<longrightarrow>
        state_of (lwt_thread_finish t w) t = LWT_STATE_FINISHED \<and>
        trace (lwt_thread_finish t w) = trace w @
          [(EvLock, True), (EvSetState t LWT_STATE_FINISHED, True), (EvUnlock, False)] \<and>
        ready_queue (sched (lwt_thread_finish t w)) = ready_queue (sched w) \<and>
        on_ready_queue (lwt_thread_finish t w) = on_ready_queue w) \<and>
     (\<forall>j. waiting_of w t = Some j \<and> j \<noteq> t \<longrightarrow>
        state_of (lwt_thread_finish t w) t = LWT_STATE_FINISHED \<and>
        state_of (lwt_thread_finish t w) j = LWT_STATE_READY \<and>
        tail (ready_queue (sched (lwt_thread_finish t w))) = Some j \<and>
        count (ready_queue (sched (lwt_thread_finish t w))) = count (ready_queue (sched w)) + 1 \<and>
        (\<forall>xs. on_ready_queue w xs \<and> j \<notin> set xs \<longrightarrow>
              on_ready_queue (lwt_thread_finish t w) (xs @ [j])) \<and>
        waiting_of (lwt_thread_finish t w) t = None \<and>
        trace (lwt_thread_finish t w) = trace w @
          [(EvLock, True), (EvSetState t LWT_STATE_FINISHED, True),
           (EvSetState j LWT_STATE_READY, True), (EvPush j, True),
           (EvSetWaiting t None, True), (EvSignal, True), (EvUnlock, False)]) \<and>
     (waiting_of w t \<noteq> Some t \<longrightarrow>
        state_of (lwt_thread_start_return me t w) t = LWT_STATE_FINISHED \<and>
        heap (lwt_thread_start_return me t w) = heap (lwt_thread_finish t w) \<and>
        ready_queue (sched (lwt_thread_start_return me t w))
          = ready_queue (sched (lwt_thread_finish t w)) \<and>
        trace (lwt_thread_start_return me t w) = trace (lwt_thread_finish t w) @
          [(EvLock, True), (EvSetRunning (current_worker_id w me) None, True), (EvSignal, True),
           (EvUnlock, False), (EvSwapToMain t (current_worker_id w me), False)] \<and>
        ctl (lwt_thread_start_return me t w) me = AtLoop)"
proof (intro impI)
  assume h: "runs_task w me t"
  then have ct: "current_thread w me = Some t" and v: "valid_worker_id w me"
    and n: "num_workers (sched w) \<le> 64"
    by (simp_all add: runs_task_def lwt_thread_self_def LWT_MAX_WORKERS_def)
  let ?f = "lwt_thread_finish t w"
  let ?w = "lwt_thread_start_return me t w"
  have 1: "waiting_of w t = None \<longrightarrow>
        state_of ?f t = LWT_STATE_FINISHED \<and>
        trace ?f = trace w @
          [(EvLock, True), (EvSetState t LWT_STATE_FINISHED, True), (EvUnlock, False)] \<and>
        ready_queue (sched ?f) = ready_queue (sched w) \<and>
        on_ready_queue ?f = on_ready_queue w"
    using finish_effect_none[of w t] finish_views_none(1,4)[of w t] by simp
  have 2: "state_of ?f t = LWT_STATE_FINISHED \<and>
        state_of ?f j = LWT_STATE_READY \<and>
        tail (ready_queue (sched ?f)) = Some j \<and>
        count (ready_queue (sched ?f)) = count (ready_queue (sched w)) + 1 \<and>
        (\<forall>xs. on_ready_queue w xs \<and> j \<notin> set xs \<longrightarrow> on_ready_queue ?f (xs @ [j])) \<and>
        waiting_of ?f t = None \<and>
        trace ?f = trace w @
          [(EvLock, True), (EvSetState t LWT_STATE_FINISHED, True),
           (EvSetState j LWT_STATE_READY, True), (EvPush j, True),
           (EvSetWaiting t None, True), (EvSignal, True), (EvUnlock, False)]"
    if s: "waiting_of w t = Some j \<and> j \<noteq> t" for j
  proof -
    from s have Some: "waiting_of w t = Some j" and jt: "j \<noteq> t" by simp_all
    have q: "\<forall>xs. on_ready_queue w xs \<and> j \<notin> set xs \<longrightarrow> on_ready_queue ?f (xs @ [j])"
      using finish_views_some(4)[OF Some] by blast
    from q jt finish_effect_some[OF Some] show ?thesis by (simp add: finish_frame Some)
  qed
  have 3: "state_of ?w t = LWT_STATE_FINISHED \<and>
        heap ?w = heap ?f \<and>
        ready_queue (sched ?w) = ready_queue (sched ?f) \<and>
        trace ?w = trace ?f @
          [(EvLock, True), (EvSetRunning (current_worker_id w me) None, True), (EvSignal, True),
           (EvUnlock, False), (EvSwapToMain t (current_worker_id w me), False)] \<and>
        ctl ?w me = AtLoop"
    if s: "waiting_of w t \<noteq> Some t"
  proof -
    have f: "state_of ?f t = LWT_STATE_FINISHED"
      using s by (simp add: finish_frame split: option.splits)
    have c': "current_thread ?f me = Some t" by (simp add: finish_frame ct)
    have v': "valid_worker_id ?f me" using v by (simp add: valid_worker_id_def finish_frame)
    have n': "num_workers (sched ?f) \<le> 64" using n by (simp add: finish_frame)
    note Y = yield_finished_views[OF c' v' f, folded lwt_thread_start_return_def]
    note E = yield_finished_effect[OF c' f, folded lwt_thread_start_return_def]
    note T = yield_finished_trace[OF c' v' n' f, folded lwt_thread_start_return_def]
    show ?thesis using f by (simp add: Y E T finish_frame)
  qed
  from 1 2 3 show "(waiting_of w t = None \<longrightarrow>
        state_of ?f t = LWT_STATE_FINISHED \<and>
        trace ?f = trace w @
          [(EvLock, True), (EvSetState t LWT_STATE_FINISHED, True), (EvUnlock, False)] \<and>
        ready_queue (sched ?f) = ready_queue (sched w) \<and>
        on_ready_queue ?f = on_ready_queue w) \<and>
     (\<forall>j. waiting_of w t = Some j \<and> j \<noteq> t \<longrightarrow>
        state_of ?f t = LWT_STATE_FINISHED \<and>
        state_of ?f j = LWT_STATE_READY \<and>
        tail (ready_queue (sched ?f)) = Some j \<and>
        count (ready_queue (sched ?f)) = count (ready_queue (sched w)) + 1 \<and>
        (\<forall>xs. on_ready_queue w xs \<and> j \<notin> set xs \<longrightarrow> on_ready_queue ?f (xs @ [j])) \<and>
        waiting_of ?f t = None \<and>
        trace ?f = trace w @
          [(EvLock, True), (EvSetState t LWT_STATE_FINISHED, True),
           (EvSetState j LWT_STATE_READY, True), (EvPush j, True),
           (EvSetWaiting t None, True), (EvSignal, True), (EvUnlock, False)]) \<and>
     (waiting_of w t \<noteq> Some t \<longrightarrow>
        state_of ?w t = LWT_STATE_FINISHED \<and>
        heap ?w = heap ?f \<and>
        ready_queue (sched ?w) = ready_queue (sched ?f) \<and>
        trace ?w = trace ?f @
          [(EvLock, True), (EvSetRunning (current_worker_id w me) None, True), (EvSignal, True),
           (EvUnlock, False), (EvSwapToMain t (current_worker_id w me), False)] \<and>
        ctl ?w me = AtLoop)"
    by blast
qed

theorem trampoline_marks_finished_then_wakes_joiner_witness:
  "runs_task world_joining (Worker 0) 3 \<and>
   waiting_of world_joining 3 = Some 4 \<and>
   state_of world_joining 3 = LWT_STATE_RUNNING \<and>
   state_of world_joining 4 = LWT_STATE_BLOCKED \<and>
   on_ready_queue world_joining [] \<and>
   state_of (lwt_thread_finish 3 world_joining) 3 = LWT_STATE_FINISHED \<and>
   state_of (lwt_thread_finish 3 world_joining) 4 = LWT_STATE_READY \<and>
   on_ready_queue (lwt_thread_finish 3 world_joining) [4] \<and>
   waiting_of (lwt_thread_finish 3 world_joining) 3 = None \<and>
   state_of (lwt_thread_start_return (Worker 0) 3 world_joining) 3 = LWT_STATE_FINISHED \<and>
   ctl (lwt_thread_start_return (Worker 0) 3 world_joining) (Worker 0) = AtLoop \<and>
   runs_task world_running (Worker 0) 3 \<and>
   waiting_of world_running 3 = None \<and>
   state_of (lwt_thread_finish 3 world_running) 3 = LWT_STATE_FINISHED \<and>
   ready_queue (sched (lwt_thread_finish 3 world_running)) = ready_queue (sched world_running)"
proof -
  note F = world_joining_facts and G = world_running_facts
  note U = trampoline_marks_finished_then_wakes_joiner[of world_joining "Worker 0" 3,
             THEN mp, OF F(7)]
  have j: "waiting_of world_joining 3 = Some 4 \<and> (4::nat) \<noteq> 3" by (simp add: F(5))
  note U2 = U[THEN conjunct2, THEN conjunct1, rule_format, OF j]
  have n: "waiting_of world_joining 3 \<noteq> Some 3" by (simp add: F(5))
  note U3 = U[THEN conjunct2, THEN conjunct2, rule_format, OF n]
  have q: "on_ready_queue world_joining [] \<and> (4::nat) \<notin> set []" by (simp add: F(6))
  from U2 have a: "state_of (lwt_thread_finish 3 world_joining) 3 = LWT_STATE_FINISHED"
    "state_of (lwt_thread_finish 3 world_joining) 4 = LWT_STATE_READY"
    "waiting_of (lwt_thread_finish 3 world_joining) 3 = None"
    "\<forall>xs. on_ready_queue world_joining xs \<and> 4 \<notin> set xs \<longrightarrow>
          on_ready_queue (lwt_thread_finish 3 world_joining) (xs @ [4])"
    by blast+
  from a(4) q have b: "on_ready_queue (lwt_thread_finish 3 world_joining) ([] @ [4])" by blast
  from U3 have c: "state_of (lwt_thread_start_return (Worker 0) 3 world_joining) 3
        = LWT_STATE_FINISHED"
    "ctl (lwt_thread_start_return (Worker 0) 3 world_joining) (Worker 0) = AtLoop"
    by blast+
  note W = trampoline_marks_finished_then_wakes_joiner[of world_running "Worker 0" 3,
             THEN mp, OF G(14)]
  note W1 = W[THEN conjunct1, rule_format, OF G(16)]
  from W1 have d: "state_of (lwt_thread_finish 3 world_running) 3 = LWT_STATE_FINISHED"
    "ready_queue (sched (lwt_thread_finish 3 world_running)) = ready_queue (sched world_running)"
    by blast+
  have e: "runs_task world_joining (Worker 0) 3 \<and>
   waiting_of world_joining 3 = Some 4 \<and>
   state_of world_joining 3 = LWT_STATE_RUNNING \<and>
   state_of world_joining 4 = LWT_STATE_BLOCKED \<and>
   on_ready_queue world_joining []"
    by (simp add: F(3-7))
  have g: "runs_task world_running (Worker 0) 3 \<and> waiting_of world_running 3 = None"
    by (simp add: G(14,16))
  from b have b': "on_ready_queue (lwt_thread_finish 3 world_joining) [4]" by simp
  from e a(1-3) b' c g d show ?thesis by blast
qed

text \<open>
  C6. \<open>lwt_sleep ms\<close> on an OS thread without a current task calls \<open>nanosleep\<close> with
  \<open>ms\<close> split into seconds and nanoseconds: the thread sleeps \<open>ms\<close> milliseconds, and
  nothing but the log and the clock changes. From within a task \<open>t\<close> it computes the
  wake time (the clock reading plus \<open>ms\<close> milliseconds, normalised), then, in this
  order: takes the scheduler mutex, sets \<open>t\<close> to BLOCKED and clears the worker's running
  slot under it, releases it, calls \<open>nanosleep\<close> with the mutex released, takes the
  mutex again, sets \<open>t\<close> to READY, pushes it (it is the tail afterwards), signals the
  condition variable, releases the mutex and switches to the worker's dispatch context.
  But the interval it hands to \<open>nanosleep\<close> is the wake time itself, a point in time,
  not the \<open>ms\<close> milliseconds up to it: the task sleeps for the whole clock reading plus
  \<open>ms\<close> milliseconds, and wakes that much later than the wake time it has computed.
\<close>

theorem sleep_in_task_sleeps_for_the_wake_time:
  "(lwt_thread_self w me = None \<longrightarrow>
      lwt_sleep me ms w
        = w\<lparr>trace := trace w @
             [(EvNanosleep (unat (ms div 1000)) (unat ((ms mod 1000) * 1000000)),
               mutex_held w)],
            clock := clock w + unat ms * 1000000\<rparr>) \<and>
   (runs_task w me t \<longrightarrow>
      trace (lwt_sleep me ms w) = trace w @
        [(EvLock, True), (EvSetState t LWT_STATE_BLOCKED, True),
         (EvSetRunning (current_worker_id w me) None, True), (EvUnlock, False),
         (EvNanosleep (fst (wake_time (clock_gettime w) ms))
                      (snd (wake_time (clock_gettime w) ms)), False),
         (EvLock, True), (EvSetState t LWT_STATE_READY, True), (EvPush t, True),
         (EvSignal, True), (EvUnlock, False),
         (EvSwapToMain t (current_worker_id w me), False)] \<and>
      ns_of (wake_time (clock_gettime w) ms) = clock w + unat ms * 1000000 \<and>
      clock (lwt_sleep me ms w) = clock w + (clock w + unat ms * 1000000) \<and>
      state_of (lwt_sleep me ms w) t = LWT_STATE_READY \<and>
      tail (ready_queue (sched (lwt_sleep me ms w))) = Some t \<and>
      count (ready_queue (sched (lwt_sleep me ms w))) = count (ready_queue (sched w)) + 1 \<and>
      (\<forall>xs. on_ready_queue w xs \<and> t \<notin> set xs \<longrightarrow>
            on_ready_queue (lwt_sleep me ms w) (xs @ [t])) \<and>
      ctl (lwt_sleep me ms w) me = AtLoop \<and>
      mutex_held (lwt_sleep me ms w) = False)"
proof -
  have a: "lwt_thread_self w me = None \<longrightarrow>
      lwt_sleep me ms w
        = w\<lparr>trace := trace w @
             [(EvNanosleep (unat (ms div 1000)) (unat ((ms mod 1000) * 1000000)),
               mutex_held w)],
            clock := clock w + unat ms * 1000000\<rparr>"
    using sleep_outside[of w me ms] by blast
  have b: "trace (lwt_sleep me ms w) = trace w @
        [(EvLock, True), (EvSetState t LWT_STATE_BLOCKED, True),
         (EvSetRunning (current_worker_id w me) None, True), (EvUnlock, False),
         (EvNanosleep (fst (wake_time (clock_gettime w) ms))
                      (snd (wake_time (clock_gettime w) ms)), False),
         (EvLock, True), (EvSetState t LWT_STATE_READY, True), (EvPush t, True),
         (EvSignal, True), (EvUnlock, False),
         (EvSwapToMain t (current_worker_id w me), False)] \<and>
      ns_of (wake_time (clock_gettime w) ms) = clock w + unat ms * 1000000 \<and>
      clock (lwt_sleep me ms w) = clock w + (clock w + unat ms * 1000000) \<and>
      state_of (lwt_sleep me ms w) t = LWT_STATE_READY \<and>
      tail (ready_queue (sched (lwt_sleep me ms w))) = Some t \<and>
      count (ready_queue (sched (lwt_sleep me ms w))) = count (ready_queue (sched w)) + 1 \<and>
      (\<forall>xs. on_ready_queue w xs \<and> t \<notin> set xs \<longrightarrow>
            on_ready_queue (lwt_sleep me ms w) (xs @ [t])) \<and>
      ctl (lwt_sleep me ms w) me = AtLoop \<and>
      mutex_held (lwt_sleep me ms w) = False"
    if h: "runs_task w me t"
  proof -
    from h have ct: "current_thread w me = Some t" and v: "valid_worker_id w me"
      and n: "num_workers (sched w) \<le> 64"
      by (simp_all add: runs_task_def lwt_thread_self_def LWT_MAX_WORKERS_def)
    note E = sleep_effect[OF ct v n, of ms]
    have q: "\<forall>xs. on_ready_queue w xs \<and> t \<notin> set xs \<longrightarrow>
            on_ready_queue (lwt_sleep me ms w) (xs @ [t])"
      using sleep_views_in_task(4)[OF ct v] by blast
    from q show ?thesis by (simp add: E wake_time_clock(1))
  qed
  from a b show ?thesis by blast
qed

theorem sleep_in_task_sleeps_for_the_wake_time_witness:
  "runs_task world_running (Worker 0) 3 \<and>
   clock world_running = 1700000000250000000 \<and>
   wake_time (clock_gettime world_running) 1500 = (1700000001, 750000000) \<and>
   clock (lwt_sleep (Worker 0) 1500 world_running) = 3400000002000000000 \<and>
   state_of (lwt_sleep (Worker 0) 1500 world_running) 3 = LWT_STATE_READY \<and>
   on_ready_queue (lwt_sleep (Worker 0) 1500 world_running) [3] \<and>
   lwt_thread_self world_running (App 0) = None \<and>
   clock (lwt_sleep (App 0) 1500 world_running) = 1700000001750000000"
proof -
  note F = world_running_facts
  have h: "runs_task world_running (Worker 0) 3 \<and> on_ready_queue world_running [] \<and>
    (3::nat) \<notin> set []"
    by (simp add: F)
  have o: "lwt_thread_self world_running (App 0) = None"
    by (simp add: lwt_thread_self_def F)
  have wt: "wake_time (clock_gettime world_running) 1500 = (1700000001, 750000000)"
    by (simp add: wake_time_def clock_gettime_def Let_def F)
  from sleep_in_task_sleeps_for_the_wake_time[of world_running "Worker 0" 1500 3] h
  have a: "clock (lwt_sleep (Worker 0) 1500 world_running)
             = clock world_running + (clock world_running + unat (1500 :: 32 word) * 1000000) \<and>
    state_of (lwt_sleep (Worker 0) 1500 world_running) 3 = LWT_STATE_READY \<and>
    on_ready_queue (lwt_sleep (Worker 0) 1500 world_running) ([] @ [3])"
    by blast
  from sleep_in_task_sleeps_for_the_wake_time[of world_running "App 0" 1500 0] o
  have b: "lwt_sleep (App 0) 1500 world_running
      = world_running\<lparr>trace := trace world_running @
             [(EvNanosleep (unat ((1500 :: 32 word) div 1000))
                 (unat (((1500 :: 32 word) mod 1000) * 1000000)), mutex_held world_running)],
            clock := clock world_running + unat (1500 :: 32 word) * 1000000\<rparr>"
    by blast
  have c: "clock (lwt_sleep (App 0) 1500 world_running) = 1700000001750000000"
    unfolding b by (simp add: F)
  from h o wt a c show ?thesis by (simp add: F)
qed
end
